theory Spec2Isabelle
  imports Complex_Main
begin

section \<open>Text: characters, case and the classes of Python's \<open>re\<close>\<close>

text \<open>
  Python strings are modelled as \<^typ>\<open>string\<close>, one \<^typ>\<open>char\<close> per code point, and
  a character is classified by its code point, as Python does. A \<^typ>\<open>char\<close> is a code
  point below 256, so the text is the text of Latin-1, and the classes are those of \<open>re\<close>
  and \<open>str\<close> on it: \<open>\d\<close> is \<open>[0-9]\<close>; \<open>\s\<close> and \<open>str.isspace\<close> are the code points
  0x09..0x0D, 0x1C..0x20, 0x85 and 0xA0; \<open>\w\<close> is \<open>[A-Za-z0-9_]\<close> and the letters and
  numbers above 0x7F. \<open>str.lower\<close> moves a capital letter 32 code points up.
\<close>

definition code :: "char \<Rightarrow> int" where
  "code c = of_char c"

definition is_digit :: "char \<Rightarrow> bool" where
  "is_digit c = (let n = code c in 48 \<le> n \<and> n \<le> 57)"

definition is_upper :: "char \<Rightarrow> bool" where
  "is_upper c = (let n = code c in 65 \<le> n \<and> n \<le> 90)"

definition is_lower :: "char \<Rightarrow> bool" where
  "is_lower c = (let n = code c in 97 \<le> n \<and> n \<le> 122)"

definition is_space :: "char \<Rightarrow> bool" where
  "is_space c = (let n = code c in (9 \<le> n \<and> n \<le> 13) \<or> (28 \<le> n \<and> n \<le> 32) \<or> n = 133 \<or> n = 160)"

definition is_word :: "char \<Rightarrow> bool" where
  "is_word c =
     (let n = code c
      in (97 \<le> n \<and> n \<le> 122) \<or> (65 \<le> n \<and> n \<le> 90) \<or> (48 \<le> n \<and> n \<le> 57) \<or> n = 95
         \<or> n = 170 \<or> n = 178 \<or> n = 179 \<or> n = 181 \<or> n = 185 \<or> n = 186
         \<or> (188 \<le> n \<and> n \<le> 190) \<or> (192 \<le> n \<and> n \<le> 214) \<or> (216 \<le> n \<and> n \<le> 246)
         \<or> 248 \<le> n)"

definition lower_chr :: "char \<Rightarrow> char" where
  "lower_chr c =
     (let n = code c
      in if (65 \<le> n \<and> n \<le> 90) \<or> (192 \<le> n \<and> n \<le> 214) \<or> (216 \<le> n \<and> n \<le> 222)
         then char_of (n + 32) else c)"

text \<open>\<open>str.lower()\<close>.\<close>

definition lower :: "string \<Rightarrow> string" where
  "lower s = map lower_chr s"

text \<open>\<open>needle in haystack\<close> on strings.\<close>

fun starts_with :: "string \<Rightarrow> string \<Rightarrow> bool" where
  "starts_with [] hay = True"
| "starts_with (n # ns) [] = False"
| "starts_with (n # ns) (h # hs) = (if n = h then starts_with ns hs else False)"

fun contains :: "string \<Rightarrow> string \<Rightarrow> bool" where
  "contains needle [] = (needle = [])"
| "contains needle (c # cs) = (if starts_with needle (c # cs) then True else contains needle cs)"

text \<open>\<open>any(kw in text for kw in keywords)\<close>\<close>

fun contains_any :: "string list \<Rightarrow> string \<Rightarrow> bool" where
  "contains_any [] text = False"
| "contains_any (kw # kws) text = (if contains kw text then True else contains_any kws text)"

text \<open>\<open>str.strip()\<close>, \<open>str.replace(c, '')\<close> for a single character, \<open>str.split()\<close>
  on whitespace and \<open>' '.join\<close>.\<close>

definition strip :: "string \<Rightarrow> string" where
  "strip s = rev (dropWhile is_space (rev (dropWhile is_space s)))"

definition remove_chr :: "char \<Rightarrow> string \<Rightarrow> string" where
  "remove_chr c s = filter (\<lambda>x. x \<noteq> c) s"

fun split_ws :: "string \<Rightarrow> string \<Rightarrow> string list" where
  "split_ws cur [] = (if cur = [] then [] else [rev cur])"
| "split_ws cur (c # cs) =
     (if is_space c then (if cur = [] then split_ws [] cs else rev cur # split_ws [] cs)
      else split_ws (c # cur) cs)"

fun join :: "string \<Rightarrow> string list \<Rightarrow> string" where
  "join sep [] = []"
| "join sep [w] = w"
| "join sep (w # v # ws) = w @ sep @ join sep (v # ws)"

section \<open>Regular expressions: the backtracking matcher of \<open>re\<close>\<close>

text \<open>
  A pattern is a syntax tree; the source's pattern strings are transcribed into it one
  construct at a time. Matching is the backtracking search of \<open>re\<close>: alternatives are
  tried left to right, repetitions are greedy, and the first way to finish the whole
  pattern wins. The matcher is written with a continuation for "the rest of the
  pattern"; a continuation that answers \<open>None\<close> makes the matcher backtrack.
\<close>

datatype citem =
    CChr char              \<comment> \<open>a character in a set\<close>
  | CRange char char       \<comment> \<open>\<open>a-z\<close>: the code points from \<open>a\<close> to \<open>z\<close>\<close>
  | CDigit                 \<comment> \<open>\<open>\d\<close>\<close>
  | CWord                  \<comment> \<open>\<open>\w\<close>\<close>
  | CSpace                 \<comment> \<open>\<open>\s\<close>\<close>

datatype regex =
    Lit char                       \<comment> \<open>a literal character\<close>
  | Cls bool "citem list"          \<comment> \<open>\<open>[...]\<close>; \<open>True\<close> for the negated \<open>[^...]\<close>\<close>
  | Eps                            \<comment> \<open>the empty pattern\<close>
  | Seq regex regex                \<comment> \<open>concatenation\<close>
  | Alt regex regex                \<comment> \<open>\<open>a|b\<close>\<close>
  | Rep nat "nat option" regex     \<comment> \<open>greedy \<open>{lo,hi}\<close>; \<open>None\<close> for no upper bound\<close>
  | Grp nat regex                  \<comment> \<open>capturing group number \<open>n\<close>\<close>
  | WordB                          \<comment> \<open>\<open>\b\<close>\<close>

fun citem_has :: "citem \<Rightarrow> char \<Rightarrow> bool" where
  "citem_has (CChr x) c = (c = x)"
| "citem_has (CRange a b) c = (if code c \<le> code b then code a \<le> code c else False)"
| "citem_has CDigit c = is_digit c"
| "citem_has CWord c = is_word c"
| "citem_has CSpace c = is_space c"

fun in_items :: "citem list \<Rightarrow> char \<Rightarrow> bool" where
  "in_items [] c = False"
| "in_items (i # items) c = (if citem_has i c then True else in_items items c)"

definition cls_ok :: "bool \<Rightarrow> citem list \<Rightarrow> char \<Rightarrow> bool" where
  "cls_ok neg items x = (if neg then \<not> in_items items x else in_items items x)"

text \<open>
  \<open>re.IGNORECASE\<close>: a pattern matches as if every letter in it were written in both
  cases. A range of letters gets the same range in the other case; the ranges of the
  source's patterns are \<open>0-9\<close>, \<open>1-4\<close>, \<open>A-Z\<close> and \<open>a-z\<close>, and their letters are
  letters of ASCII, which \<open>swap_case\<close> gives the other case of.
\<close>

definition swap_case :: "char \<Rightarrow> char" where
  "swap_case c =
     (if is_upper c then char_of (code c + 32) else if is_lower c then char_of (code c - 32) else c)"

fun both_cases :: "citem \<Rightarrow> citem list" where
  "both_cases (CChr c) = (if swap_case c = c then [CChr c] else [CChr c, CChr (swap_case c)])"
| "both_cases (CRange a b) =
     (if (is_upper a \<and> is_upper b) \<or> (is_lower a \<and> is_lower b)
      then [CRange a b, CRange (swap_case a) (swap_case b)] else [CRange a b])"
| "both_cases i = [i]"

primrec ignore_case :: "regex \<Rightarrow> regex" where
  "ignore_case (Lit c) = (if swap_case c = c then Lit c else Cls False [CChr c, CChr (swap_case c)])"
| "ignore_case (Cls neg items) = Cls neg (concat (map both_cases items))"
| "ignore_case Eps = Eps"
| "ignore_case (Seq a b) = Seq (ignore_case a) (ignore_case b)"
| "ignore_case (Alt a b) = Alt (ignore_case a) (ignore_case b)"
| "ignore_case (Rep lo hi r) = Rep lo hi (ignore_case r)"
| "ignore_case (Grp n r) = Grp n (ignore_case r)"
| "ignore_case WordB = WordB"

text \<open>The matcher's state: the character before the current position (for \<open>\b\<close>), the
  text still to read, the text read since the last mark (latest character first), and the
  groups captured so far. A group and a round of a repetition set a mark when they start
  and hand the text they read back to the enclosing mark when they end.\<close>

record mstate =
  prev :: "char option"
  rest :: string
  buf :: string
  caps :: "(nat \<times> string) list"

definition advance :: "mstate \<Rightarrow> char \<Rightarrow> string \<Rightarrow> mstate" where
  "advance st x xs = st\<lparr>prev := Some x, rest := xs, buf := x # buf st\<rparr>"

definition word_opt :: "char option \<Rightarrow> bool" where
  "word_opt c = (case c of None \<Rightarrow> False | Some x \<Rightarrow> is_word x)"

definition at_boundary :: "mstate \<Rightarrow> bool" where
  "at_boundary st = (word_opt (prev st) \<noteq> word_opt (case rest st of [] \<Rightarrow> None | x # _ \<Rightarrow> Some x))"

definition mark :: "mstate \<Rightarrow> mstate" where
  "mark st = st\<lparr>buf := []\<rparr>"

definition unmark :: "mstate \<Rightarrow> mstate \<Rightarrow> mstate" where
  "unmark before after = after\<lparr>buf := buf after @ buf before\<rparr>"

definition set_group :: "nat \<Rightarrow> mstate \<Rightarrow> mstate \<Rightarrow> mstate" where
  "set_group n before after =
     (unmark before after)\<lparr>caps := (n, rev (buf after)) # caps after\<rparr>"

text \<open>What follows a group: the group is recorded, then the rest of the pattern \<open>k\<close>.\<close>

definition close_group :: "nat \<Rightarrow> mstate \<Rightarrow> (mstate \<Rightarrow> 'r option) \<Rightarrow> mstate \<Rightarrow> 'r option" where
  "close_group n before k after = k (set_group n before after)"

text \<open>A greedy repetition: one more round of the body if the bound allows it and the round
  reads some text, otherwise (or when the rest fails after it) the rest of the pattern,
  provided the lower bound is met. The fuel is the text still to read: every round reads
  at least one character of it.\<close>

fun rep_loop :: "string \<Rightarrow> ((mstate \<Rightarrow> 'r option) \<Rightarrow> mstate \<Rightarrow> 'r option) \<Rightarrow> nat \<Rightarrow> nat \<Rightarrow> nat option
                  \<Rightarrow> (mstate \<Rightarrow> 'r option) \<Rightarrow> mstate \<Rightarrow> 'r option" where
  "rep_loop [] body done lo hi k st = (if lo \<le> done then k st else None)"
| "rep_loop (f # fuel) body done lo hi k st =
     (case (if (case hi of None \<Rightarrow> True | Some h \<Rightarrow> done < h)
            then body (\<lambda>st'. if buf st' = [] then None
                              else rep_loop fuel body (Suc done) lo hi k (unmark st st'))
                      (mark st)
            else None) of
        Some r \<Rightarrow> Some r
      | None \<Rightarrow> if lo \<le> done then k st else None)"

text \<open>\<open>rmatch r k st\<close> matches \<open>r\<close> at the state \<open>st\<close> and hands the state after it to
  \<open>k\<close>, the rest of the pattern.\<close>

primrec rmatch :: "regex \<Rightarrow> (mstate \<Rightarrow> 'r option) \<Rightarrow> mstate \<Rightarrow> 'r option" where
  "rmatch (Lit c) k st =
     (case rest st of [] \<Rightarrow> None | x # xs \<Rightarrow> if x = c then k (advance st x xs) else None)"
| "rmatch (Cls neg items) k st =
     (case rest st of [] \<Rightarrow> None | x # xs \<Rightarrow> if cls_ok neg items x then k (advance st x xs) else None)"
| "rmatch Eps k st = k st"
| "rmatch (Seq a b) k st = rmatch a (rmatch b k) st"
| "rmatch (Alt a b) k st =
     (case rmatch a k st of Some r \<Rightarrow> Some r | None \<Rightarrow> rmatch b k st)"
| "rmatch (Rep lo hi r) k st = rep_loop (rest st) (rmatch r) 0 lo hi k st"
| "rmatch (Grp n r) k st = rmatch r (close_group n st k) (mark st)"
| "rmatch WordB k st = (if at_boundary st then k st else None)"

text \<open>Pattern shorthands.\<close>

fun seqs :: "regex list \<Rightarrow> regex" where
  "seqs [] = Eps"
| "seqs [r] = r"
| "seqs (r # rs) = Seq r (seqs rs)"

fun alts :: "regex list \<Rightarrow> regex" where
  "alts [] = Eps"
| "alts [r] = r"
| "alts (r # rs) = Alt r (alts rs)"

definition lits :: "string \<Rightarrow> regex" where
  "lits s = seqs (map Lit s)"

abbreviation Star :: "regex \<Rightarrow> regex" where
  "Star r \<equiv> Rep 0 None r"

abbreviation Plus :: "regex \<Rightarrow> regex" where
  "Plus r \<equiv> Rep 1 None r"

abbreviation Opt :: "regex \<Rightarrow> regex" where
  "Opt r \<equiv> Rep 0 (Some 1) r"

abbreviation Dig :: regex where
  "Dig \<equiv> Cls False [CRange CHR ''0'' CHR ''9'']"

text \<open>A match: where it starts and ends in the text, the text it covers (group 0) and
  its numbered groups.\<close>

record rmatch_result =
  m_start :: nat
  m_end :: nat
  m_text :: string
  m_groups :: "(nat \<times> string) list"

text \<open>\<open>match.group(n)\<close>; \<open>None\<close> for a group that took no part in the match.\<close>

definition group :: "rmatch_result \<Rightarrow> nat \<Rightarrow> string option" where
  "group m n = (if n = 0 then Some (m_text m) else map_of (m_groups m) n)"

text \<open>One attempt at one position: the text of the match and its groups. With
  \<open>must_advance\<close> an empty match is refused, and the matcher backtracks for a longer
  one.\<close>

definition finish :: "bool \<Rightarrow> mstate \<Rightarrow> (string \<times> (nat \<times> string) list) option" where
  "finish must_advance st =
     (if must_advance \<and> buf st = [] then None else Some (rev (buf st), caps st))"

definition match_here :: "regex \<Rightarrow> bool \<Rightarrow> char option \<Rightarrow> string \<Rightarrow> (string \<times> (nat \<times> string) list) option" where
  "match_here r must_advance p s =
     rmatch r (finish must_advance) \<lparr>prev = p, rest = s, buf = [], caps = []\<rparr>"

definition mk_match :: "nat \<Rightarrow> string \<times> (nat \<times> string) list \<Rightarrow> rmatch_result" where
  "mk_match pos m = \<lparr>m_start = pos, m_end = pos + length (fst m), m_text = fst m, m_groups = snd m\<rparr>"

text \<open>
  The scan shared by \<open>re.finditer\<close>, \<open>re.search\<close> and \<open>re.sub\<close>: left to right,
  matches do not overlap. Each character of the text ends up either outside every match
  (\<open>Outside\<close>) or covered by the match reported before it. After an empty match the
  same position is tried once more for a non-empty one, as \<open>re\<close> does since Python 3.7.
  \<open>skip\<close> holds the characters still covered by the last match.
\<close>

datatype piece = Outside char | Found rmatch_result

fun scan :: "regex \<Rightarrow> nat \<Rightarrow> string \<Rightarrow> char option \<Rightarrow> string \<Rightarrow> piece list" where
  "scan r pos skip p [] =
     (if skip = [] then
        (case match_here r False p [] of
           None \<Rightarrow> []
         | Some m \<Rightarrow> [Found (mk_match pos m)])
      else [])"
| "scan r pos (s # skip) p (c # cs) = scan r (Suc pos) skip (Some c) cs"
| "scan r pos [] p (c # cs) =
     (case match_here r False p (c # cs) of
        None \<Rightarrow> Outside c # scan r (Suc pos) [] (Some c) cs
      | Some ([], g) \<Rightarrow>
          Found (mk_match pos ([], g)) #
          (case match_here r True p (c # cs) of
             None \<Rightarrow> Outside c # scan r (Suc pos) [] (Some c) cs
           | Some ([], g') \<Rightarrow> Outside c # scan r (Suc pos) [] (Some c) cs
           | Some (x # xs, g') \<Rightarrow>
               Found (mk_match pos (x # xs, g')) # scan r (Suc pos) xs (Some c) cs)
      | Some (x # xs, g) \<Rightarrow>
          Found (mk_match pos (x # xs, g)) # scan r (Suc pos) xs (Some c) cs)"

fun found :: "piece list \<Rightarrow> rmatch_result list" where
  "found [] = []"
| "found (Outside c # ps) = found ps"
| "found (Found m # ps) = m # found ps"

text \<open>\<open>ic\<close> is the flag \<open>re.IGNORECASE\<close>.\<close>

definition compile :: "bool \<Rightarrow> regex \<Rightarrow> regex" where
  "compile ic r = (if ic then ignore_case r else r)"

definition finditer :: "bool \<Rightarrow> regex \<Rightarrow> string \<Rightarrow> rmatch_result list" where
  "finditer ic r s = found (scan (compile ic r) 0 [] None s)"

text \<open>\<open>re.search\<close>: the first match, and no look at the text after it.\<close>

fun search_from :: "regex \<Rightarrow> nat \<Rightarrow> char option \<Rightarrow> string \<Rightarrow> rmatch_result option" where
  "search_from r pos p [] =
     (case match_here r False p [] of None \<Rightarrow> None | Some m \<Rightarrow> Some (mk_match pos m))"
| "search_from r pos p (c # cs) =
     (case match_here r False p (c # cs) of
        None \<Rightarrow> search_from r (Suc pos) (Some c) cs
      | Some m \<Rightarrow> Some (mk_match pos m))"

definition search :: "bool \<Rightarrow> regex \<Rightarrow> string \<Rightarrow> rmatch_result option" where
  "search ic r s = search_from (compile ic r) 0 None s"

text \<open>\<open>re.sub(pattern, repl, s)\<close> for a replacement without group references.\<close>

fun rebuild :: "string \<Rightarrow> piece list \<Rightarrow> string" where
  "rebuild repl [] = []"
| "rebuild repl (Outside c # ps) = c # rebuild repl ps"
| "rebuild repl (Found m # ps) = repl @ rebuild repl ps"

definition sub :: "bool \<Rightarrow> regex \<Rightarrow> string \<Rightarrow> string \<Rightarrow> string" where
  "sub ic r repl s = rebuild repl (scan (compile ic r) 0 [] None s)"

section \<open>Exceptions and \<open>Decimal\<close>\<close>

text \<open>The exceptions the modelled code can raise. A function that can raise returns
  \<open>error + 'a\<close>, with \<open>Inl\<close> for the exception.\<close>

datatype error =
    InvalidOperation     \<comment> \<open>\<open>decimal.InvalidOperation\<close>: \<open>Decimal(s)\<close> on a string it cannot read\<close>
  | ValueError           \<comment> \<open>\<open>float(s)\<close> on a string it cannot read; the truth value of a pandas Series\<close>
  | ParserError          \<comment> \<open>\<open>dateutil.parser.parse\<close> on a string it cannot read\<close>
  | NameError            \<comment> \<open>a global name that is not bound\<close>
  | TypeError            \<comment> \<open>comparing an offset-aware with an offset-naive datetime\<close>
  | IndexError           \<comment> \<open>an index out of range\<close>
  | DatabaseError        \<comment> \<open>a statement the database refuses\<close>

fun mapM :: "('a \<Rightarrow> error + 'b) \<Rightarrow> 'a list \<Rightarrow> error + 'b list" where
  "mapM f [] = Inr []"
| "mapM f (x # xs) =
     (case f x of
        Inl e \<Rightarrow> Inl e
      | Inr y \<Rightarrow> (case mapM f xs of Inl e \<Rightarrow> Inl e | Inr ys \<Rightarrow> Inr (y # ys)))"

text \<open>
  A finite \<open>Decimal\<close>: the number \<open>coef / 10 ^ places\<close>. Two decimals are equal in
  Python when they denote the same number (\<open>Decimal('15.00') == Decimal('15')\<close>), which
  is equality of \<open>dec_val\<close>. A product is rounded to the 28 significant digits of the
  default context, ties to even. The context's limits on the exponent, which a number of
  a million digits meets, are not modelled.
\<close>

record dec =
  coef :: int
  places :: nat

definition dec_val :: "dec \<Rightarrow> rat" where
  "dec_val d = of_int (coef d) / 10 ^ places d"

text \<open>The number of decimal digits of a positive integer.\<close>

function ndigits :: "int \<Rightarrow> nat" where
  "ndigits n = (if n < 10 then 1 else Suc (ndigits (n div 10)))"
  by auto
termination by (relation "measure nat") auto

declare ndigits.simps [simp del]

text \<open>\<open>m / k\<close> rounded to an integer, ties to even, for \<open>0 \<le> m\<close> and \<open>0 < k\<close>.\<close>

definition div_half_even :: "int \<Rightarrow> int \<Rightarrow> int" where
  "div_half_even m k =
     (let q = m div k; r = m mod k
      in if 2 * r < k then q else if k < 2 * r then q + 1 else if even q then q else q + 1)"

text \<open>What the context keeps of an exact result: a coefficient of more than 28 digits is
  rounded to 28.\<close>

definition context_round :: "dec \<Rightarrow> dec" where
  "context_round d =
     (let m = \<bar>coef d\<bar>
      in if m < 10000000000000000000000000000 then d
         else
           (let k = ndigits m - 28;
                q = div_half_even m (10 ^ k);
                c = (if coef d < 0 then - q else q)
            in if k \<le> places d then \<lparr>coef = c, places = places d - k\<rparr>
               else \<lparr>coef = c * 10 ^ (k - places d), places = 0\<rparr>))"

definition dec_mul :: "dec \<Rightarrow> int \<Rightarrow> dec" where
  "dec_mul d n = context_round (d\<lparr>coef := coef d * n\<rparr>)"

definition dec_le_int :: "dec \<Rightarrow> int \<Rightarrow> bool" where
  "dec_le_int d n = (coef d \<le> n * 10 ^ places d)"

definition digit_val :: "char \<Rightarrow> int" where
  "digit_val c = code c - 48"

text \<open>The number a string of digits denotes.\<close>

definition int_of_digits :: "string \<Rightarrow> int" where
  "int_of_digits s = foldl (\<lambda>a c. 10 * a + digit_val c) 0 s"

text \<open>
  \<open>Decimal(s)\<close> for a numeric string: surrounding whitespace and underscores are dropped,
  then an optional sign, digits with an optional fraction (at least one digit in all) and
  an optional exponent. \<open>None\<close> stands for \<open>InvalidOperation\<close>. \<open>Decimal\<close> also reads
  \<open>Infinity\<close> and \<open>NaN\<close>, which are not finite decimals and are not modelled.
\<close>

definition split_sign :: "string \<Rightarrow> bool \<times> string" where
  "split_sign s =
     (case s of
        [] \<Rightarrow> (False, [])
      | c # t \<Rightarrow> if c = CHR ''-'' then (True, t) else if c = CHR ''+'' then (False, t) else (False, s))"

definition parse_exponent :: "string \<Rightarrow> int option" where
  "parse_exponent s =
     (case s of
        [] \<Rightarrow> Some 0
      | c # t \<Rightarrow>
          if c = CHR ''e'' \<or> c = CHR ''E'' then
            (let (neg, ds) = split_sign t
             in if ds \<noteq> [] \<and> list_all is_digit ds
                then Some (if neg then - int_of_digits ds else int_of_digits ds)
                else None)
          else None)"

definition py_Decimal :: "string \<Rightarrow> dec option" where
  "py_Decimal s =
     (let (neg, body) = split_sign (remove_chr CHR ''_'' (strip s));
          ip = takeWhile is_digit body;
          r1 = dropWhile is_digit body;
          (fp, r2) = (case r1 of
                        [] \<Rightarrow> ([], [])
                      | c # t \<Rightarrow> if c = CHR ''.'' then (takeWhile is_digit t, dropWhile is_digit t)
                                else ([], r1))
      in if ip = [] \<and> fp = [] then None
         else (case parse_exponent r2 of
                 None \<Rightarrow> None
               | Some e \<Rightarrow>
                   (let c = int_of_digits (ip @ fp);
                        c' = (if neg then - c else c);
                        p = int (length fp) - e
                    in Some (if p < 0 then \<lparr>coef = c' * 10 ^ nat (- p), places = 0\<rparr>
                             else \<lparr>coef = c', places = nat p\<rparr>))))"

section \<open>Binary64 numbers\<close>

text \<open>
  A \<open>float\<close> is kept as the rational number it denotes, and an operation on floats is
  the exact operation followed by \<open>round64\<close>, the rounding of IEEE 754 to the nearest
  number with 53 significant bits, ties to even. The limits of the exponent are not
  modelled: the numbers rounded here lie between 0.0001 and the number of facts of an
  envelope.
\<close>

definition pow2 :: "int \<Rightarrow> rat" where
  "pow2 k = (if 0 \<le> k then 2 ^ nat k else 1 / 2 ^ nat (- k))"

text \<open>The number of bits of a positive integer.\<close>

function bits :: "int \<Rightarrow> int" where
  "bits n = (if n \<le> 0 then 0 else 1 + bits (n div 2))"
  by auto
termination by (relation "measure nat") auto

declare bits.simps [simp del]

text \<open>The exponent \<open>e\<close> of a positive number: \<open>2 ^ e \<le> x < 2 ^ (e + 1)\<close>.\<close>

definition exponent :: "rat \<Rightarrow> int" where
  "exponent x = (let (p, q) = quotient_of x; b = bits p - bits q in if pow2 b \<le> x then b else b - 1)"

definition nearest_even :: "rat \<Rightarrow> int" where
  "nearest_even x =
     (let f = \<lfloor>x\<rfloor>; r = x - of_int f
      in if r < 1 / 2 then f else if 1 / 2 < r then f + 1 else if even f then f else f + 1)"

definition round64 :: "rat \<Rightarrow> rat" where
  "round64 x =
     (if x = 0 then 0
      else (let e = exponent \<bar>x\<bar>; m = nearest_even (\<bar>x\<bar> * pow2 (52 - e))
            in sgn x * of_int m * pow2 (e - 52)))"

text \<open>\<open>sum\<close> on a list of floats: from the left, every partial sum rounded.\<close>

definition fsum :: "rat list \<Rightarrow> rat" where
  "fsum xs = foldl (\<lambda>a x. round64 (a + x)) 0 xs"

section \<open>Email ingestion: \<open>PortfolioDataExtractor\<close>\<close>

subsection \<open>\<open>extract_amounts\<close>\<close>

text \<open>\<open>[0-9]{1,3}(?:,[0-9]{3})*(?:\.[0-9]{2})?\<close>, the body of group 1 in the first
  two amount patterns.\<close>

definition grouped_number :: regex where
  "grouped_number =
     seqs [Rep 1 (Some 3) Dig,
           Star (Seq (Lit CHR '','') (Rep 3 (Some 3) Dig)),
           Opt (Seq (Lit CHR ''.'') (Rep 2 (Some 2) Dig))]"

text \<open>\<open>(?:USD|dollars?)\<close>\<close>

definition currency_word :: regex where
  "currency_word = Alt (lits ''USD'') (Seq (lits ''dollar'') (Opt (Lit CHR ''s'')))"

text \<open>
  \<^verbatim>\<open>AMOUNT_PATTERNS = [
    r'\$([0-9]{1,3}(?:,[0-9]{3})*(?:\.[0-9]{2})?)',
    r'([0-9]{1,3}(?:,[0-9]{3})*(?:\.[0-9]{2})?)\s*(?:USD|dollars?)',
    r'([0-9]+(?:\.[0-9]+)?)[kKmMbB](?:\s*(?:USD|dollars?))?' ]\<close>
\<close>

definition AMOUNT_PATTERNS :: "regex list" where
  "AMOUNT_PATTERNS =
     [Seq (Lit CHR ''$'') (Grp 1 grouped_number),
      seqs [Grp 1 grouped_number, Star (Cls False [CSpace]), currency_word],
      seqs [Grp 1 (Seq (Plus Dig) (Opt (Seq (Lit CHR ''.'') (Plus Dig)))),
            Cls False (map CChr ''kKmMbB''),
            Opt (Seq (Star (Cls False [CSpace])) currency_word)]]"

text \<open>\<open>text[a:b]\<close> for \<open>0 \<le> a\<close> and \<open>b \<le> len(text)\<close>.\<close>

definition slice :: "nat \<Rightarrow> nat \<Rightarrow> string \<Rightarrow> string" where
  "slice a b s = take (b - a) (drop a s)"

definition multiplier_of :: "char \<Rightarrow> int option" where
  "multiplier_of c = map_of [(CHR ''k'', 1000), (CHR ''m'', 1000000), (CHR ''b'', 1000000000)] c"

text \<open>The confidence of one match, from the 50 characters on either side of it: 90, then
  95 on an investment word, then 85 on a valuation word; the later assignment stands.\<close>

definition amount_confidence :: "string \<Rightarrow> rmatch_result \<Rightarrow> int" where
  "amount_confidence text m =
     (let context = lower (slice (m_start m - 50) (min (length text) (m_end m + 50)) text);
          c1 = (if contains_any [''invested'', ''investment'', ''amount''] context then 95 else 90)
      in if contains_any [''pre-money'', ''post-money'', ''valuation''] context then 85 else c1)"

text \<open>The body of the inner loop of \<open>extract_amounts\<close>: the amount of one match. The
  multiplier is read from the last character of the whole match.\<close>

definition amount_of_match :: "string \<Rightarrow> rmatch_result \<Rightarrow> error + (dec \<times> int)" where
  "amount_of_match text m =
     (case group m 1 of
        None \<Rightarrow> Inl TypeError
      | Some g \<Rightarrow>
          (let amount_str = remove_chr CHR '','' g
           in if m_text m = [] then Inl IndexError
              else (case py_Decimal amount_str of
                      None \<Rightarrow> Inl InvalidOperation
                    | Some d \<Rightarrow>
                        (let amount = (case multiplier_of (lower_chr (last (m_text m))) of
                                         Some k \<Rightarrow> dec_mul d k
                                       | None \<Rightarrow> d)
                         in Inr (amount, amount_confidence text m)))))"

definition extract_amounts :: "string \<Rightarrow> error + (dec \<times> int) list" where
  "extract_amounts text =
     mapM (amount_of_match text) (concat (map (\<lambda>pattern. finditer False pattern text) AMOUNT_PATTERNS))"

subsection \<open>Dates\<close>

text \<open>
  Datetimes come from outside the repository: \<open>dateutil.parser.parse\<close>, \<open>datetime.now\<close>,
  \<open>timedelta\<close> arithmetic, \<open>isoformat\<close> and \<open>strftime\<close>. They are the parameters of
  the model, over any type \<open>'d\<close> of datetimes. \<open>parse\<close> answers \<open>None\<close> where
  \<open>dateutil\<close> raises. \<open>rounded_float\<close> stands for binary64 arithmetic where it rounds
  (see \<open>float_times_str\<close>).
\<close>

record 'd platform =
  parse :: "string \<Rightarrow> 'd option"
  now :: 'd
  minus_days :: "'d \<Rightarrow> nat \<Rightarrow> 'd"
  isoformat :: "'d \<Rightarrow> string"
  strftime_ym :: "'d \<Rightarrow> string"
  rounded_float :: "string \<Rightarrow> int \<Rightarrow> string"

definition DATE_KEYWORDS :: "(string \<times> string list) list" where
  "DATE_KEYWORDS =
     [(''close_date'', [''closed'', ''closing date'', ''close date'', ''completed on'']),
      (''as_of_date'', [''as of'', ''as at'', ''ownership as of'', ''cap table dated'']),
      (''period'', [''for the period'', ''quarter ending'', ''month ending'', ''YTD through''])]"

abbreviation D :: regex where
  "D \<equiv> Cls False [CDigit]"

text \<open>\<^verbatim>\<open>rf"{keyword}[:\s]*([A-Za-z]+ \d{1,2},? \d{4}|\d{1,2}[/-]\d{1,2}[/-]\d{2,4})"\<close>\<close>

definition date_pattern :: "string \<Rightarrow> regex" where
  "date_pattern keyword =
     seqs [lits keyword,
           Star (Cls False [CChr CHR '':'', CSpace]),
           Grp 1 (Alt (seqs [Plus (Cls False [CRange CHR ''A'' CHR ''Z'', CRange CHR ''a'' CHR ''z'']),
                             Lit CHR '' '', Rep 1 (Some 2) D, Opt (Lit CHR '',''),
                             Lit CHR '' '', Rep 4 (Some 4) D])
                       (seqs [Rep 1 (Some 2) D, Cls False [CChr CHR ''/'', CChr CHR ''-''],
                              Rep 1 (Some 2) D, Cls False [CChr CHR ''/'', CChr CHR ''-''],
                              Rep 2 (Some 4) D]))]"

text \<open>The first match whose group 1 parses; a match that does not parse is skipped.\<close>

fun first_parsed :: "(string \<Rightarrow> 'd option) \<Rightarrow> rmatch_result list \<Rightarrow> 'd option" where
  "first_parsed prs [] = None"
| "first_parsed prs (m # ms) =
     (case group m 1 of
        None \<Rightarrow> first_parsed prs ms
      | Some g \<Rightarrow> (case prs g of Some d \<Rightarrow> Some d | None \<Rightarrow> first_parsed prs ms))"

text \<open>The keywords of one date type, in order: the first keyword with a parsed date wins.\<close>

fun first_keyword_date :: "(string \<Rightarrow> 'd option) \<Rightarrow> string \<Rightarrow> string list \<Rightarrow> 'd option" where
  "first_keyword_date prs text [] = None"
| "first_keyword_date prs text (keyword # keywords) =
     (case first_parsed prs (finditer True (date_pattern keyword) text) of
        Some d \<Rightarrow> Some d
      | None \<Rightarrow> first_keyword_date prs text keywords)"

text \<open>The dictionary \<open>extract_dates\<close> returns, as a map from date type to datetime.\<close>

definition extract_dates :: "'d platform \<Rightarrow> string \<Rightarrow> (string \<rightharpoonup> 'd)" where
  "extract_dates pf text =
     (\<lambda>date_type. case map_of DATE_KEYWORDS date_type of
                     None \<Rightarrow> None
                   | Some keywords \<Rightarrow> first_keyword_date (parse pf) text keywords)"

subsection \<open>\<open>extract_ownership\<close>\<close>

text \<open>\<open>[0-9]+(?:\.[0-9]+)?\<close>\<close>

definition plain_number :: regex where
  "plain_number = Seq (Plus Dig) (Opt (Seq (Lit CHR ''.'') (Plus Dig)))"

abbreviation Spaces :: regex where
  "Spaces \<equiv> Star (Cls False [CSpace])"

text \<open>
  \<^verbatim>\<open>patterns = [
    r'([0-9]+(?:\.[0-9]+)?)\s*%\s*(?:ownership|equity|stake)',
    r'(?:owns?|holding?)\s*([0-9]+(?:\.[0-9]+)?)\s*%',
    r'fully[\s-]diluted\s*(?:ownership|basis)?\s*(?:of\s*)?([0-9]+(?:\.[0-9]+)?)\s*%' ]\<close>
\<close>

definition ownership_patterns :: "regex list" where
  "ownership_patterns =
     [seqs [Grp 1 plain_number, Spaces, Lit CHR ''%'', Spaces,
            alts [lits ''ownership'', lits ''equity'', lits ''stake'']],
      seqs [Alt (Seq (lits ''own'') (Opt (Lit CHR ''s''))) (Seq (lits ''holdin'') (Opt (Lit CHR ''g''))),
            Spaces, Grp 1 plain_number, Spaces, Lit CHR ''%''],
      seqs [lits ''fully'', Cls False [CSpace, CChr CHR ''-''], lits ''diluted'', Spaces,
            Opt (Alt (lits ''ownership'') (lits ''basis'')), Spaces,
            Opt (Seq (lits ''of'') Spaces), Grp 1 plain_number, Spaces, Lit CHR ''%'']]"

text \<open>The first pattern that is found anywhere in the text decides; the confidence is
  always 0.85.\<close>

fun first_search :: "bool \<Rightarrow> regex list \<Rightarrow> string \<Rightarrow> rmatch_result option" where
  "first_search ic [] text = None"
| "first_search ic (pattern # patterns) text =
     (case search ic pattern text of
        Some m \<Rightarrow> Some m
      | None \<Rightarrow> first_search ic patterns text)"

definition extract_ownership :: "string \<Rightarrow> error + (dec \<times> rat) option" where
  "extract_ownership text =
     (case first_search True ownership_patterns text of
        None \<Rightarrow> Inr None
      | Some m \<Rightarrow>
          (case group m 1 of
             None \<Rightarrow> Inl TypeError
           | Some g \<Rightarrow> (case py_Decimal g of
                          None \<Rightarrow> Inl InvalidOperation
                        | Some d \<Rightarrow> Inr (Some (d, round64 (85 / 100))))))"

subsection \<open>\<open>extract_metrics\<close>\<close>

text \<open>\<open>\$?([0-9,]+(?:\.[0-9]+)?[kKmM]?)\<close>, the money value of the ARR, revenue, burn
  and cash patterns.\<close>

definition money_value :: regex where
  "money_value =
     Seq (Opt (Lit CHR ''$''))
         (Grp 1 (seqs [Plus (Cls False [CRange CHR ''0'' CHR ''9'', CChr CHR '','']),
                       Opt (Seq (Lit CHR ''.'') (Plus Dig)),
                       Opt (Cls False (map CChr ''kKmM''))]))"

abbreviation Colons :: regex where
  "Colons \<equiv> Star (Cls False [CChr CHR '':'', CSpace])"

text \<open>
  \<^verbatim>\<open>metric_patterns = {
    'ARR': r'ARR[:\s]*\$?([0-9,]+(?:\.[0-9]+)?[kKmM]?)',
    'revenue': r'revenue[:\s]*\$?([0-9,]+(?:\.[0-9]+)?[kKmM]?)',
    'runway_months': r'runway[:\s]*([0-9]+)\s*months?',
    'headcount': r'(?:headcount|employees?|team size)[:\s]*([0-9]+)',
    'burn_rate': r'burn\s*(?:rate)?[:\s]*\$?([0-9,]+(?:\.[0-9]+)?[kKmM]?)',
    'cash': r'cash\s*(?:balance)?[:\s]*\$?([0-9,]+(?:\.[0-9]+)?[kKmM]?)',
    'churn': r'churn[:\s]*([0-9]+(?:\.[0-9]+)?)\s*%' }\<close>
\<close>

definition metric_patterns :: "(string \<times> regex) list" where
  "metric_patterns =
     [(''ARR'', seqs [lits ''ARR'', Colons, money_value]),
      (''revenue'', seqs [lits ''revenue'', Colons, money_value]),
      (''runway_months'', seqs [lits ''runway'', Colons, Grp 1 (Plus Dig), Spaces,
                               lits ''month'', Opt (Lit CHR ''s'')]),
      (''headcount'', seqs [alts [lits ''headcount'', Seq (lits ''employee'') (Opt (Lit CHR ''s'')),
                                 lits ''team size''],
                           Colons, Grp 1 (Plus Dig)]),
      (''burn_rate'', seqs [lits ''burn'', Spaces, Opt (lits ''rate''), Colons, money_value]),
      (''cash'', seqs [lits ''cash'', Spaces, Opt (lits ''balance''), Colons, money_value]),
      (''churn'', seqs [lits ''churn'', Colons, Grp 1 plain_number, Spaces, Lit CHR ''%''])]"

text \<open>
  \<open>str(float(s) * k)\<close> for \<open>k\<close> = 1000 or 1000000. Where \<open>s\<close> denotes a binary64
  number \<open>n / 2 ^ p\<close> and \<open>n * k\<close> stays below \<open>2 ^ 53\<close>, neither the conversion nor
  the product rounds. Where the product also has at most 15 significant digits and is
  not below 0.0001, the shortest digits that \<open>repr\<close> looks for are its exact decimal
  expansion, printed in positional notation, with \<open>.0\<close> for a whole number. Everywhere
  else the printed string is the platform's (\<open>rounded_float\<close>). \<open>float\<close> raises
  \<open>ValueError\<close> on a string it cannot read.
\<close>

text \<open>The digits of a natural number, most significant first; the fuel bounds their
  number.\<close>

fun digits_of :: "nat \<Rightarrow> int \<Rightarrow> string" where
  "digits_of 0 n = []"
| "digits_of (Suc fuel) n =
     (if n < 10 then [char_of (48 + n)] else digits_of fuel (n div 10) @ [char_of (48 + n mod 10)])"

definition str_int :: "int \<Rightarrow> string" where
  "str_int n = (if n < 0 then CHR ''-'' # digits_of 400 (- n) else digits_of 400 n)"

definition strip_trailing_zeros :: "string \<Rightarrow> string" where
  "strip_trailing_zeros s = rev (dropWhile (\<lambda>c. c = CHR ''0'') (rev s))"

text \<open>A non-negative decimal in positional notation, as \<open>repr\<close> prints a float.\<close>

definition positional :: "dec \<Rightarrow> string" where
  "positional d =
     (let whole = coef d div 10 ^ places d;
          part = coef d mod 10 ^ places d;
          frac_digits = digits_of 400 part;
          frac = strip_trailing_zeros (replicate (places d - length frac_digits) CHR ''0'' @ frac_digits)
      in str_int whole @ ''.'' @ (if frac = [] then ''0'' else frac))"

definition float_times_str :: "'d platform \<Rightarrow> string \<Rightarrow> int \<Rightarrow> error + string" where
  "float_times_str pf s k =
     (case py_Decimal s of
        None \<Rightarrow> Inl ValueError
      | Some d \<Rightarrow>
          if 0 \<le> coef d \<and> coef d mod 5 ^ places d = 0 \<and> (coef d div 5 ^ places d) * k < 2 ^ 53
             \<and> length (strip_trailing_zeros (digits_of 400 (coef d * k))) \<le> 15
             \<and> (coef d * k = 0 \<or> 10 ^ places d \<le> coef d * k * 10000)
          then Inr (positional (d\<lparr>coef := coef d * k\<rparr>))
          else Inr (rounded_float pf s k))"

text \<open>The normalisation of one matched value: a value ending in k or m is multiplied as a
  float, any other value only loses its commas.\<close>

definition normalize_metric :: "'d platform \<Rightarrow> string \<Rightarrow> error + string" where
  "normalize_metric pf v =
     (if v = [] then Inl IndexError
      else (case map_of [(CHR ''k'', 1000), (CHR ''m'', 1000000)] (lower_chr (last v)) of
              Some k \<Rightarrow> float_times_str pf (remove_chr CHR '','' (butlast v)) k
            | None \<Rightarrow> Inr (remove_chr CHR '','' v)))"

fun metrics_of :: "'d platform \<Rightarrow> string \<Rightarrow> (string \<times> regex) list \<Rightarrow> error + (string \<times> string) list" where
  "metrics_of pf text [] = Inr []"
| "metrics_of pf text ((metric, pattern) # ps) =
     (case search True pattern text of
        None \<Rightarrow> metrics_of pf text ps
      | Some m \<Rightarrow>
          (case group m 1 of
             None \<Rightarrow> Inl TypeError
           | Some v \<Rightarrow>
               (case normalize_metric pf v of
                  Inl e \<Rightarrow> Inl e
                | Inr v' \<Rightarrow> (case metrics_of pf text ps of
                               Inl e \<Rightarrow> Inl e
                             | Inr others \<Rightarrow> Inr ((metric, v') # others)))))"

text \<open>The metrics dictionary, in the order of the pattern table.\<close>

definition extract_metrics :: "'d platform \<Rightarrow> string \<Rightarrow> error + (string \<times> string) list" where
  "extract_metrics pf text = metrics_of pf text metric_patterns"

subsection \<open>The extraction envelope\<close>

text \<open>
  The dictionaries that \<open>extract_from_email\<close> builds. A fact is one of the dictionaries
  appended to a fact list; \<open>Document\<close> is the dictionary that \<open>main\<close> appends for an
  attachment, the only one without a \<open>confidence\<close> key. Dates are stored as the strings
  \<open>isoformat\<close> returns, amounts and percentages as the decimals whose \<open>str\<close> is stored,
  confidences as the rational numbers that the floats denote.
\<close>

datatype fact =
    Cashflow (cf_date: string) (cf_kind: string) (cf_amount: dec) (cf_confidence: rat)
  | Ownership (ow_as_of_date: string) (ow_fully_diluted_pct: dec) (ow_confidence: rat)
  | Update (up_period_start: string) (up_period_end: string) (up_report_period: string)
           (up_metrics: "(string \<times> string) list") (up_qualitative_summary: string)
           (up_confidence: rat)
  | Comm (cm_source: string) (cm_occurred_at: string) (cm_summary: string)
         (cm_extracted_fields: "(string \<times> string) list") (cm_confidence: rat)
  | Document (doc_id: string) (doc_storage_url: string) (doc_title: string) (doc_type: string)

text \<open>\<open>item['confidence']\<close>, when \<open>'confidence' in item\<close>.\<close>

fun fact_confidence :: "fact \<Rightarrow> rat option" where
  "fact_confidence (Cashflow d k a c) = Some c"
| "fact_confidence (Ownership d p c) = Some c"
| "fact_confidence (Update ps pe rp m q c) = Some c"
| "fact_confidence (Comm s oc su ef c) = Some c"
| "fact_confidence (Document i u t ty) = None"

text \<open>A value of the \<open>facts\<close> dictionary: the \<open>company\<close> entry is a dictionary, every
  other entry a list of facts. The dictionary keeps its keys in insertion order.\<close>

datatype fvalue = FDict "(string \<times> string) list" | FList "fact list"

type_synonym facts = "(string \<times> fvalue) list"

record source_ptr =
  source_type :: string
  source_id :: string
  storage_url :: string

record envelope =
  company_id :: "string option"
  source_ptr :: source_ptr
  facts :: facts
  confidence_overall :: rat
  spans :: "string list"
  anomalies :: "string list"
  assumptions :: "string list"

text \<open>\<open>result['facts'][key].append(item)\<close>\<close>

fun facts_append :: "string \<Rightarrow> fact \<Rightarrow> facts \<Rightarrow> facts" where
  "facts_append key item [] = []"
| "facts_append key item ((k, v) # kvs) =
     (if k = key then (k, (case v of FList xs \<Rightarrow> FList (xs @ [item]) | FDict d \<Rightarrow> FDict d)) # kvs
      else (k, v) # facts_append key item kvs)"

text \<open>\<open>result['facts'][key] = value\<close>: a new key goes to the end.\<close>

fun facts_set :: "string \<Rightarrow> fvalue \<Rightarrow> facts \<Rightarrow> facts" where
  "facts_set key value [] = [(key, value)]"
| "facts_set key value ((k, v) # kvs) =
     (if k = key then (k, value) # kvs else (k, v) # facts_set key value kvs)"

text \<open>\<open>facts.get(key, [])\<close> as the list of facts that a loop over it visits.\<close>

definition facts_list :: "facts \<Rightarrow> string \<Rightarrow> fact list" where
  "facts_list fs key = (case map_of fs key of Some (FList xs) \<Rightarrow> xs | _ \<Rightarrow> [])"

definition add_fact :: "string \<Rightarrow> fact \<Rightarrow> envelope \<Rightarrow> envelope" where
  "add_fact key item result = result\<lparr>facts := facts_append key item (facts result)\<rparr>"

text \<open>The message, with the fields \<open>extract_from_email\<close> reads; a field that is missing
  from the Graph API's dictionary reads as the empty string.\<close>

record email =
  subject :: string
  body :: string
  from_address :: string
  message_id :: string
  receivedDateTime :: string

subsection \<open>Classification and the extractors of each email type\<close>

definition classify_email :: "string \<Rightarrow> string \<Rightarrow> string" where
  "classify_email subj bdy =
     (let subject_lower = lower subj in
      if contains ''[update]'' subject_lower \<or> contains ''monthly update'' subject_lower
        then ''UPDATE''
      else if contains ''[financials]'' subject_lower \<or> contains ''financial statements'' (lower bdy)
        then ''FINANCIALS''
      else if contains ''[board]'' subject_lower \<or> contains ''board deck'' (lower bdy)
        then ''BOARD''
      else if contains ''[notebooklm]'' subject_lower \<or> contains ''notebook lm'' (lower bdy)
        then ''NOTEBOOKLM''
      else if contains ''[captable]'' subject_lower \<or> contains ''cap table'' (lower bdy)
        then ''CAPTABLE''
      else ''GENERAL'')"

text \<open>\<open>Q([1-4])\s*(\d{4})\<close>\<close>

definition quarter_pattern :: regex where
  "quarter_pattern =
     seqs [Lit CHR ''Q'', Grp 1 (Cls False [CRange CHR ''1'' CHR ''4'']), Spaces, Grp 2 (Rep 4 (Some 4) D)]"

text \<open>The report period: \<open>f"{year}-Q{quarter}"\<close> of the first quarter mentioned, the two
  numbers read by \<open>int\<close>, else the month of the period's end.\<close>

definition report_period_of :: "'d platform \<Rightarrow> string \<Rightarrow> 'd \<Rightarrow> string" where
  "report_period_of pf text period_end =
     (case search False quarter_pattern text of
        Some m \<Rightarrow>
          (case (group m 1, group m 2) of
             (Some q, Some y) \<Rightarrow> str_int (int_of_digits y) @ ''-Q'' @ str_int (int_of_digits q)
           | _ \<Rightarrow> strftime_ym pf period_end)
      | None \<Rightarrow> strftime_ym pf period_end)"

text \<open>\<open>_extract_update\<close>. The default of \<open>dates.get('period', ...)\<close> is computed before
  the lookup, so a received date that does not parse raises even when the text names a
  period.\<close>

definition extract_update :: "'d platform \<Rightarrow> string \<Rightarrow> envelope \<Rightarrow> string \<Rightarrow> error + envelope" where
  "extract_update pf text result received_date =
     (case extract_metrics pf text of
        Inl e \<Rightarrow> Inl e
      | Inr metrics \<Rightarrow>
          (case parse pf received_date of
             None \<Rightarrow> Inl ParserError
           | Some received \<Rightarrow>
               (let period_end = (case extract_dates pf text ''period'' of Some d \<Rightarrow> d | None \<Rightarrow> received);
                    period_start = minus_days pf period_end 30
                in Inr (add_fact ''updates''
                          (Update (isoformat pf period_start) (isoformat pf period_end)
                                  (report_period_of pf text period_end) metrics (take 500 text) (round64 (8 / 10)))
                          result))))"

text \<open>\<open>_extract_financials\<close> and \<open>_extract_board_materials\<close> are \<open>pass\<close>.\<close>

definition extract_financials :: "string \<Rightarrow> envelope \<Rightarrow> envelope" where
  "extract_financials text result = result"

definition extract_board_materials :: "string \<Rightarrow> envelope \<Rightarrow> envelope" where
  "extract_board_materials text result = result"

definition extract_notebook_lm :: "'d platform \<Rightarrow> string \<Rightarrow> envelope \<Rightarrow> error + envelope" where
  "extract_notebook_lm pf text result =
     (case extract_metrics pf text of
        Inl e \<Rightarrow> Inl e
      | Inr extracted \<Rightarrow>
          Inr (result\<lparr>facts := facts_set ''comm''
                 (FList [Comm ''notebook_lm'' (isoformat pf (now pf)) (take 1000 text) extracted (round64 (7 / 10))])
                 (facts result)\<rparr>))"

definition extract_cap_table :: "'d platform \<Rightarrow> string \<Rightarrow> envelope \<Rightarrow> error + envelope" where
  "extract_cap_table pf text result =
     (case extract_ownership text of
        Inl e \<Rightarrow> Inl e
      | Inr None \<Rightarrow> Inr result
      | Inr (Some (pct, conf)) \<Rightarrow>
          Inr (add_fact ''ownerships'' (Ownership (isoformat pf (now pf)) pct conf) result))"

subsection \<open>\<open>extract_from_email\<close>\<close>

definition initial_result :: "string \<Rightarrow> envelope" where
  "initial_result msg_id =
     \<lparr>company_id = None,
      source_ptr = \<lparr>source_type = ''email'', source_id = msg_id,
                    storage_url = ''graph://messages/'' @ msg_id\<rparr>,
      facts = [(''company'', FDict []), (''rounds'', FList []), (''ownerships'', FList []),
               (''cashflows'', FList []), (''updates'', FList []), (''contacts'', FList []),
               (''documents'', FList [])],
      confidence_overall = 0,
      spans = [],
      anomalies = [],
      assumptions = [''currency defaulted to USD'']\<rparr>"

definition extract_by_type :: "'d platform \<Rightarrow> string \<Rightarrow> string \<Rightarrow> string \<Rightarrow> envelope \<Rightarrow> error + envelope" where
  "extract_by_type pf email_type full_text received_date result =
     (if email_type = ''UPDATE'' then extract_update pf full_text result received_date
      else if email_type = ''FINANCIALS'' then Inr (extract_financials full_text result)
      else if email_type = ''BOARD'' then Inr (extract_board_materials full_text result)
      else if email_type = ''NOTEBOOKLM'' then extract_notebook_lm pf full_text result
      else if email_type = ''CAPTABLE'' then extract_cap_table pf full_text result
      else Inr result)"

text \<open>One cashflow per amount found, all of them or none: the test is on the word
  \<open>invested\<close> anywhere in the text.\<close>

fun add_cashflows :: "'d platform \<Rightarrow> string \<Rightarrow> (string \<rightharpoonup> 'd) \<Rightarrow> (dec \<times> int) list \<Rightarrow> envelope \<Rightarrow> envelope" where
  "add_cashflows pf full_text dates [] result = result"
| "add_cashflows pf full_text dates ((amount, confidence) # amounts) result =
     add_cashflows pf full_text dates amounts
       (if contains ''invested'' (lower full_text)
        then add_fact ''cashflows''
               (Cashflow (isoformat pf (case dates ''close_date'' of Some d \<Rightarrow> d | None \<Rightarrow> now pf))
                         ''Investment'' amount (round64 (of_int confidence / 100)))
               result
        else result)"

definition add_ownership :: "'d platform \<Rightarrow> (string \<rightharpoonup> 'd) \<Rightarrow> (dec \<times> rat) option \<Rightarrow> envelope \<Rightarrow> envelope" where
  "add_ownership pf dates ownership result =
     (case ownership of
        None \<Rightarrow> result
      | Some (pct, conf) \<Rightarrow>
          add_fact ''ownerships''
            (Ownership (isoformat pf (case dates ''as_of_date'' of Some d \<Rightarrow> d | None \<Rightarrow> now pf)) pct conf)
            result)"

text \<open>The confidences of every item of every list of the \<open>facts\<close> dictionary.\<close>

fun value_confidences :: "fvalue \<Rightarrow> rat list" where
  "value_confidences (FDict d) = []"
| "value_confidences (FList xs) = List.map_filter fact_confidence xs"

definition all_confidences :: "facts \<Rightarrow> rat list" where
  "all_confidences fs = concat (map (\<lambda>kv. value_confidences (snd kv)) fs)"

text \<open>\<open>sum(confidences) / len(confidences) if confidences else 0.5\<close>, in binary64.\<close>

definition overall :: "rat list \<Rightarrow> rat" where
  "overall confidences =
     (if confidences = [] then 1 / 2
      else round64 (fsum confidences / of_nat (length confidences)))"

text \<open>
  Modelled from the spec: the confidence fields of all extracted facts across all fact
  lists of an envelope, in the order of the lists and of the facts in them. An
  attachment has no such field.
\<close>

fun confidence_field :: "fact \<Rightarrow> rat list" where
  "confidence_field (Cashflow d k a c) = [c]"
| "confidence_field (Ownership d p c) = [c]"
| "confidence_field (Update ps pe rp m q c) = [c]"
| "confidence_field (Comm s oc su ef c) = [c]"
| "confidence_field (Document i u t ty) = []"

fun fact_lists :: "facts \<Rightarrow> fact list list" where
  "fact_lists [] = []"
| "fact_lists ((key, FDict d) # fs) = fact_lists fs"
| "fact_lists ((key, FList items) # fs) = items # fact_lists fs"

definition confidence_fields :: "envelope \<Rightarrow> rat list" where
  "confidence_fields r = concat (map confidence_field (concat (fact_lists (facts r))))"

text \<open>\<open>f"{subject}\n{body}"\<close>\<close>

definition full_text_of :: "email \<Rightarrow> string" where
  "full_text_of email_data = subject email_data @ [CHR 0x0A] @ body email_data"

definition extract_from_email :: "'d platform \<Rightarrow> email \<Rightarrow> error + envelope" where
  "extract_from_email pf email_data =
     (let full_text = full_text_of email_data;
          email_type = classify_email (subject email_data) (body email_data)
      in case extract_by_type pf email_type full_text (receivedDateTime email_data)
                (initial_result (message_id email_data)) of
           Inl e \<Rightarrow> Inl e
         | Inr result1 \<Rightarrow>
             (case extract_amounts full_text of
                Inl e \<Rightarrow> Inl e
              | Inr amounts \<Rightarrow>
                  (case extract_ownership full_text of
                     Inl e \<Rightarrow> Inl e
                   | Inr ownership \<Rightarrow>
                       (let dates = extract_dates pf full_text;
                            result2 = add_cashflows pf full_text dates amounts result1;
                            result3 = add_ownership pf dates ownership result2
                        in Inr (result3\<lparr>confidence_overall := overall (all_confidences (facts result3))\<rparr>)))))"

section \<open>Persistence: \<open>DataPersister.persist_extraction\<close>\<close>

text \<open>
  The database is the state that the statements of \<open>persist_extraction\<close> change: one list
  of rows per table, in insertion order. A column that the statement does not name, or a
  key that the fact's dictionary lacks (\<open>dict.get\<close> gives \<open>None\<close>), is \<open>NULL\<close>, written
  \<open>None\<close>.
\<close>

record cashflow_row =
  cfr_company_id :: string
  cfr_date :: "string option"
  cfr_kind :: "string option"
  cfr_amount :: "dec option"
  cfr_source_type :: string
  cfr_source_id :: string
  cfr_extraction_confidence :: rat

record ownership_row =
  owr_company_id :: string
  owr_as_of_date :: "string option"
  owr_fully_diluted_pct :: "dec option"
  owr_source_type :: string
  owr_source_id :: string
  owr_extraction_confidence :: rat

record update_row =
  upr_company_id :: string
  upr_period_start :: "string option"
  upr_period_end :: "string option"
  upr_report_period :: "string option"
  upr_metrics :: "(string \<times> string) list"
  upr_qualitative_summary :: "string option"
  upr_confidence :: rat
  upr_source_type :: string
  upr_source_id :: string
  upr_extraction_confidence :: rat

record ingestion_log_row =
  log_source_type :: string
  log_source_id :: string
  log_company_id :: string
  log_records_created :: "(string \<times> nat) list"
  log_confidence_overall :: rat
  log_anomalies :: "string list"
  log_assumptions :: "string list"
  log_status :: string

record store =
  cashflow_tbl :: "cashflow_row list"
  ownership_tbl :: "ownership_row list"
  update_tbl :: "update_row list"
  ingestion_log :: "ingestion_log_row list"

text \<open>\<open>cf.get('date')\<close> and the other lookups in a fact's dictionary.\<close>

fun get_date :: "fact \<Rightarrow> string option" where
  "get_date (Cashflow d k a c) = Some d"
| "get_date f = None"

fun get_kind :: "fact \<Rightarrow> string option" where
  "get_kind (Cashflow d k a c) = Some k"
| "get_kind f = None"

fun get_amount :: "fact \<Rightarrow> dec option" where
  "get_amount (Cashflow d k a c) = Some a"
| "get_amount f = None"

fun get_as_of_date :: "fact \<Rightarrow> string option" where
  "get_as_of_date (Ownership d p c) = Some d"
| "get_as_of_date f = None"

fun get_fully_diluted_pct :: "fact \<Rightarrow> dec option" where
  "get_fully_diluted_pct (Ownership d p c) = Some p"
| "get_fully_diluted_pct f = None"

fun get_period_start :: "fact \<Rightarrow> string option" where
  "get_period_start (Update ps pe rp m q c) = Some ps"
| "get_period_start f = None"

fun get_period_end :: "fact \<Rightarrow> string option" where
  "get_period_end (Update ps pe rp m q c) = Some pe"
| "get_period_end f = None"

fun get_report_period :: "fact \<Rightarrow> string option" where
  "get_report_period (Update ps pe rp m q c) = Some rp"
| "get_report_period f = None"

fun get_metrics :: "fact \<Rightarrow> (string \<times> string) list" where
  "get_metrics (Update ps pe rp m q c) = m"
| "get_metrics f = []"

fun get_qualitative_summary :: "fact \<Rightarrow> string option" where
  "get_qualitative_summary (Update ps pe rp m q c) = Some q"
| "get_qualitative_summary f = None"

text \<open>\<open>item.get('confidence', 0.5)\<close>\<close>

definition get_confidence :: "fact \<Rightarrow> rat" where
  "get_confidence f = (case fact_confidence f of Some c \<Rightarrow> c | None \<Rightarrow> 1 / 2)"

text \<open>Two numeric values are the same key when they denote the same number.\<close>

definition dec_eq :: "dec \<Rightarrow> dec \<Rightarrow> bool" where
  "dec_eq a b = (coef a * 10 ^ places b = coef b * 10 ^ places a)"

text \<open>
  Modelled from the spec: the unique keys of the tables, which the database schema
  declares and the repository's files do not contain. The spec gives the natural key of a
  cashflow as company, date and amount, and that of an ownership as company and as-of
  date; the statements' \<open>ON CONFLICT\<close> targets add a column each (\<open>wire_ref\<close>,
  \<open>security_class\<close>) that the statements never set. A \<open>NULL\<close> key column never
  conflicts. The \<open>update\<close> table has no key: its statement has no \<open>ON CONFLICT\<close>.
\<close>

definition cashflow_conflict :: "cashflow_row \<Rightarrow> cashflow_row \<Rightarrow> bool" where
  "cashflow_conflict new old =
     (cfr_company_id new = cfr_company_id old
      \<and> (case (cfr_date new, cfr_date old) of (Some a, Some b) \<Rightarrow> a = b | _ \<Rightarrow> False)
      \<and> (case (cfr_amount new, cfr_amount old) of (Some a, Some b) \<Rightarrow> dec_eq a b | _ \<Rightarrow> False))"

definition ownership_conflict :: "ownership_row \<Rightarrow> ownership_row \<Rightarrow> bool" where
  "ownership_conflict new old =
     (owr_company_id new = owr_company_id old
      \<and> (case (owr_as_of_date new, owr_as_of_date old) of (Some a, Some b) \<Rightarrow> a = b | _ \<Rightarrow> False))"

text \<open>\<open>INSERT ... ON CONFLICT ... DO NOTHING RETURNING cashflow_id\<close>: the new table and
  whether a row came back for \<open>cur.fetchone()\<close>.\<close>

definition insert_cashflow :: "cashflow_row \<Rightarrow> cashflow_row list \<Rightarrow> cashflow_row list \<times> bool" where
  "insert_cashflow new tbl =
     (if list_ex (cashflow_conflict new) tbl then (tbl, False) else (tbl @ [new], True))"

text \<open>\<open>INSERT ... ON CONFLICT ... DO UPDATE SET fully_diluted_pct = EXCLUDED...,
  extraction_confidence = EXCLUDED... RETURNING ownership_id\<close>: the row comes back whether
  it was inserted or updated.\<close>

definition insert_ownership :: "ownership_row \<Rightarrow> ownership_row list \<Rightarrow> ownership_row list \<times> bool" where
  "insert_ownership new tbl =
     (if list_ex (ownership_conflict new) tbl
      then (map (\<lambda>old. if ownership_conflict new old
                        then old\<lparr>owr_fully_diluted_pct := owr_fully_diluted_pct new,
                                 owr_extraction_confidence := owr_extraction_confidence new\<rparr>
                        else old) tbl, True)
      else (tbl @ [new], True))"

text \<open>\<open>INSERT INTO portfolio.update ... RETURNING update_id\<close>\<close>

definition insert_update :: "update_row \<Rightarrow> update_row list \<Rightarrow> update_row list \<times> bool" where
  "insert_update new tbl = (tbl @ [new], True)"

definition cashflow_row_of :: "string \<Rightarrow> source_ptr \<Rightarrow> fact \<Rightarrow> cashflow_row" where
  "cashflow_row_of cid sp cf =
     \<lparr>cfr_company_id = cid, cfr_date = get_date cf, cfr_kind = get_kind cf,
      cfr_amount = get_amount cf, cfr_source_type = source_type sp, cfr_source_id = source_id sp,
      cfr_extraction_confidence = get_confidence cf\<rparr>"

definition ownership_row_of :: "string \<Rightarrow> source_ptr \<Rightarrow> fact \<Rightarrow> ownership_row" where
  "ownership_row_of cid sp own =
     \<lparr>owr_company_id = cid, owr_as_of_date = get_as_of_date own,
      owr_fully_diluted_pct = get_fully_diluted_pct own, owr_source_type = source_type sp,
      owr_source_id = source_id sp, owr_extraction_confidence = get_confidence own\<rparr>"

definition update_row_of :: "string \<Rightarrow> source_ptr \<Rightarrow> fact \<Rightarrow> update_row" where
  "update_row_of cid sp u =
     \<lparr>upr_company_id = cid, upr_period_start = get_period_start u, upr_period_end = get_period_end u,
      upr_report_period = get_report_period u, upr_metrics = get_metrics u,
      upr_qualitative_summary = get_qualitative_summary u, upr_confidence = get_confidence u,
      upr_source_type = source_type sp, upr_source_id = source_id sp,
      upr_extraction_confidence = get_confidence u\<rparr>"

text \<open>The three loops: each runs its statement and counts the rows that came back.\<close>

fun persist_cashflows :: "string \<Rightarrow> source_ptr \<Rightarrow> fact list \<Rightarrow> cashflow_row list \<times> nat \<Rightarrow> cashflow_row list \<times> nat" where
  "persist_cashflows cid sp [] acc = acc"
| "persist_cashflows cid sp (cf # cfs) (tbl, n) =
     (let (tbl', returned) = insert_cashflow (cashflow_row_of cid sp cf) tbl
      in persist_cashflows cid sp cfs (tbl', if returned then n + 1 else n))"

fun persist_ownerships :: "string \<Rightarrow> source_ptr \<Rightarrow> fact list \<Rightarrow> ownership_row list \<times> nat \<Rightarrow> ownership_row list \<times> nat" where
  "persist_ownerships cid sp [] acc = acc"
| "persist_ownerships cid sp (own # owns) (tbl, n) =
     (let (tbl', returned) = insert_ownership (ownership_row_of cid sp own) tbl
      in persist_ownerships cid sp owns (tbl', if returned then n + 1 else n))"

fun persist_updates :: "string \<Rightarrow> source_ptr \<Rightarrow> fact list \<Rightarrow> update_row list \<times> nat \<Rightarrow> update_row list \<times> nat" where
  "persist_updates cid sp [] acc = acc"
| "persist_updates cid sp (u # us) (tbl, n) =
     (let (tbl', returned) = insert_update (update_row_of cid sp u) tbl
      in persist_updates cid sp us (tbl', if returned then n + 1 else n))"

text \<open>What \<open>persist_extraction\<close> returns: \<open>{'status': 'skipped', ...}\<close> or
  \<open>{'status': 'success', 'records_created': ...}\<close>.\<close>

datatype persist_result = Skipped | Success "(string \<times> nat) list"

text \<open>An envelope without a company (\<open>None\<close> or the empty string) is skipped and nothing
  is written. Otherwise the three loops run, the ingestion is logged and the transaction
  commits. The statements are taken to succeed: a failure rolls the transaction back and
  re-raises, which leaves the database as it was.\<close>

definition persist_extraction :: "envelope \<Rightarrow> store \<Rightarrow> store \<times> persist_result" where
  "persist_extraction extraction_result db =
     (case company_id extraction_result of
        None \<Rightarrow> (db, Skipped)
      | Some cid \<Rightarrow>
          if cid = [] then (db, Skipped)
          else
            (let sp = source_ptr extraction_result;
                 fs = facts extraction_result;
                 (cf_tbl, n_cf) = persist_cashflows cid sp (facts_list fs ''cashflows'') (cashflow_tbl db, 0);
                 (ow_tbl, n_ow) = persist_ownerships cid sp (facts_list fs ''ownerships'') (ownership_tbl db, 0);
                 (up_tbl, n_up) = persist_updates cid sp (facts_list fs ''updates'') (update_tbl db, 0);
                 records_created = [(''company'', 0), (''rounds'', 0), (''ownerships'', n_ow),
                                    (''cashflows'', n_cf), (''updates'', n_up), (''contacts'', 0),
                                    (''documents'', 0)];
                 entry = \<lparr>log_source_type = source_type sp, log_source_id = source_id sp,
                          log_company_id = cid, log_records_created = records_created,
                          log_confidence_overall = confidence_overall extraction_result,
                          log_anomalies = anomalies extraction_result,
                          log_assumptions = assumptions extraction_result,
                          log_status = ''success''\<rparr>
             in (\<lparr>cashflow_tbl = cf_tbl, ownership_tbl = ow_tbl, update_tbl = up_tbl,
                  ingestion_log = ingestion_log db @ [entry]\<rparr>,
                 Success records_created)))"

text \<open>The stored facts: the three fact tables, without the ingestion log.\<close>

definition stored_facts :: "store \<Rightarrow> cashflow_row list \<times> ownership_row list \<times> update_row list" where
  "stored_facts db = (cashflow_tbl db, ownership_tbl db, update_tbl db)"

definition empty_store :: store where
  "empty_store = \<lparr>cashflow_tbl = [], ownership_tbl = [], update_tbl = [], ingestion_log = []\<rparr>"

definition created :: "persist_result \<Rightarrow> string \<Rightarrow> nat option" where
  "created r key = (case r of Skipped \<Rightarrow> None | Success rc \<Rightarrow> map_of rc key)"

section \<open>Spreadsheet import: \<open>RobustCSVParser\<close>\<close>

subsection \<open>Cells and Python values\<close>

text \<open>
  A cell of the data frame: missing (\<open>NaN\<close> or \<open>None\<close>, what \<open>pd.isna\<close> accepts), a
  string, or a number. A number is carried by the text that \<open>str\<close> prints for it, which
  is all that the cleaning functions read of it. A CSV file gives strings and missing
  cells; a workbook gives numbers too.
\<close>

datatype cell = Null | Text string | Number string

definition isna :: "cell \<Rightarrow> bool" where
  "isna v = (v = Null)"

text \<open>\<open>str(value)\<close>; a missing cell prints as \<open>nan\<close>.\<close>

fun str_cell :: "cell \<Rightarrow> string" where
  "str_cell Null = ''nan''"
| "str_cell (Text s) = s"
| "str_cell (Number n) = n"

text \<open>\<open>pd.isna(value) or value == '' or value is None\<close>\<close>

definition blank :: "cell \<Rightarrow> bool" where
  "blank v = (isna v \<or> v = Text [])"

text \<open>
  What a cleaning function hands back: \<open>None\<close> or a \<open>Decimal\<close>, which is a finite
  decimal, an infinity (\<open>True\<close> for the negative one) or a quiet NaN, whose sign and
  payload are not kept. \<open>PyStr\<close> is a string, which the signature \<open>Optional[Decimal]\<close>
  does not announce.
\<close>

datatype pyval = PyNone | PyDecimal dec | PyInfinity bool | PyNaN | PyStr string

text \<open>
  The strings that \<open>Decimal\<close> reads as something else than a finite decimal:
  \<open>Inf\<close>, \<open>Infinity\<close>, \<open>NaN\<close> and \<open>sNaN\<close> in any case, with an optional sign, the
  NaNs with optional digits after them.
\<close>

datatype special = Infinity bool | QNaN | SNaN

definition py_special :: "string \<Rightarrow> special option" where
  "py_special s =
     (let (neg, body) = split_sign (remove_chr CHR ''_'' (strip s));
          w = lower body
      in if w = ''inf'' \<or> w = ''infinity'' then Some (Infinity neg)
         else if starts_with ''nan'' w \<and> list_all is_digit (drop 3 w) then Some QNaN
         else if starts_with ''snan'' w \<and> list_all is_digit (drop 4 w) then Some SNaN
         else None)"

text \<open>
  A call returns a value and the warnings it logged, or raises. The module imports
  \<open>decimal\<close> and \<open>timedelta\<close> only under \<open>if __name__ == "__main__"\<close>: \<open>is_main\<close> says
  whether the module runs as the script. When it is imported instead, evaluating
  \<open>except (ValueError, TypeError, decimal.InvalidOperation)\<close> raises \<open>NameError\<close>.
\<close>

type_synonym 'a logged = "error + ('a \<times> string list)"

subsection \<open>\<open>clean_currency\<close> and \<open>clean_percentage\<close>\<close>

text \<open>\<open>re.sub(r'[$,\s]', '', value_str)\<close>\<close>

definition strip_currency :: "string \<Rightarrow> string" where
  "strip_currency s = sub False (Cls False [CChr CHR ''$'', CChr CHR '','', CSpace]) [] s"

text \<open>\<open>if value_str.startswith('(') and value_str.endswith(')'): value_str = '-' + value_str[1:-1]\<close>\<close>

definition unparenthesize :: "string \<Rightarrow> string" where
  "unparenthesize s =
     (if s \<noteq> [] \<and> hd s = CHR ''('' \<and> last s = CHR '')'' then CHR ''-'' # butlast (tl s) else s)"

text \<open>The K/M/B suffix: the multiplier and the string without the suffix.\<close>

definition split_suffix :: "string \<Rightarrow> int \<times> string" where
  "split_suffix s =
     (if s = [] then (1, s)
      else if last s = CHR ''k'' \<or> last s = CHR ''K'' then (1000, butlast s)
      else if last s = CHR ''m'' \<or> last s = CHR ''M'' then (1000000, butlast s)
      else if last s = CHR ''b'' \<or> last s = CHR ''B'' then (1000000000, butlast s)
      else (1, s))"

text \<open>What \<open>clean_currency\<close> hands to \<open>Decimal\<close>, with the multiplier.\<close>

definition currency_text :: "string \<Rightarrow> int \<times> string" where
  "currency_text s = split_suffix (unparenthesize (strip_currency s))"

text \<open>The \<open>except\<close> clause of both cleaning functions: log and return \<open>None\<close>, if the
  clause itself can be evaluated.\<close>

definition parse_failure :: "bool \<Rightarrow> string \<Rightarrow> pyval logged" where
  "parse_failure is_main message = (if is_main then Inr (PyNone, [message]) else Inl NameError)"

text \<open>\<open>Decimal(value_str) * multiplier\<close>: an infinity and a quiet NaN stay what they are,
  a signalling NaN raises \<open>InvalidOperation\<close> in the product.\<close>

definition clean_currency :: "bool \<Rightarrow> cell \<Rightarrow> pyval logged" where
  "clean_currency is_main v =
     (if blank v then Inr (PyNone, [])
      else
        (let (multiplier, value_str) = currency_text (str_cell v)
         in case py_Decimal value_str of
              Some d \<Rightarrow> Inr (PyDecimal (dec_mul d multiplier), [])
            | None \<Rightarrow>
                (case py_special value_str of
                   Some (Infinity neg) \<Rightarrow> Inr (PyInfinity neg, [])
                 | Some QNaN \<Rightarrow> Inr (PyNaN, [])
                 | _ \<Rightarrow> parse_failure is_main (''Could not parse currency value: '' @ str_cell v))))"

text \<open>\<open>str(value).strip().replace('%', '').replace(',', '')\<close>\<close>

definition percent_text :: "string \<Rightarrow> string" where
  "percent_text s = remove_chr CHR '','' (remove_chr CHR ''%'' (strip s))"

text \<open>\<open>pct <= 1\<close> raises \<open>InvalidOperation\<close> on a NaN; the negative infinity is below 1
  and stays what it is when multiplied.\<close>

definition clean_percentage :: "bool \<Rightarrow> cell \<Rightarrow> pyval logged" where
  "clean_percentage is_main v =
     (if blank v then Inr (PyNone, [])
      else
        (case py_Decimal (percent_text (str_cell v)) of
           Some pct \<Rightarrow> Inr (PyDecimal (if dec_le_int pct 1 then dec_mul pct 100 else pct), [])
         | None \<Rightarrow>
             (case py_special (percent_text (str_cell v)) of
                Some (Infinity neg) \<Rightarrow> Inr (PyInfinity neg, [])
              | _ \<Rightarrow> parse_failure is_main (''Could not parse percentage value: '' @ str_cell v))))"

text \<open>A product that the default context of \<open>decimal\<close> holds without rounding: at most
  28 digits, and an exponent in the context's range.\<close>

definition exact_product :: "dec \<Rightarrow> int \<Rightarrow> bool" where
  "exact_product d n = (\<bar>coef d * n\<bar> < 10000000000000000000000000000 \<and> places d \<le> 999999)"

subsection \<open>Dates\<close>

text \<open>
  The calendar the parser runs on, for a type \<open>'d\<close> of datetimes:
  \<open>dateutil.parser.parse\<close> on a string; the date of an Excel serial number,
  \<open>datetime(1900, 1, 1) + timedelta(days=int(value) - 2)\<close>, for a number given by its
  text; and the two comparisons of the validation, \<open>d > datetime.now()\<close> and
  \<open>d < datetime(1990, 1, 1)\<close>. \<open>None\<close> is for a call that raises: a comparison does on
  a datetime with a time zone.
\<close>

record 'd calendar =
  parse_text :: "string \<Rightarrow> 'd option"
  excel_serial :: "string \<Rightarrow> 'd option"
  after_now :: "'d \<Rightarrow> bool option"
  before_1990 :: "'d \<Rightarrow> bool option"

text \<open>\<open>parse_date\<close>; both of its \<open>except:\<close> clauses catch everything, the \<open>NameError\<close>
  of \<open>timedelta\<close> in an imported module too. Its warning is not kept.\<close>

definition parse_date :: "bool \<Rightarrow> 'd calendar \<Rightarrow> cell \<Rightarrow> 'd option" where
  "parse_date is_main cal v =
     (if blank v then None
      else
        (case (case v of Number n \<Rightarrow> if is_main then excel_serial cal n else None | _ \<Rightarrow> None) of
           Some d \<Rightarrow> Some d
         | None \<Rightarrow> parse_text cal (str_cell v)))"

subsection \<open>Company names\<close>

definition LEGAL_SUFFIXES :: "string list" where
  "LEGAL_SUFFIXES = [''LLC'', ''Inc'', ''Corp'', ''Corporation'', ''Ltd'', ''Limited'', ''Co'', ''Company'']"

text \<open>\<open>\b(LLC|Inc|Corp|Corporation|Ltd|Limited|Co|Company)\b\<close>\<close>

definition suffix_pattern :: regex where
  "suffix_pattern = seqs [WordB, Grp 1 (alts (map lits LEGAL_SUFFIXES)), WordB]"

text \<open>\<open>[^\w\s]\<close>\<close>

definition punctuation_pattern :: regex where
  "punctuation_pattern = Cls True [CWord, CSpace]"

text \<open>\<open>_normalize_company_name\<close>: the suffixes go first (\<open>re.IGNORECASE\<close>), then the
  punctuation, then the whitespace is collapsed and the name is lower-cased.\<close>

definition normalize_company_name :: "string \<Rightarrow> string" where
  "normalize_company_name name =
     (if name = [] then []
      else
        (let name1 = sub True suffix_pattern [] name;
             name2 = sub False punctuation_pattern [] name1;
             name3 = join '' '' (split_ws [] name2)
         in strip (lower name3)))"

subsection \<open>Names without punctuation\<close>

text \<open>A word character or whitespace: what \<open>[^\w\s]\<close> leaves in a name.\<close>

definition plain :: "char \<Rightarrow> bool" where
  "plain c = (is_word c \<or> is_space c)"

text \<open>A word that is one of the legal suffixes, in any case.\<close>

definition legal_suffix :: "string \<Rightarrow> bool" where
  "legal_suffix t = (lower t \<in> set (map lower LEGAL_SUFFIXES))"

text \<open>What \<open>str.split\<close> returns: words that are not empty and hold no whitespace.\<close>

definition spaceless :: "string list \<Rightarrow> bool" where
  "spaceless ts = (\<forall>t \<in> set ts. t \<noteq> [] \<and> (\<forall>c \<in> set t. \<not> is_space c))"

text \<open>A letter of ASCII, as the patterns of the source are written in.\<close>

definition is_letter :: "char \<Rightarrow> bool" where
  "is_letter c = (is_upper c \<or> is_lower c)"

text \<open>The text starts with the word, in any case.\<close>

fun ci_prefix :: "string \<Rightarrow> string \<Rightarrow> bool" where
  "ci_prefix [] s = True"
| "ci_prefix (c # w) [] = False"
| "ci_prefix (c # w) (x # s) = ((x = c \<or> x = swap_case c) \<and> ci_prefix w s)"

text \<open>The state of the matcher after it has read \<open>n\<close> characters.\<close>

fun advance_by :: "nat \<Rightarrow> mstate \<Rightarrow> mstate" where
  "advance_by 0 st = st"
| "advance_by (Suc n) st = (case rest st of [] \<Rightarrow> st | x # xs \<Rightarrow> advance_by n (advance st x xs))"

text \<open>The generated identifier of a company that is not in the database:
  \<open>re.sub(r'[^\w\s-]', '', company_name.lower())\<close>, then
  \<open>re.sub(r'[-\s]+', '-', company_id).strip('-')\<close>.\<close>

definition strip_chr :: "char \<Rightarrow> string \<Rightarrow> string" where
  "strip_chr c s = rev (dropWhile (\<lambda>x. x = c) (rev (dropWhile (\<lambda>x. x = c) s)))"

definition slug :: "string \<Rightarrow> string" where
  "slug company_name =
     strip_chr CHR ''-''
       (sub False (Plus (Cls False [CChr CHR ''-'', CSpace])) ''-''
          (sub False (Cls True [CWord, CSpace, CChr CHR ''-'']) [] (lower company_name)))"

text \<open>
  \<open>company_lookup\<close>, the dictionary from normalized names to company ids, as the list
  of its items. The exact name first; then the first item whose name contains the
  normalized name or is contained in it. An empty id counts as none (\<open>if not company_id\<close>).
\<close>

definition fuzzy_match :: "(string \<times> string) list \<Rightarrow> string \<Rightarrow> string option" where
  "fuzzy_match company_lookup normalized_name =
     (case filter (\<lambda>(lookup_name, lookup_id).
                     contains normalized_name lookup_name \<or> contains lookup_name normalized_name)
                  company_lookup of
        [] \<Rightarrow> None
      | (lookup_name, lookup_id) # _ \<Rightarrow> Some lookup_id)"

definition find_company :: "(string \<times> string) list \<Rightarrow> string \<Rightarrow> string option" where
  "find_company company_lookup normalized_name =
     (let exact = (case map_of company_lookup normalized_name of
                     None \<Rightarrow> None
                   | Some i \<Rightarrow> if i = [] then None else Some i);
          company_id = (case exact of
                          Some i \<Rightarrow> Some i
                        | None \<Rightarrow> fuzzy_match company_lookup normalized_name)
      in case company_id of
           None \<Rightarrow> None
         | Some i \<Rightarrow> if i = [] then None else Some i)"

subsection \<open>Header and columns\<close>

definition COLUMN_MAPPINGS :: "(string \<times> string list) list" where
  "COLUMN_MAPPINGS =
     [(''company'',
       [''Name of Company'', ''Company Name'', ''Company'', ''Portfolio Company'',
        ''Legal Name'', ''Entity'', ''Investment Name'', ''Name'']),
      (''amount_invested'',
       [''Total Amount Invested'', ''Investment Amount'', ''Amount Invested'',
        ''Total Investment'', ''MCC Investment'', ''Amount'', ''Investment'',
        ''Total $ Invested'', ''Investment ($)'', ''Amount (USD)'']),
      (''date'',
       [''Earliest Date of Investment'', ''Investment Date'', ''Close Date'',
        ''First Investment Date'', ''Initial Investment'', ''Date'', ''Closing Date'',
        ''Transaction Date'', ''Earliest Date'']),
      (''ownership'',
       [''Equity %'', ''Ownership %'', ''Ownership Percentage'', ''Equity Percentage'',
        ''MCC Ownership'', ''% Ownership'', ''Equity'', ''Stake'', ''Ownership'']),
      (''round_type'',
       [''Round Type'', ''Investment Type'', ''Type'', ''Round'', ''Series'',
        ''Investment Round'', ''Stage'']),
      (''valuation'',
       [''Pre-Money Valuation'', ''Pre Money'', ''Valuation'', ''Pre-Money'',
        ''Company Valuation'', ''Val'']),
      (''status'',
       [''Status'', ''Company Status'', ''Current Status'', ''Investment Status'',
        ''Active/Inactive'', ''State'']),
      (''distributions'',
       [''Distributions'', ''Total Distributions'', ''Distribution Amount'',
        ''Distributions to Date'', ''Cash Distributed'', ''Returns''])]"

text \<open>A data frame without its labels: the rows of the file, each a list of cells.\<close>

type_synonym frame = "cell list list"

text \<open>\<open>' '.join(str(val) for val in row if pd.notna(val))\<close>\<close>

definition row_str :: "cell list \<Rightarrow> string" where
  "row_str row = join '' '' (map str_cell (filter (\<lambda>v. \<not> isna v) row))"

text \<open>The number of canonical fields with a name variation in the row, case-sensitively.\<close>

definition header_matches :: "cell list \<Rightarrow> nat" where
  "header_matches row =
     length (filter (\<lambda>(canonical_name, column_list). contains_any column_list (row_str row))
                    COLUMN_MAPPINGS)"

text \<open>\<open>find_header_row\<close>: the first of the rows 0 to 20 with three matches, else row 0.\<close>

fun find_header_from :: "nat \<Rightarrow> frame \<Rightarrow> nat" where
  "find_header_from idx [] = 0"
| "find_header_from idx (row # rows) =
     (if idx > 20 then 0
      else if header_matches row \<ge> 3 then idx
      else find_header_from (Suc idx) rows)"

definition find_header_row :: "frame \<Rightarrow> nat" where
  "find_header_row df = find_header_from 0 df"

text \<open>The canonical field of a column name: the first field, in the order of
  \<open>COLUMN_MAPPINGS\<close>, with a variation inside the name, case-insensitively.\<close>

definition canonical_of :: "string \<Rightarrow> string option" where
  "canonical_of col_clean =
     (case filter (\<lambda>(canonical_name, variations).
                     list_ex (\<lambda>variation. contains (lower variation) (lower col_clean)) variations)
                  COLUMN_MAPPINGS of
        [] \<Rightarrow> None
      | (canonical_name, variations) # _ \<Rightarrow> Some canonical_name)"

text \<open>\<open>mapping[col] = canonical_name\<close> on a dictionary kept as the list of its items.\<close>

fun assign :: "'k \<Rightarrow> 'v \<Rightarrow> ('k \<times> 'v) list \<Rightarrow> ('k \<times> 'v) list" where
  "assign k v [] = [(k, v)]"
| "assign k v ((k', v') # m) = (if k' = k then (k, v) # m else (k', v') # assign k v m)"

text \<open>\<open>map_columns\<close>: the labels that name a canonical field, in the order of the
  columns.\<close>

definition map_columns :: "cell list \<Rightarrow> (cell \<times> string) list" where
  "map_columns df_columns =
     foldl (\<lambda>mapping col.
              case canonical_of (strip (str_cell col)) of
                None \<Rightarrow> mapping
              | Some canonical_name \<Rightarrow> assign col canonical_name mapping)
           [] df_columns"

subsection \<open>Rows\<close>

text \<open>
  \<open>row[col]\<close>: the cells of the row under the label \<open>col\<close>. Under a label that two
  columns share it is a Series of several cells, and \<open>pd.isna\<close> of it has no truth value:
  \<open>ValueError\<close>. A row shorter than the header is missing its last cells.
\<close>

definition cells_at :: "cell list \<Rightarrow> cell list \<Rightarrow> cell \<Rightarrow> cell list" where
  "cells_at columns row col = map snd (filter (\<lambda>(label, v). label = col) (zip columns row))"

fun single :: "cell list \<Rightarrow> error + cell" where
  "single [] = Inr Null"
| "single [v] = Inr v"
| "single (v # w # vs) = Inl ValueError"

text \<open>\<open>row.get(next(iter(column_mapping.keys()), None))\<close>: the cell of the first mapped
  column; \<open>None\<close> when no column is mapped.\<close>

definition first_mapped :: "cell list \<Rightarrow> (cell \<times> string) list \<Rightarrow> cell list \<Rightarrow> error + cell" where
  "first_mapped columns column_mapping row =
     (case column_mapping of
        [] \<Rightarrow> Inr Null
      | (col, mapped) # _ \<Rightarrow> single (cells_at columns row col))"

text \<open>The company name of a row: the stripped text of the first column mapped to
  \<open>company\<close>, \<open>None\<close> when that cell is missing or no column is mapped to it.\<close>

definition company_name_of :: "cell list \<Rightarrow> (cell \<times> string) list \<Rightarrow> cell list \<Rightarrow> error + string option" where
  "company_name_of columns column_mapping row =
     (case filter (\<lambda>(col, mapped). mapped = ''company'') column_mapping of
        [] \<Rightarrow> Inr None
      | (col, mapped) # _ \<Rightarrow>
          (case single (cells_at columns row col) of
             Inl e \<Rightarrow> Inl e
           | Inr v \<Rightarrow> Inr (if isna v then None else Some (strip (str_cell v)))))"

text \<open>
  A record of the output. A key that the dictionary does not have reads as \<open>None\<close>
  through \<open>record.get\<close>, and is \<open>None\<close> here.
\<close>

record 'd csv_record =
  rec_company_id :: string
  rec_company_name :: string
  source_row :: nat
  amount_invested :: pyval
  distributions :: pyval
  ownership_pct :: pyval
  investment_date :: "'d option"
  round_type :: "string option"
  pre_money_valuation :: pyval
  status :: "string option"

definition new_record :: "string \<Rightarrow> string \<Rightarrow> nat \<Rightarrow> 'd csv_record" where
  "new_record cid name row_no =
     \<lparr>rec_company_id = cid, rec_company_name = name, source_row = row_no,
      amount_invested = PyNone, distributions = PyNone, ownership_pct = PyNone,
      investment_date = None, round_type = None, pre_money_valuation = PyNone,
      status = None\<rparr>"

text \<open>The value of a logged call, its warnings dropped.\<close>

definition returned :: "'a logged \<Rightarrow> error + 'a" where
  "returned r = (case r of Inl e \<Rightarrow> Inl e | Inr (v, warnings) \<Rightarrow> Inr v)"

text \<open>One round of \<open>for col, mapped in column_mapping.items()\<close>: the field that the
  column is mapped to is set from the cell. A column mapped to \<open>company\<close> is read and
  not looked at.\<close>

definition set_field :: "bool \<Rightarrow> 'd calendar \<Rightarrow> string \<Rightarrow> cell list \<Rightarrow> 'd csv_record \<Rightarrow> error + 'd csv_record" where
  "set_field is_main cal mapped cells r =
     (if mapped = ''company'' then Inr r
      else
        (case single cells of
           Inl e \<Rightarrow> Inl e
         | Inr v \<Rightarrow>
             if mapped = ''amount_invested'' then
               (case returned (clean_currency is_main v) of
                  Inl e \<Rightarrow> Inl e | Inr x \<Rightarrow> Inr (r\<lparr>amount_invested := x\<rparr>))
             else if mapped = ''distributions'' then
               (case returned (clean_currency is_main v) of
                  Inl e \<Rightarrow> Inl e | Inr x \<Rightarrow> Inr (r\<lparr>distributions := x\<rparr>))
             else if mapped = ''ownership'' then
               (case returned (clean_percentage is_main v) of
                  Inl e \<Rightarrow> Inl e | Inr x \<Rightarrow> Inr (r\<lparr>ownership_pct := x\<rparr>))
             else if mapped = ''date'' then Inr (r\<lparr>investment_date := parse_date is_main cal v\<rparr>)
             else if mapped = ''round_type'' then
               Inr (r\<lparr>round_type := (if isna v then None else Some (strip (str_cell v)))\<rparr>)
             else if mapped = ''valuation'' then
               (case returned (clean_currency is_main v) of
                  Inl e \<Rightarrow> Inl e | Inr x \<Rightarrow> Inr (r\<lparr>pre_money_valuation := x\<rparr>))
             else if mapped = ''status'' then
               Inr (r\<lparr>status := Some (if isna v then ''active'' else lower (strip (str_cell v)))\<rparr>)
             else Inr r))"

fun build_record :: "bool \<Rightarrow> 'd calendar \<Rightarrow> cell list \<Rightarrow> cell list \<Rightarrow> (cell \<times> string) list
                     \<Rightarrow> 'd csv_record \<Rightarrow> error + 'd csv_record" where
  "build_record is_main cal columns row [] r = Inr r"
| "build_record is_main cal columns row ((col, mapped) # column_mapping) r =
     (case set_field is_main cal mapped (cells_at columns row col) r of
        Inl e \<Rightarrow> Inl e
      | Inr r' \<Rightarrow> build_record is_main cal columns row column_mapping r')"

subsection \<open>Validation\<close>

text \<open>The truth value of a field: \<open>None\<close>, a zero and an empty string are false.\<close>

fun truthy :: "pyval \<Rightarrow> bool" where
  "truthy PyNone = False"
| "truthy (PyDecimal d) = (coef d \<noteq> 0)"
| "truthy (PyInfinity neg) = True"
| "truthy PyNaN = True"
| "truthy (PyStr s) = (s \<noteq> [])"

text \<open>\<open>a > b\<close> on decimals: \<open>InvalidOperation\<close> on a NaN, \<open>TypeError\<close> on what is not a
  decimal.\<close>

definition dec_less :: "dec \<Rightarrow> dec \<Rightarrow> bool" where
  "dec_less a b = (coef a * 10 ^ places b < coef b * 10 ^ places a)"

fun greater :: "pyval \<Rightarrow> pyval \<Rightarrow> error + bool" where
  "greater PyNaN b = Inl InvalidOperation"
| "greater (PyDecimal a) PyNaN = Inl InvalidOperation"
| "greater (PyInfinity n) PyNaN = Inl InvalidOperation"
| "greater (PyDecimal a) (PyDecimal b) = Inr (dec_less b a)"
| "greater (PyDecimal a) (PyInfinity n) = Inr n"
| "greater (PyInfinity n) (PyDecimal b) = Inr (\<not> n)"
| "greater (PyInfinity n) (PyInfinity m) = Inr (\<not> n \<and> m)"
| "greater a b = Inl TypeError"

text \<open>\<open>amount * 10\<close>\<close>

fun times :: "pyval \<Rightarrow> int \<Rightarrow> pyval" where
  "times (PyDecimal d) n = PyDecimal (dec_mul d n)"
| "times v n = v"

definition dec_of_int :: "int \<Rightarrow> pyval" where
  "dec_of_int n = PyDecimal \<lparr>coef = n, places = 0\<rparr>"

text \<open>An issue of the validation. The two about the ownership carry the value that
  their f-string prints; \<open>'; '.join(issues)\<close> is kept as the list.\<close>

datatype issue =
    Distributions_exceed_10x
  | Ownership_over_100 pyval
  | Negative_ownership pyval
  | Future_investment_date
  | Investment_date_before_1990

definition check_distributions :: "'d csv_record \<Rightarrow> error + issue list" where
  "check_distributions r =
     (if truthy (amount_invested r) \<and> truthy (distributions r) then
        (case greater (distributions r) (times (amount_invested r) 10) of
           Inl e \<Rightarrow> Inl e
         | Inr exceeds \<Rightarrow> Inr (if exceeds then [Distributions_exceed_10x] else []))
      else Inr [])"

definition check_ownership :: "'d csv_record \<Rightarrow> error + issue list" where
  "check_ownership r =
     (if truthy (ownership_pct r) then
        (case greater (ownership_pct r) (dec_of_int 100) of
           Inl e \<Rightarrow> Inl e
         | Inr over \<Rightarrow>
             if over then Inr [Ownership_over_100 (ownership_pct r)]
             else (case greater (dec_of_int 0) (ownership_pct r) of
                     Inl e \<Rightarrow> Inl e
                   | Inr negative \<Rightarrow> Inr (if negative then [Negative_ownership (ownership_pct r)] else [])))
      else Inr [])"

definition check_date :: "'d calendar \<Rightarrow> 'd csv_record \<Rightarrow> error + issue list" where
  "check_date cal r =
     (case investment_date r of
        None \<Rightarrow> Inr []
      | Some d \<Rightarrow>
          (case after_now cal d of
             None \<Rightarrow> Inl TypeError
           | Some future \<Rightarrow>
               if future then Inr [Future_investment_date]
               else (case before_1990 cal d of
                       None \<Rightarrow> Inl TypeError
                     | Some early \<Rightarrow> Inr (if early then [Investment_date_before_1990] else []))))"

definition validate :: "'d calendar \<Rightarrow> 'd csv_record \<Rightarrow> error + issue list" where
  "validate cal r =
     (case check_distributions r of
        Inl e \<Rightarrow> Inl e
      | Inr i1 \<Rightarrow>
          (case check_ownership r of
             Inl e \<Rightarrow> Inl e
           | Inr i2 \<Rightarrow>
               (case check_date cal r of
                  Inl e \<Rightarrow> Inl e
                | Inr i3 \<Rightarrow> Inr (i1 @ i2 @ i3))))"

subsection \<open>\<open>parse_file\<close>\<close>

text \<open>An entry of the reconciliation log: a company that is not in the database, with
  the suggested id; the issues of a record; the exception of a row, with its cells.\<close>

datatype 'd log_entry =
    Not_found nat string string
  | Issues nat string "issue list" "'d csv_record"
  | Row_error nat error "cell list"

text \<open>What becomes of a row in the loop: skipped by the first \<open>continue\<close> (the cell of
  the first mapped column is missing), skipped by the second (no company name),
  appended to the output, or given up in the \<open>except\<close> clause.\<close>

datatype 'd outcome = Skipped_blank | Skipped_unnamed | Appended "'d csv_record" | Raised error

definition process_row :: "bool \<Rightarrow> 'd calendar \<Rightarrow> (string \<times> string) list \<Rightarrow> nat \<Rightarrow> cell list
                           \<Rightarrow> (cell \<times> string) list \<Rightarrow> nat \<times> cell list \<Rightarrow> 'd log_entry list \<times> 'd outcome" where
  "process_row is_main cal company_lookup header_row columns column_mapping indexed =
     (let (idx, row) = indexed;
          row_no = idx + header_row + 2
      in case first_mapped columns column_mapping row of
           Inl e \<Rightarrow> ([Row_error row_no e row], Raised e)
         | Inr v \<Rightarrow>
             if isna v then ([], Skipped_blank)
             else
               (case company_name_of columns column_mapping row of
                  Inl e \<Rightarrow> ([Row_error row_no e row], Raised e)
                | Inr None \<Rightarrow> ([], Skipped_unnamed)
                | Inr (Some company_name) \<Rightarrow>
                    if company_name = [] then ([], Skipped_unnamed)
                    else
                      (let known = find_company company_lookup (normalize_company_name company_name);
                           company_id = (case known of Some i \<Rightarrow> i | None \<Rightarrow> slug company_name);
                           log1 = (case known of
                                     Some i \<Rightarrow> []
                                   | None \<Rightarrow> [Not_found row_no company_name company_id])
                       in case build_record is_main cal columns row column_mapping
                                 (new_record company_id company_name row_no) of
                            Inl e \<Rightarrow> (log1 @ [Row_error row_no e row], Raised e)
                          | Inr r \<Rightarrow>
                              (case validate cal r of
                                 Inl e \<Rightarrow> (log1 @ [Row_error row_no e row], Raised e)
                               | Inr issues \<Rightarrow>
                                   (log1 @ (if issues = [] then [] else [Issues row_no company_name issues r]),
                                    Appended r)))))"

text \<open>\<open>df.iloc[:, 0].astype(str).str.contains('Total|Summary|Grand', case=False, na=False)\<close>
  on one row.\<close>

definition aggregate_pattern :: regex where
  "aggregate_pattern = alts [lits ''Total'', lits ''Summary'', lits ''Grand'']"

definition is_aggregate :: "cell list \<Rightarrow> bool" where
  "is_aggregate row =
     (case row of
        [] \<Rightarrow> False
      | v # _ \<Rightarrow> search True aggregate_pattern (str_cell v) \<noteq> None)"

text \<open>The rows below the header, numbered from 0 (\<open>reset_index\<close>), and those of them
  that the filter keeps, with their numbers.\<close>

definition data_rows :: "frame \<Rightarrow> (nat \<times> cell list) list" where
  "data_rows df = List.enumerate 0 (drop (find_header_row df + 1) df)"

definition kept_rows :: "frame \<Rightarrow> (nat \<times> cell list) list" where
  "kept_rows df = filter (\<lambda>(idx, row). \<not> is_aggregate row) (data_rows df)"

fun appended :: "'d outcome list \<Rightarrow> 'd csv_record list" where
  "appended [] = []"
| "appended (Appended r # os) = r # appended os"
| "appended (other # os) = appended os"

text \<open>
  \<open>parse_file\<close> on the frame that \<open>read_csv\<close> or \<open>read_excel\<close> gave, with the
  reconciliation log of the parser before the call: the records and the log after it.
  \<open>df.iloc[header_row]\<close> raises \<open>IndexError\<close> on a frame without rows.
\<close>

definition parse_file :: "bool \<Rightarrow> 'd calendar \<Rightarrow> (string \<times> string) list \<Rightarrow> 'd log_entry list \<Rightarrow> frame
                          \<Rightarrow> error + ('d csv_record list \<times> 'd log_entry list)" where
  "parse_file is_main cal company_lookup reconciliation_log df =
     (if df = [] then Inl IndexError
      else
        (let header_row = find_header_row df;
             columns = df ! header_row;
             column_mapping = map_columns columns;
             results = map (process_row is_main cal company_lookup header_row columns column_mapping)
                           (kept_rows df)
         in Inr (appended (map snd results), reconciliation_log @ concat (map fst results))))"

text \<open>The rows that the loop skips or gives up, as the loop decides it.\<close>

definition first_missing :: "frame \<Rightarrow> cell list \<Rightarrow> bool" where
  "first_missing df row =
     (case first_mapped (df ! find_header_row df) (map_columns (df ! find_header_row df)) row of
        Inl e \<Rightarrow> False
      | Inr v \<Rightarrow> isna v)"

definition first_present :: "frame \<Rightarrow> cell list \<Rightarrow> bool" where
  "first_present df row =
     (case first_mapped (df ! find_header_row df) (map_columns (df ! find_header_row df)) row of
        Inl e \<Rightarrow> False
      | Inr v \<Rightarrow> \<not> isna v)"

definition unnamed :: "frame \<Rightarrow> cell list \<Rightarrow> bool" where
  "unnamed df row =
     (case company_name_of (df ! find_header_row df) (map_columns (df ! find_header_row df)) row of
        Inl e \<Rightarrow> False
      | Inr None \<Rightarrow> True
      | Inr (Some company_name) \<Rightarrow> company_name = [])"

definition aggregate_rows :: "frame \<Rightarrow> (nat \<times> cell list) list" where
  "aggregate_rows df = filter (\<lambda>(idx, row). is_aggregate row) (data_rows df)"

definition blank_rows :: "frame \<Rightarrow> (nat \<times> cell list) list" where
  "blank_rows df = filter (\<lambda>(idx, row). first_missing df row) (kept_rows df)"

definition unnamed_rows :: "frame \<Rightarrow> (nat \<times> cell list) list" where
  "unnamed_rows df = filter (\<lambda>(idx, row). first_present df row \<and> unnamed df row) (kept_rows df)"

fun row_errors :: "'d log_entry list \<Rightarrow> nat" where
  "row_errors [] = 0"
| "row_errors (Row_error n e row # entries) = Suc (row_errors entries)"
| "row_errors (other # entries) = row_errors entries"

section \<open>Two messages\<close>

text \<open>
  Two messages in the words of \<open>TestData.SAMPLE_EMAILS\<close> of \<open>test-suite.py\<close>: the
  subject and the two sentences of the investment confirmation that carry the amount and
  the ownership, and the subject and the three metric lines of the company update.
\<close>

definition investment_message :: email where
  "investment_message =
     \<lparr>subject = ''Chapul Series A Closing - MCC Investment Confirmation'',
      body = ''Confirming MCC'' @ [CHR 0x27] @ ''s $750,000 investment in our Series A round.\<newline>'' @
             ''- MCC ownership: 3.75% on a fully diluted basis\<newline>'',
      from_address = ''pat@chapul.com'',
      message_id = ''AAMkAGI2TG95CCC='',
      receivedDateTime = ''2025-01-20T09:15:00Z''\<rparr>"

definition update_message :: email where
  "update_message =
     \<lparr>subject = ''[UPDATE] BrightWheel - January 2025 Update'',
      body = ''- ARR: $15.5M\<newline>'' @
             ''- Runway: 18 months\<newline>'' @
             ''- Headcount: 52\<newline>'',
      from_address = ''dave@brightwheel.com'',
      message_id = ''AAMkAGI2TG93AAA='',
      receivedDateTime = ''2025-01-31T10:30:00Z''\<rparr>"

text \<open>
  A platform to run the model on: a datetime is kept as the text it was parsed from, the
  clock reads \<open>2025-02-01T00:00:00\<close>, and only the empty string fails to parse. It
  stands in for \<open>dateutil\<close> and \<open>datetime\<close> where a property does not depend on them.
\<close>

definition stub_platform :: "string platform" where
  "stub_platform =
     \<lparr>parse = (\<lambda>s. if s = [] then None else Some s),
      now = ''2025-02-01T00:00:00'',
      minus_days = (\<lambda>d n. d),
      isoformat = (\<lambda>d. d),
      strftime_ym = (\<lambda>d. take 7 d),
      rounded_float = (\<lambda>s k. s)\<rparr>"

text \<open>An envelope as \<open>main\<close> hands it to \<open>persist_extraction\<close>: one ownership, one
  cashflow and one update of the company \<open>brightwheel\<close>.\<close>

definition brightwheel_envelope :: envelope where
  "brightwheel_envelope =
     (initial_result ''AAMkAGI2TG93AAA='')
       \<lparr>company_id := Some ''brightwheel'',
        facts := [(''company'', FDict []), (''rounds'', FList []),
                  (''ownerships'', FList [Ownership ''2025-01-31T00:00:00'' \<lparr>coef = 52, places = 1\<rparr>
                                            (round64 (85 / 100))]),
                  (''cashflows'', FList [Cashflow ''2025-01-31T00:00:00'' ''Investment''
                                           \<lparr>coef = 2500000, places = 0\<rparr> (round64 (95 / 100))]),
                  (''updates'', FList [Update ''2025-01-01T10:30:00'' ''2025-01-31T10:30:00'' ''2025-01''
                                         [(''ARR'', ''15500000.0'')] ''ARR: $15.5M'' (round64 (8 / 10))]),
                  (''contacts'', FList []), (''documents'', FList [])],
        confidence_overall := 7806239354108859 / 9007199254740992\<rparr>"

text \<open>The keys of the \<open>facts\<close> dictionary of an envelope.\<close>

definition fact_keys :: "envelope \<Rightarrow> string list" where
  "fact_keys r = map fst (facts r)"

text \<open>The confidences that the extractors assign to a fact: 0.7 for a Notebook LM
  summary, 0.8 for an update, 0.85 for an ownership, and 0.85, 0.9 or 0.95 for an
  amount.\<close>

definition assigned :: "rat \<Rightarrow> bool" where
  "assigned c = (c \<in> set (map round64 [7 / 10, 8 / 10, 85 / 100, 9 / 10, 95 / 100]))"

text \<open>The envelopes of the two messages on \<open>stub_platform\<close>.\<close>

definition investment_envelope :: envelope where
  "investment_envelope = (initial_result ''AAMkAGI2TG95CCC='')\<lparr>confidence_overall := 1 / 2\<rparr>"

definition update_envelope :: envelope where
  "update_envelope =
     (initial_result ''AAMkAGI2TG93AAA='')
       \<lparr>facts := [(''company'', FDict []), (''rounds'', FList []), (''ownerships'', FList []),
                  (''cashflows'', FList []),
                  (''updates'', FList [Update ''2025-01-31T10:30:00Z'' ''2025-01-31T10:30:00Z'' ''2025-01''
                       [(''ARR'', ''15500000.0''), (''runway_months'', ''18''), (''headcount'', ''52'')]
                       (full_text_of update_message) (round64 (8 / 10))]),
                  (''contacts'', FList []), (''documents'', FList [])],
        confidence_overall := round64 (8 / 10)\<rparr>"

text \<open>A message with an amount and an ownership, and its envelope on \<open>stub_platform\<close>:
  the two confidences are 0.85 and 0.95, and their mean in binary64 is
  0.8999999999999999.\<close>

definition owner_message :: email where
  "owner_message =
     \<lparr>subject = ''Chapul Series A'',
      body = ''We invested $750,000 in Chapul. MCC owns 3.75% of the company.'',
      from_address = ''pat@chapul.com'',
      message_id = ''AAMkAGI2TG95CCC='',
      receivedDateTime = ''2025-01-20T09:15:00Z''\<rparr>"

definition owner_envelope :: envelope where
  "owner_envelope =
     (initial_result ''AAMkAGI2TG95CCC='')
       \<lparr>facts := [(''company'', FDict []), (''rounds'', FList []),
                  (''ownerships'', FList [Ownership ''2025-02-01T00:00:00'' \<lparr>coef = 375, places = 2\<rparr>
                                            (round64 (85 / 100))]),
                  (''cashflows'', FList [Cashflow ''2025-02-01T00:00:00'' ''Investment''
                                           \<lparr>coef = 750000, places = 0\<rparr> (round64 (95 / 100))]),
                  (''updates'', FList []), (''contacts'', FList []), (''documents'', FList [])],
        confidence_overall := 2026619832316723 / 2251799813685248\<rparr>"

section \<open>A sheet\<close>

text \<open>
  A calendar to run the parser on: a datetime is kept as the text it was parsed from or
  the text of its serial number, and no date is in the future or before 1990.
\<close>

definition stub_calendar :: "string calendar" where
  "stub_calendar =
     \<lparr>parse_text = (\<lambda>s. if s = [] then None else Some s),
      excel_serial = (\<lambda>n. Some n),
      after_now = (\<lambda>d. Some False),
      before_1990 = (\<lambda>d. Some False)\<rparr>"

text \<open>
  A sheet in the words of \<open>TestData.SAMPLE_CSV\<close> of \<open>test-suite.py\<close>: a header, a row
  that parses, a row with an amount that does not, a row without its first cell, a row
  with a company name of two spaces, and a row of totals. \<open>test-suite.py\<close> imports the
  module, so its parser is the one with \<open>is_main\<close> false.
\<close>

definition portfolio_sheet :: frame where
  "portfolio_sheet =
     [[Text ''Name of Company'', Text ''Total Amount Invested'', Text ''Status''],
      [Text ''BrightWheel'', Text ''$2,500,000'', Text ''Active''],
      [Text ''Dude Wipes'', Text ''TBD'', Text ''Active''],
      [Null, Text ''$5'', Null],
      [Text ''  '', Text ''$1,000,000'', Text ''Active''],
      [Text ''Total'', Text ''$3,500,005'', Null]]"

definition portfolio_records :: "string csv_record list" where
  "portfolio_records =
     [(new_record ''brightwheel'' ''BrightWheel'' 2)
        \<lparr>amount_invested := PyDecimal \<lparr>coef = 2500000, places = 0\<rparr>, status := Some ''active''\<rparr>]"

definition portfolio_log :: "string log_entry list" where
  "portfolio_log =
     [Not_found 2 ''BrightWheel'' ''brightwheel'',
      Not_found 3 ''Dude Wipes'' ''dude-wipes'',
      Row_error 3 NameError [Text ''Dude Wipes'', Text ''TBD'', Text ''Active'']]"

text \<open>A sheet whose only row has an amount and a status, and no company name.\<close>

definition unnamed_sheet :: frame where
  "unnamed_sheet =
     [[Text ''Total Amount Invested'', Text ''Name of Company'', Text ''Status''],
      [Text ''$1,000,000'', Null, Text ''Active'']]"

text \<open>Modelled from the spec: a blank row, one without a cell that holds something.\<close>

definition blank_row :: "cell list \<Rightarrow> bool" where
  "blank_row row = list_all blank row"

section \<open>Properties\<close>

subsection \<open>Amounts\<close>

text \<open>
  Claim C1 says that the first amount \<open>extract_amounts\<close> returns is the literal value with
  the magnitude suffix applied: 450000 for \<open>$450k\<close>, 15000000 for \<open>15 million dollars\<close>
  and 1200000000 for \<open>$1.2B\<close>, as the repository's \<open>test_amount_extraction\<close> asserts.
  On the test's own sentences the code returns something else. In \<open>$450k\<close> and \<open>$1.2B\<close>
  the first pattern matches \<open>$450\<close> and \<open>$1\<close>; the match does not end in a suffix
  letter, so the first amounts are 450 and 1, and the suffixed amount only comes second,
  from the third pattern. \<open>15 million dollars\<close> matches no pattern at all: the result is
  empty.
\<close>

theorem extract_amounts_first_amount_ignores_suffix:
  "extract_amounts ''Burn rate: $450k monthly''
     = Inr [(\<lparr>coef = 450, places = 0\<rparr>, 90), (\<lparr>coef = 450000, places = 0\<rparr>, 90)]
   \<and> extract_amounts ''$1.2B market cap''
     = Inr [(\<lparr>coef = 1, places = 0\<rparr>, 90), (\<lparr>coef = 12000000000, places = 1\<rparr>, 90)]
   \<and> extract_amounts ''valuation of 15 million dollars'' = Inr []"
proof -
  have a: "extract_amounts ''Burn rate: $450k monthly''
     = Inr [(\<lparr>coef = 450, places = 0\<rparr>, 90), (\<lparr>coef = 450000, places = 0\<rparr>, 90)]"
    by code_simp
  have b: "extract_amounts ''$1.2B market cap''
     = Inr [(\<lparr>coef = 1, places = 0\<rparr>, 90), (\<lparr>coef = 12000000000, places = 1\<rparr>, 90)]"
    by code_simp
  have c: "extract_amounts ''valuation of 15 million dollars'' = Inr []"
    by code_simp
  from a b c show ?thesis by blast
qed

subsection \<open>The two messages, evaluated\<close>

lemma eval_investment:
  "extract_from_email pf investment_message = Inr investment_envelope"
  by code_simp

lemma classify_update: "classify_email (subject update_message) (body update_message) = ''UPDATE''"
  by code_simp

lemma metrics_update:
  "extract_metrics pf (full_text_of update_message) =
     Inr [(''ARR'', ''15500000.0''), (''runway_months'', ''18''), (''headcount'', ''52'')]"
  by code_simp

lemma period_update: "extract_dates pf (full_text_of update_message) ''period'' = None"
  by code_simp

lemma quarter_update: "search False quarter_pattern (full_text_of update_message) = None"
  by code_simp

lemma amounts_update:
  "extract_amounts (full_text_of update_message) =
     Inr [(\<lparr>coef = 15, places = 0\<rparr>, 90), (\<lparr>coef = 155000000, places = 1\<rparr>, 90)]"
  by code_simp

lemma ownership_update: "extract_ownership (full_text_of update_message) = Inr None"
  by code_simp

lemma invested_update: "contains ''invested'' (lower (full_text_of update_message)) = False"
  by code_simp

lemma summary_update: "take 500 (full_text_of update_message) = full_text_of update_message"
  by code_simp

lemma received_update: "receivedDateTime update_message = ''2025-01-31T10:30:00Z''"
  by (simp add: update_message_def)

lemma id_update: "message_id update_message = ''AAMkAGI2TG93AAA=''"
  by (simp add: update_message_def)

lemma overall_update: "overall [round64 (4 / 5)] = round64 (4 / 5)"
  by code_simp

lemma eval_owner_stub: "extract_from_email stub_platform owner_message = Inr owner_envelope"
  by code_simp

text \<open>The update message on any platform: the received date decides between the
  exception and the envelope.\<close>

lemma eval_update:
  "extract_from_email pf update_message =
     (case parse pf ''2025-01-31T10:30:00Z'' of
        None \<Rightarrow> Inl ParserError
      | Some received \<Rightarrow>
          Inr ((initial_result ''AAMkAGI2TG93AAA='')
                 \<lparr>facts := [(''company'', FDict []), (''rounds'', FList []), (''ownerships'', FList []),
                            (''cashflows'', FList []),
                            (''updates'', FList [Update (isoformat pf (minus_days pf received 30))
                                 (isoformat pf received) (strftime_ym pf received)
                                 [(''ARR'', ''15500000.0''), (''runway_months'', ''18''), (''headcount'', ''52'')]
                                 (full_text_of update_message) (round64 (8 / 10))]),
                            (''contacts'', FList []), (''documents'', FList [])],
                   confidence_overall := round64 (8 / 10)\<rparr>))"
proof (cases "parse pf ''2025-01-31T10:30:00Z''")
  case None
  then show ?thesis
    by (simp add: extract_from_email_def Let_def received_update id_update classify_update
        extract_by_type_def extract_update_def metrics_update)
next
  case (Some received)
  then show ?thesis
    by (simp add: extract_from_email_def Let_def received_update id_update classify_update
        extract_by_type_def extract_update_def
        metrics_update period_update quarter_update amounts_update ownership_update invested_update
        summary_update report_period_of_def add_ownership_def add_fact_def initial_result_def
        overall_update all_confidences_def List.map_filter_simps)
qed

lemma eval_update_stub: "extract_from_email stub_platform update_message = Inr update_envelope"
  by (simp add: eval_update stub_platform_def update_envelope_def)

text \<open>
  Claim C3 says that a message with \<open>$750,000 investment\<close> and \<open>3.75% on a fully diluted
  basis\<close> yields exactly one Investment cashflow of 750000 and exactly one ownership of
  3.75, as the repository's \<open>test_extract_investment_email\<close> asserts. The message holds
  both phrases, and the code extracts neither fact, on any platform: a cashflow is only
  recorded when the text contains the word \<open>invested\<close>, which \<open>investment\<close> does not, and
  none of the three ownership patterns matches a percentage that is followed by
  \<open>on a fully diluted basis\<close>.
\<close>

theorem investment_message_yields_no_cashflow_and_no_ownership:
  "contains ''$750,000 investment'' (full_text_of investment_message)
   \<and> contains ''3.75% on a fully diluted basis'' (full_text_of investment_message)
   \<and> extract_from_email pf investment_message = Inr investment_envelope
   \<and> facts_list (facts investment_envelope) ''cashflows'' = []
   \<and> facts_list (facts investment_envelope) ''ownerships'' = []"
proof -
  have a: "contains ''$750,000 investment'' (full_text_of investment_message)"
    by code_simp
  have b: "contains ''3.75% on a fully diluted basis'' (full_text_of investment_message)"
    by code_simp
  have c: "facts_list (facts investment_envelope) ''cashflows'' = []"
    by (simp add: investment_envelope_def initial_result_def facts_list_def)
  have d: "facts_list (facts investment_envelope) ''ownerships'' = []"
    by (simp add: investment_envelope_def initial_result_def facts_list_def)
  from a b c d eval_investment [of pf] show ?thesis by blast
qed

text \<open>
  Claim C4 says that an UPDATE message with \<open>ARR: $15.5M\<close>, \<open>Runway: 18 months\<close> and
  \<open>Headcount: 52\<close> yields one update whose metrics map ARR to the string \<open>15500000\<close>, as
  the repository's \<open>test_extract_update_email\<close> asserts. The message is classified as
  UPDATE and holds the three lines; the one update that the code extracts maps ARR to
  \<open>15500000.0\<close>, the text of the float \<open>15.5 * 1000000\<close>. The runway and the headcount
  are as the claim says.
\<close>

theorem update_message_maps_ARR_to_float_text:
  "classify_email (subject update_message) (body update_message) = ''UPDATE''
   \<and> contains ''ARR: $15.5M'' (body update_message)
   \<and> contains ''Runway: 18 months'' (body update_message)
   \<and> contains ''Headcount: 52'' (body update_message)
   \<and> extract_from_email stub_platform update_message = Inr update_envelope
   \<and> map up_metrics (facts_list (facts update_envelope) ''updates'')
       = [[(''ARR'', ''15500000.0''), (''runway_months'', ''18''), (''headcount'', ''52'')]]
   \<and> extract_metrics pf (full_text_of update_message)
       = Inr [(''ARR'', ''15500000.0''), (''runway_months'', ''18''), (''headcount'', ''52'')]"
proof -
  have a: "contains ''ARR: $15.5M'' (body update_message)" by code_simp
  have b: "contains ''Runway: 18 months'' (body update_message)" by code_simp
  have c: "contains ''Headcount: 52'' (body update_message)" by code_simp
  have d: "map up_metrics (facts_list (facts update_envelope) ''updates'')
       = [[(''ARR'', ''15500000.0''), (''runway_months'', ''18''), (''headcount'', ''52'')]]"
    by (simp add: update_envelope_def facts_list_def)
  from a b c d classify_update eval_update_stub metrics_update [of pf] show ?thesis by blast
qed

subsection \<open>Persisting an envelope twice\<close>

text \<open>
  Claim C2 says that persisting the same envelope a second time leaves the stored facts as
  the first call left them and counts no fact kind again. The statement for a cashflow
  stops on a conflict and the one for an ownership updates the row in place, but the
  statement for an update is a plain \<open>INSERT\<close>: the second call stores the update a second
  time and counts it again. It counts the ownership again too, since the upsert returns
  the row it updated; only the cashflow is not counted twice.
\<close>

theorem persisting_twice_duplicates_the_update:
  "length (update_tbl (fst (persist_extraction brightwheel_envelope empty_store))) = 1
   \<and> length (update_tbl (fst (persist_extraction brightwheel_envelope
                (fst (persist_extraction brightwheel_envelope empty_store))))) = 2
   \<and> stored_facts (fst (persist_extraction brightwheel_envelope
                (fst (persist_extraction brightwheel_envelope empty_store))))
       \<noteq> stored_facts (fst (persist_extraction brightwheel_envelope empty_store))
   \<and> created (snd (persist_extraction brightwheel_envelope
                (fst (persist_extraction brightwheel_envelope empty_store)))) ''updates'' = Some 1
   \<and> created (snd (persist_extraction brightwheel_envelope
                (fst (persist_extraction brightwheel_envelope empty_store)))) ''ownerships'' = Some 1
   \<and> created (snd (persist_extraction brightwheel_envelope
                (fst (persist_extraction brightwheel_envelope empty_store)))) ''cashflows'' = Some 0"
proof -
  let ?db1 = "fst (persist_extraction brightwheel_envelope empty_store)"
  let ?second = "persist_extraction brightwheel_envelope ?db1"
  have a: "length (update_tbl ?db1) = 1" by code_simp
  have b: "length (update_tbl (fst ?second)) = 2" by code_simp
  have c: "created (snd ?second) ''updates'' = Some 1" by code_simp
  have d: "created (snd ?second) ''ownerships'' = Some 1" by code_simp
  have e: "created (snd ?second) ''cashflows'' = Some 0" by code_simp
  have f: "stored_facts (fst ?second) \<noteq> stored_facts ?db1"
  proof
    assume "stored_facts (fst ?second) = stored_facts ?db1"
    then have "update_tbl (fst ?second) = update_tbl ?db1" by (simp add: stored_facts_def)
    with a b show False by simp
  qed
  from a b c d e f show ?thesis by blast
qed

subsection \<open>What every envelope holds\<close>

lemma keys_facts_append: "map fst (facts_append k x fs) = map fst fs"
  by (induction fs) auto

lemma keys_facts_set: "set (map fst (facts_set k v fs)) = insert k (set (map fst fs))"
proof (induction fs)
  case Nil
  show ?case by simp
next
  case (Cons kv fs)
  obtain a b where kv: "kv = (a, b)" by (cases kv)
  show ?case
  proof (cases "a = k")
    case True
    then show ?thesis using kv by simp
  next
    case False
    then show ?thesis using kv Cons.IH by (simp add: insert_commute)
  qed
qed

lemma fact_keys_add_fact: "fact_keys (add_fact k x r) = fact_keys r"
  by (simp add: fact_keys_def add_fact_def keys_facts_append)

lemma assumptions_add_fact: "assumptions (add_fact k x r) = assumptions r"
  by (simp add: add_fact_def)

lemma add_cashflows_frame:
  "fact_keys (add_cashflows pf t ds amounts r) = fact_keys r
   \<and> assumptions (add_cashflows pf t ds amounts r) = assumptions r"
  by (induction amounts arbitrary: r) (auto simp: fact_keys_add_fact assumptions_add_fact)

lemma add_ownership_frame:
  "fact_keys (add_ownership pf ds ow r) = fact_keys r
   \<and> assumptions (add_ownership pf ds ow r) = assumptions r"
  by (auto simp: add_ownership_def fact_keys_add_fact assumptions_add_fact split: option.splits)

lemma extract_update_frame:
  assumes "extract_update pf t r rd = Inr r'"
  shows "fact_keys r' = fact_keys r \<and> assumptions r' = assumptions r"
  using assms
  by (auto simp: extract_update_def Let_def fact_keys_add_fact assumptions_add_fact
      split: sum.splits option.splits)

lemma extract_notebook_lm_frame:
  assumes "extract_notebook_lm pf t r = Inr r'"
  shows "set (fact_keys r) \<subseteq> set (fact_keys r') \<and> assumptions r' = assumptions r"
proof -
  from assms obtain v where "r' = r\<lparr>facts := facts_set ''comm'' v (facts r)\<rparr>"
    by (auto simp: extract_notebook_lm_def split: sum.splits)
  then have "fact_keys r' = map fst (facts_set ''comm'' v (facts r))" "assumptions r' = assumptions r"
    by (simp_all add: fact_keys_def)
  then show ?thesis
    using keys_facts_set [of "''comm''" v "facts r"] by (auto simp: fact_keys_def)
qed

lemma extract_cap_table_frame:
  assumes "extract_cap_table pf t r = Inr r'"
  shows "fact_keys r' = fact_keys r \<and> assumptions r' = assumptions r"
  using assms
  by (auto simp: extract_cap_table_def fact_keys_add_fact assumptions_add_fact
      split: sum.splits option.splits)

lemma by_type_cases:
  assumes "extract_by_type pf ty t rd r = Inr r'"
  shows "extract_update pf t r rd = Inr r' \<or> extract_notebook_lm pf t r = Inr r'
         \<or> extract_cap_table pf t r = Inr r' \<or> r = r'"
proof (cases "ty = ''UPDATE''")
  case True
  with assms show ?thesis by (simp add: extract_by_type_def)
next
  case u: False
  show ?thesis
  proof (cases "ty = ''FINANCIALS''")
    case True
    with assms u show ?thesis by (simp add: extract_by_type_def extract_financials_def)
  next
    case f: False
    show ?thesis
    proof (cases "ty = ''BOARD''")
      case True
      with assms u f show ?thesis by (simp add: extract_by_type_def extract_board_materials_def)
    next
      case b: False
      show ?thesis
      proof (cases "ty = ''NOTEBOOKLM''")
        case True
        with assms u f b show ?thesis by (simp add: extract_by_type_def)
      next
        case n: False
        show ?thesis
        proof (cases "ty = ''CAPTABLE''")
          case True
          with assms u f b n show ?thesis by (simp add: extract_by_type_def)
        next
          case False
          with assms u f b n show ?thesis by (simp add: extract_by_type_def)
        qed
      qed
    qed
  qed
qed

lemma extract_by_type_frame:
  assumes "extract_by_type pf ty t rd r = Inr r'"
  shows "set (fact_keys r) \<subseteq> set (fact_keys r') \<and> assumptions r' = assumptions r"
proof -
  from by_type_cases [OF assms]
  consider (u) "extract_update pf t r rd = Inr r'"
    | (n) "extract_notebook_lm pf t r = Inr r'"
    | (c) "extract_cap_table pf t r = Inr r'"
    | (same) "r = r'"
    by blast
  then show ?thesis
  proof cases
    case u
    from extract_update_frame [OF u] show ?thesis by simp
  next
    case n
    from extract_notebook_lm_frame [OF n] show ?thesis .
  next
    case c
    from extract_cap_table_frame [OF c] show ?thesis by simp
  next
    case same
    then show ?thesis by simp
  qed
qed

lemma extract_from_email_frame:
  assumes "extract_from_email pf m = Inr r"
  shows "set (fact_keys (initial_result (message_id m))) \<subseteq> set (fact_keys r)
         \<and> assumptions r = assumptions (initial_result (message_id m))"
proof -
  from assms obtain r1 amounts ow where
    r1: "extract_by_type pf (classify_email (subject m) (body m)) (full_text_of m) (receivedDateTime m)
           (initial_result (message_id m)) = Inr r1"
    and r: "r = (add_ownership pf (extract_dates pf (full_text_of m)) ow
                  (add_cashflows pf (full_text_of m) (extract_dates pf (full_text_of m)) amounts r1))
                \<lparr>confidence_overall := overall (all_confidences (facts
                   (add_ownership pf (extract_dates pf (full_text_of m)) ow
                  (add_cashflows pf (full_text_of m) (extract_dates pf (full_text_of m)) amounts r1))))\<rparr>"
    by (auto simp: extract_from_email_def Let_def split: sum.splits)
  have "fact_keys r = fact_keys r1" "assumptions r = assumptions r1"
    using r by (simp_all add: fact_keys_def add_ownership_frame [unfolded fact_keys_def]
        add_cashflows_frame [unfolded fact_keys_def])
  with extract_by_type_frame [OF r1] show ?thesis by simp
qed



text \<open>
  Claim C10: whatever the message, the envelope that \<open>extract_from_email\<close> returns lists
  the assumption \<open>currency defaulted to USD\<close>, and its \<open>facts\<close> dictionary has the keys
  company, rounds, ownerships, cashflows, updates, contacts and documents.
\<close>

theorem envelope_has_usd_assumption_and_fact_keys:
  assumes "extract_from_email pf m = Inr r"
  shows "''currency defaulted to USD'' \<in> set (assumptions r)
         \<and> set [''company'', ''rounds'', ''ownerships'', ''cashflows'', ''updates'', ''contacts'',
                ''documents''] \<subseteq> set (fact_keys r)"
  using extract_from_email_frame [OF assms]
  by (simp add: initial_result_def fact_keys_def)

theorem envelope_has_usd_assumption_and_fact_keys_witness:
  "extract_from_email stub_platform investment_message = Inr investment_envelope
   \<and> ''currency defaulted to USD'' \<in> set (assumptions investment_envelope)
   \<and> set [''company'', ''rounds'', ''ownerships'', ''cashflows'', ''updates'', ''contacts'',
          ''documents''] \<subseteq> set (fact_keys investment_envelope)"
  using envelope_has_usd_assumption_and_fact_keys [OF eval_investment [of stub_platform]]
    eval_investment [of stub_platform]
  by simp

subsection \<open>Rounding to binary64\<close>

lemma pow2_powi: "pow2 k = 2 powi k"
  by (simp add: pow2_def power_int_def field_simps)

lemma pow2_pos: "0 < pow2 k"
  by (simp add: pow2_powi)

lemma pow2_add: "pow2 (a + b) = pow2 a * pow2 b"
  by (simp add: pow2_powi power_int_add)

lemma pow2_mono: "a \<le> b \<Longrightarrow> pow2 a \<le> pow2 b"
  by (simp add: pow2_powi power_int_increasing)

lemma bits_bounds: "0 < n \<Longrightarrow> pow2 (bits n - 1) \<le> of_int n \<and> of_int n < pow2 (bits n)"
proof (induction n rule: bits.induct)
  case (1 n)
  show ?case
  proof (cases "n = 1")
    case True
    have "bits 1 = 1" by (simp add: bits.simps [of 1] bits.simps [of 0])
    then show ?thesis using True by (simp add: pow2_def)
  next
    case False
    with 1(2) have h: "0 < n div 2" by simp
    from 1(1) [OF _ h] 1(2)
    have ih: "pow2 (bits (n div 2) - 1) \<le> of_int (n div 2)" "of_int (n div 2) < pow2 (bits (n div 2))"
      by simp_all
    have b: "bits n = 1 + bits (n div 2)" using 1(2) by (simp add: bits.simps [of n])
    have lo: "2 * (n div 2) \<le> n" by simp
    have hi: "n < 2 * (n div 2 + 1)" by simp
    have p1: "pow2 (bits n - 1) = 2 * pow2 (bits (n div 2) - 1)"
      using pow2_add [of 1 "bits (n div 2) - 1"] by (simp add: b pow2_def)
    have p2: "pow2 (bits n) = 2 * pow2 (bits (n div 2))"
      using pow2_add [of 1 "bits (n div 2)"] by (simp add: b pow2_def)
    have "pow2 (bits n - 1) \<le> 2 * of_int (n div 2)" using ih(1) p1 by simp
    also have "\<dots> = of_int (2 * (n div 2))" by simp
    also have "\<dots> \<le> of_int n" using lo by (simp only: of_int_le_iff)
    finally have A: "pow2 (bits n - 1) \<le> of_int n" .
    have "(of_int (n div 2 + 1) :: rat) \<le> pow2 (bits (n div 2))"
    proof -
      obtain k where k: "pow2 (bits (n div 2)) = of_int k"
      proof (cases "0 \<le> bits (n div 2)")
        case True
        then have "pow2 (bits (n div 2)) = of_int (2 ^ nat (bits (n div 2)))" by (simp add: pow2_def)
        then show ?thesis using that by blast
      next
        case False
        then have "pow2 (bits (n div 2)) \<le> 1" using pow2_mono [of "bits (n div 2)" 0] by (simp add: pow2_def)
        moreover have "(1::rat) \<le> of_int (n div 2)" using h by (simp add: int_one_le_iff_zero_less)
        ultimately have False using ih(2) by simp
        then show ?thesis ..
      qed
      from ih(2) k have "n div 2 < k" by simp
      then have "n div 2 + 1 \<le> k" by simp
      then show ?thesis unfolding k by (simp only: of_int_le_iff)
    qed
    then have "2 * (of_int (n div 2 + 1) :: rat) \<le> pow2 (bits n)" using p2 by simp
    moreover have "(of_int n :: rat) < of_int (2 * (n div 2 + 1))" using hi by (simp only: of_int_less_iff)
    ultimately have B: "of_int n < pow2 (bits n)" by simp
    from A B show ?thesis by simp
  qed
qed

lemma exponent_bounds:
  assumes "0 < x"
  shows "pow2 (exponent x) \<le> x \<and> x < pow2 (exponent x + 1)"
proof -
  obtain p q where pq: "quotient_of x = (p, q)" by (cases "quotient_of x")
  then have q: "0 < q" using quotient_of_denom_pos by blast
  have x: "x = of_int p / of_int q" using pq by (simp add: quotient_of_div)
  have p: "0 < p" using assms q unfolding x by (simp add: zero_less_divide_iff)
  let ?b = "bits p - bits q"
  from bits_bounds [OF p] have bp: "pow2 (bits p - 1) \<le> of_int p" "of_int p < pow2 (bits p)" by simp_all
  from bits_bounds [OF q] have bq: "pow2 (bits q - 1) \<le> of_int q" "of_int q < pow2 (bits q)" by simp_all
  have qpos: "(0::rat) < of_int q" using q by simp
  have up: "x < pow2 (?b + 1)"
  proof -
    have "of_int p < pow2 (bits p)" by (rule bp(2))
    also have "\<dots> = pow2 (?b + 1) * pow2 (bits q - 1)"
      using pow2_add [of "?b + 1" "bits q - 1"] by simp
    also have "\<dots> \<le> pow2 (?b + 1) * of_int q"
      using bq(1) pow2_pos [of "?b + 1"] by simp
    finally show ?thesis unfolding x using qpos by (simp add: pos_divide_less_eq)
  qed
  have lo: "pow2 (?b - 1) \<le> x"
  proof -
    have "pow2 (?b - 1) * of_int q \<le> pow2 (?b - 1) * pow2 (bits q)"
      using bq(2) pow2_pos [of "?b - 1"] by simp
    also have "\<dots> = pow2 (bits p - 1)" using pow2_add [of "?b - 1" "bits q"] by simp
    also have "\<dots> \<le> of_int p" by (rule bp(1))
    finally show ?thesis unfolding x using qpos by (simp add: pos_le_divide_eq)
  qed
  show ?thesis
  proof (cases "pow2 ?b \<le> x")
    case True
    then have "exponent x = ?b" by (simp add: exponent_def pq)
    then show ?thesis using True up by simp
  next
    case False
    then have "exponent x = ?b - 1" by (simp add: exponent_def pq)
    then show ?thesis using False lo by simp
  qed
qed

lemma nearest_even_error: "\<bar>of_int (nearest_even x) - x\<bar> \<le> 1 / 2"
proof -
  define f where "f = \<lfloor>x\<rfloor>"
  define r where "r = x - of_int f"
  have r: "0 \<le> r" "r < 1" unfolding r_def f_def by linarith+
  have n: "nearest_even x = (if r < 1 / 2 then f else if 1 / 2 < r then f + 1 else if even f then f else f + 1)"
    by (simp add: nearest_even_def Let_def f_def r_def)
  have d: "of_int (nearest_even x) - x = of_int (nearest_even x) - of_int f - r" by (simp add: r_def)
  consider "r < 1 / 2" | "1 / 2 < r" | "r = 1 / 2" by linarith
  then show ?thesis
  proof cases
    case 1
    then have "nearest_even x = f" by (simp add: n)
    then show ?thesis unfolding d using r 1 by simp
  next
    case 2
    then have "nearest_even x = f + 1" by (simp add: n)
    then show ?thesis unfolding d using r 2 by simp
  next
    case 3
    then have "nearest_even x = f \<or> nearest_even x = f + 1" by (simp add: n)
    then show ?thesis unfolding d using 3 by auto
  qed
qed

text \<open>The relative error of a rounding is at most \<open>2\<^sup>-\<^sup>5\<^sup>3\<close>.\<close>

lemma round64_error: "\<bar>round64 x - x\<bar> \<le> \<bar>x\<bar> / 2 ^ 53"
proof (cases "x = 0")
  case True
  then show ?thesis by (simp add: round64_def)
next
  case False
  let ?a = "\<bar>x\<bar>"
  let ?e = "exponent ?a"
  let ?m = "nearest_even (?a * pow2 (52 - ?e))"
  have a: "0 < ?a" using False by simp
  from exponent_bounds [OF a] have e: "pow2 ?e \<le> ?a" by simp
  have r: "round64 x = sgn x * (of_int ?m * pow2 (?e - 52))"
    using False by (simp add: round64_def Let_def mult.assoc)
  have xs: "x = sgn x * ?a" by (simp add: abs_sgn mult.commute)
  have "round64 x - x = sgn x * (of_int ?m * pow2 (?e - 52) - ?a)"
    by (subst r, subst xs) (simp add: algebra_simps)
  then have "\<bar>round64 x - x\<bar> = \<bar>of_int ?m * pow2 (?e - 52) - ?a\<bar>"
    using False by (simp add: abs_mult abs_sgn_eq)
  also have "of_int ?m * pow2 (?e - 52) - ?a = (of_int ?m - ?a * pow2 (52 - ?e)) * pow2 (?e - 52)"
  proof -
    have "pow2 (52 - ?e) * pow2 (?e - 52) = 1" using pow2_add [of "52 - ?e" "?e - 52"] by (simp add: pow2_def)
    then show ?thesis by (simp add: algebra_simps)
  qed
  also have "\<bar>\<dots>\<bar> = \<bar>of_int ?m - ?a * pow2 (52 - ?e)\<bar> * pow2 (?e - 52)"
    using pow2_pos [of "?e - 52"] by (simp add: abs_mult)
  also have "\<dots> \<le> (1 / 2) * pow2 (?e - 52)"
    using nearest_even_error [of "?a * pow2 (52 - ?e)"] pow2_pos [of "?e - 52"]
    by (intro mult_right_mono) simp_all
  also have "\<dots> = pow2 ?e / 2 ^ 53"
  proof -
    have "pow2 (?e - 52) = pow2 ?e * pow2 (- 52)" using pow2_add [of ?e "- 52"] by simp
    then show ?thesis by (simp add: pow2_def)
  qed
  also have "\<dots> \<le> ?a / 2 ^ 53" using e by (simp add: divide_right_mono)
  finally show ?thesis .
qed

lemma sum_list_le_length:
  fixes cs :: "rat list"
  shows "\<forall>c \<in> set cs. c \<le> 1 \<Longrightarrow> sum_list cs \<le> of_nat (length cs)"
  by (induction cs) auto

text \<open>The error of a sum of \<open>k\<close> numbers between 0 and 1 is at most \<open>k\<^sup>2 / 2\<^sup>5\<^sup>3\<close>.\<close>

lemma fold_error:
  fixes acc s0 :: rat
  assumes "\<forall>c \<in> set cs. 0 \<le> c \<and> c \<le> 1"
    and "\<bar>acc - s0\<bar> \<le> (of_nat k)\<^sup>2 / 2 ^ 53" and "0 \<le> s0" and "s0 \<le> of_nat k"
    and "k + length cs \<le> 2 ^ 53"
  shows "\<bar>foldl (\<lambda>a c. round64 (a + c)) acc cs - (s0 + sum_list cs)\<bar>
           \<le> (of_nat (k + length cs))\<^sup>2 / 2 ^ 53"
  using assms
proof (induction cs arbitrary: acc s0 k)
  case Nil
  then show ?case by simp
next
  case (Cons c cs)
  let ?u = "1 / (2::rat) ^ 53"
  let ?K = "of_nat k :: rat"
  have c: "0 \<le> c" "c \<le> 1" using Cons.prems(1) by simp_all
  have ku: "?K \<le> 2 ^ 53"
  proof -
    have "k \<le> 2 ^ 53" using Cons.prems(5) by simp
    then have "(of_nat k :: rat) \<le> of_nat (2 ^ 53)" by (simp only: of_nat_le_iff)
    then show ?thesis by simp
  qed
  have K0: "0 \<le> ?K" by simp
  have e0: "\<bar>acc - s0\<bar> \<le> ?K\<^sup>2 * ?u" using Cons.prems(2) by simp
  have "\<bar>acc + c\<bar> \<le> \<bar>acc - s0\<bar> + (s0 + c)" using Cons.prems(3) c by linarith
  also have "\<dots> \<le> ?K\<^sup>2 * ?u + (?K + 1)" using e0 Cons.prems(4) c by linarith
  finally have ac: "\<bar>acc + c\<bar> \<le> ?K\<^sup>2 * ?u + (?K + 1)" .
  have k2: "?K\<^sup>2 * ?u \<le> ?K"
  proof -
    have "?K * ?K \<le> ?K * 2 ^ 53" using ku K0 by (intro mult_left_mono) simp_all
    then show ?thesis by (simp add: power2_eq_square field_simps)
  qed
  have "\<bar>round64 (acc + c) - (acc + c)\<bar> \<le> \<bar>acc + c\<bar> * ?u"
    using round64_error [of "acc + c"] by simp
  also have "\<dots> \<le> (?K\<^sup>2 * ?u + (?K + 1)) * ?u" using ac by (intro mult_right_mono) simp_all
  also have "\<dots> \<le> (?K + (?K + 1)) * ?u" using k2 by (intro mult_right_mono) simp_all
  finally have r: "\<bar>round64 (acc + c) - (acc + c)\<bar> \<le> (2 * ?K + 1) * ?u" by simp
  have "\<bar>round64 (acc + c) - (s0 + c)\<bar> \<le> \<bar>round64 (acc + c) - (acc + c)\<bar> + \<bar>acc - s0\<bar>"
    by linarith
  also have "\<dots> \<le> (2 * ?K + 1) * ?u + ?K\<^sup>2 * ?u" using r e0 by linarith
  also have "\<dots> = (of_nat (Suc k))\<^sup>2 / 2 ^ 53" by (simp add: power2_eq_square field_simps)
  finally have e1: "\<bar>round64 (acc + c) - (s0 + c)\<bar> \<le> (of_nat (Suc k))\<^sup>2 / 2 ^ 53" .
  have s1: "0 \<le> s0 + c" "s0 + c \<le> of_nat (Suc k)" using Cons.prems(3,4) c by simp_all
  have "\<bar>foldl (\<lambda>a c. round64 (a + c)) (round64 (acc + c)) cs - ((s0 + c) + sum_list cs)\<bar>
          \<le> (of_nat (Suc k + length cs))\<^sup>2 / 2 ^ 53"
    using Cons.prems(1,5) by (intro Cons.IH [OF _ e1 s1]) simp_all
  then show ?case by (simp add: add.assoc)
qed

lemma fsum_error:
  assumes "\<forall>c \<in> set cs. 0 \<le> c \<and> c \<le> 1" and "length cs \<le> 2 ^ 53"
  shows "\<bar>fsum cs - sum_list cs\<bar> \<le> (of_nat (length cs))\<^sup>2 / 2 ^ 53"
  using fold_error [of cs 0 0 0] assms by (simp add: fsum_def)

text \<open>The float mean of \<open>n\<close> numbers between 0 and 1 is within \<open>(n + 2) / 2\<^sup>5\<^sup>3\<close> of their
  mean.\<close>

lemma overall_error:
  assumes "\<forall>c \<in> set cs. 0 \<le> c \<and> c \<le> 1" and "length cs \<le> 2 ^ 53" and "cs \<noteq> []"
  shows "\<bar>overall cs - sum_list cs / of_nat (length cs)\<bar> \<le> (of_nat (length cs) + 2) / 2 ^ 53"
proof -
  let ?n = "of_nat (length cs) :: rat"
  let ?u = "1 / (2::rat) ^ 53"
  let ?S = "sum_list cs"
  have n1: "1 \<le> ?n" using assms(3) by (cases cs) simp_all
  have nu: "?n \<le> 2 ^ 53"
  proof -
    have "(of_nat (length cs) :: rat) \<le> of_nat (2 ^ 53)" using assms(2) by (simp only: of_nat_le_iff)
    then show ?thesis by simp
  qed
  have S: "0 \<le> ?S" "?S \<le> ?n"
  proof -
    show "0 \<le> ?S" using assms(1) by (simp add: sum_list_nonneg)
    show "?S \<le> ?n" using assms(1) by (intro sum_list_le_length) simp
  qed
  have e: "\<bar>fsum cs - ?S\<bar> \<le> ?n\<^sup>2 * ?u" using fsum_error [OF assms(1,2)] by simp
  have q: "\<bar>fsum cs / ?n - ?S / ?n\<bar> \<le> ?n * ?u"
  proof -
    have "\<bar>fsum cs / ?n - ?S / ?n\<bar> = \<bar>fsum cs - ?S\<bar> / ?n" using n1 by (simp add: diff_divide_distrib [symmetric])
    also have "\<dots> \<le> (?n\<^sup>2 * ?u) / ?n" using e n1 by (intro divide_right_mono) simp_all
    also have "\<dots> = ?n * ?u" using n1 by (simp add: power2_eq_square)
    finally show ?thesis .
  qed
  have m: "?S / ?n \<le> 1" using S n1 by (simp add: divide_le_eq)
  have m0: "0 \<le> ?S / ?n" using S n1 by simp
  have a: "\<bar>fsum cs / ?n\<bar> \<le> 2"
  proof -
    have "?n * ?u \<le> 1" using nu by (simp add: field_simps)
    then show ?thesis using q m m0 by linarith
  qed
  have "\<bar>round64 (fsum cs / ?n) - fsum cs / ?n\<bar> \<le> \<bar>fsum cs / ?n\<bar> * ?u"
    using round64_error [of "fsum cs / ?n"] by simp
  also have "\<dots> \<le> 2 * ?u" using a by (intro mult_right_mono) simp_all
  finally have r: "\<bar>round64 (fsum cs / ?n) - fsum cs / ?n\<bar> \<le> 2 * ?u" .
  have o: "overall cs = round64 (fsum cs / ?n)" using assms(3) by (simp add: overall_def)
  have "\<bar>overall cs - ?S / ?n\<bar>
          \<le> \<bar>round64 (fsum cs / ?n) - fsum cs / ?n\<bar> + \<bar>fsum cs / ?n - ?S / ?n\<bar>"
    unfolding o by linarith
  also have "\<dots> \<le> 2 * ?u + ?n * ?u" using r q by linarith
  finally have "\<bar>overall cs - ?S / ?n\<bar> \<le> 2 * ?u + ?n * ?u" .
  then show ?thesis by (simp add: field_simps)
qed

subsection \<open>The overall confidence\<close>

lemma confs_facts_append:
  "set (all_confidences (facts_append k x fs))
     \<subseteq> set (all_confidences fs) \<union> set_option (fact_confidence x)"
proof (induction fs)
  case Nil
  show ?case by simp
next
  case (Cons kv fs)
  obtain a v where kv: "kv = (a, v)" by (cases kv)
  show ?case
  proof (cases "a = k")
    case True
    then show ?thesis using kv
      by (cases v) (auto simp: all_confidences_def List.map_filter_def)
  next
    case False
    then show ?thesis using kv Cons.IH by (auto simp: all_confidences_def)
  qed
qed

lemma confs_facts_set:
  "set (all_confidences (facts_set k v fs))
     \<subseteq> set (all_confidences fs) \<union> set (value_confidences v)"
proof (induction fs)
  case Nil
  show ?case by (simp add: all_confidences_def)
next
  case (Cons kv fs)
  obtain a w where kv: "kv = (a, w)" by (cases kv)
  show ?case
  proof (cases "a = k")
    case True
    then show ?thesis using kv by (auto simp: all_confidences_def)
  next
    case False
    then show ?thesis using kv Cons.IH by (auto simp: all_confidences_def)
  qed
qed

lemma assigned_add_fact:
  assumes "\<forall>c \<in> set (all_confidences (facts r)). assigned c"
    and "fact_confidence x = Some c0" and "assigned c0"
  shows "\<forall>c \<in> set (all_confidences (facts (add_fact k x r))). assigned c"
  using assms confs_facts_append [of k x "facts r"] by (auto simp: add_fact_def)

lemma assigned_add_cashflow:
  assumes "\<forall>c \<in> set (all_confidences (facts r)). assigned c" and "assigned c0"
  shows "\<forall>c \<in> set (all_confidences (facts (add_fact k (Cashflow d kd a c0) r))). assigned c"
  by (rule assigned_add_fact [OF assms(1) _ assms(2)]) simp

lemma assigned_add_ownership:
  assumes "\<forall>c \<in> set (all_confidences (facts r)). assigned c" and "assigned c0"
  shows "\<forall>c \<in> set (all_confidences (facts (add_fact k (Ownership d p c0) r))). assigned c"
  by (rule assigned_add_fact [OF assms(1) _ assms(2)]) simp

lemma amount_confidence_values: "amount_confidence t m \<in> {85, 90, 95}"
  by (simp add: amount_confidence_def Let_def)

lemma amount_of_match_confidence:
  assumes "amount_of_match t m = Inr (a, c)"
  shows "c \<in> {85, 90, 95}"
  using assms amount_confidence_values [of t m]
  by (auto simp: amount_of_match_def Let_def split: option.splits if_splits)

lemma mapM_Inr:
  assumes "mapM f xs = Inr ys"
  shows "\<forall>y \<in> set ys. \<exists>x \<in> set xs. f x = Inr y"
  using assms
  by (induction xs arbitrary: ys) (auto split: sum.splits)

lemma extract_amounts_confidence:
  assumes "extract_amounts t = Inr amounts" and "(a, c) \<in> set amounts"
  shows "c \<in> {85, 90, 95}"
proof -
  from mapM_Inr [OF assms(1) [unfolded extract_amounts_def]] assms(2)
  obtain m where "amount_of_match t m = Inr (a, c)" by blast
  then show ?thesis by (rule amount_of_match_confidence)
qed

lemma assigned_values:
  "assigned (round64 (7 / 10))" "assigned (round64 (8 / 10))" "assigned (round64 (85 / 100))"
  "assigned (round64 (9 / 10))" "assigned (round64 (95 / 100))"
  by (simp_all add: assigned_def)

lemma assigned_amount:
  assumes "c \<in> {85, 90, 95}"
  shows "assigned (round64 (of_int c / 100))"
  using assms by (auto simp: assigned_def)

lemma add_cashflows_assigned:
  assumes "\<forall>c \<in> set (all_confidences (facts r)). assigned c"
    and "\<forall>(a, c) \<in> set amounts. c \<in> {85, 90, 95}"
  shows "\<forall>c \<in> set (all_confidences (facts (add_cashflows pf t ds amounts r))). assigned c"
  using assms
proof (induction amounts arbitrary: r)
  case Nil
  then show ?case by simp
next
  case (Cons ac amounts)
  obtain a c where ac: "ac = (a, c)" by (cases ac)
  have c: "c \<in> {85, 90, 95}" using Cons.prems(2) ac by auto
  then have w: "assigned (round64 (of_int c / 100))" by (rule assigned_amount)
  let ?r = "if contains ''invested'' (lower t)
            then add_fact ''cashflows''
                   (Cashflow (isoformat pf (case ds ''close_date'' of Some d \<Rightarrow> d | None \<Rightarrow> now pf))
                      ''Investment'' a (round64 (of_int c / 100))) r
            else r"
  have "\<forall>c \<in> set (all_confidences (facts ?r)). assigned c"
    using Cons.prems(1) assigned_add_cashflow [OF Cons.prems(1) w] by simp
  moreover have "\<forall>(a, c) \<in> set amounts. c \<in> {85, 90, 95}" using Cons.prems(2) by simp
  ultimately show ?case using Cons.IH [of ?r] ac by simp
qed

lemma extract_ownership_confidence:
  assumes "extract_ownership t = Inr (Some (p, c))"
  shows "assigned c"
  using assms assigned_values(3)
  by (auto simp: extract_ownership_def split: option.splits)

lemma add_ownership_assigned:
  assumes "\<forall>c \<in> set (all_confidences (facts r)). assigned c"
    and "extract_ownership t = Inr ow"
  shows "\<forall>c \<in> set (all_confidences (facts (add_ownership pf ds ow r))). assigned c"
proof (cases ow)
  case None
  then show ?thesis using assms by (simp add: add_ownership_def)
next
  case (Some pc)
  obtain p c where pc: "pc = (p, c)" by (cases pc)
  have "assigned c" using extract_ownership_confidence assms(2) Some pc by simp
  from assigned_add_ownership [OF assms(1) this]
  show ?thesis using Some pc by (simp add: add_ownership_def)
qed

lemma initial_assigned: "\<forall>c \<in> set (all_confidences (facts (initial_result i))). assigned c"
  by (simp add: initial_result_def all_confidences_def List.map_filter_simps)

lemma extract_by_type_assigned:
  assumes "extract_by_type pf ty t rd r = Inr r'"
    and "\<forall>c \<in> set (all_confidences (facts r)). assigned c"
  shows "\<forall>c \<in> set (all_confidences (facts r')). assigned c"
proof -
  from by_type_cases [OF assms(1)]
  consider (u) "extract_update pf t r rd = Inr r'"
    | (n) "extract_notebook_lm pf t r = Inr r'"
    | (c) "extract_cap_table pf t r = Inr r'"
    | (same) "r = r'"
    by blast
  then show ?thesis
  proof cases
    case u
    then obtain x where "r' = add_fact ''updates'' x r" "fact_confidence x = Some (round64 (8 / 10))"
      by (auto simp: extract_update_def Let_def split: sum.splits option.splits)
    then show ?thesis
      using assigned_add_fact [OF assms(2), of x "round64 (8 / 10)"] assigned_values(2) by simp
  next
    case n
    then obtain x where r': "r' = r\<lparr>facts := facts_set ''comm'' (FList [x]) (facts r)\<rparr>"
      and x: "fact_confidence x = Some (round64 (7 / 10))"
      by (auto simp: extract_notebook_lm_def split: sum.splits)
    have "set (value_confidences (FList [x])) = {round64 (7 / 10)}"
      using x by (simp add: List.map_filter_simps)
    then show ?thesis
      using assms(2) r' confs_facts_set [of "''comm''" "FList [x]" "facts r"] assigned_values(1)
      by auto
  next
    case c
    then consider "r' = r"
      | p cf where "extract_ownership t = Inr (Some (p, cf))"
          "r' = add_fact ''ownerships'' (Ownership (isoformat pf (now pf)) p cf) r"
      by (auto simp: extract_cap_table_def split: sum.splits option.splits)
    then show ?thesis
    proof cases
      case 1
      then show ?thesis using assms(2) by simp
    next
      case 2
      from extract_ownership_confidence [OF 2(1)] have "assigned cf" .
      from assigned_add_ownership [OF assms(2) this] show ?thesis using 2(2) by simp
    qed
  next
    case same
    then show ?thesis using assms(2) by simp
  qed
qed

lemma extract_from_email_shape:
  assumes "extract_from_email pf m = Inr r"
  shows "confidence_overall r = overall (all_confidences (facts r))
         \<and> (\<forall>c \<in> set (all_confidences (facts r)). assigned c)"
proof -
  let ?t = "full_text_of m"
  let ?ds = "extract_dates pf ?t"
  from assms obtain r1 amounts ow where
    r1: "extract_by_type pf (classify_email (subject m) (body m)) ?t (receivedDateTime m)
           (initial_result (message_id m)) = Inr r1"
    and am: "extract_amounts ?t = Inr amounts"
    and ow: "extract_ownership ?t = Inr ow"
    and r: "r = (add_ownership pf ?ds ow (add_cashflows pf ?t ?ds amounts r1))
                \<lparr>confidence_overall := overall (all_confidences (facts
                   (add_ownership pf ?ds ow (add_cashflows pf ?t ?ds amounts r1))))\<rparr>"
    by (auto simp: extract_from_email_def Let_def split: sum.splits)
  have w1: "\<forall>c \<in> set (all_confidences (facts r1)). assigned c"
    using extract_by_type_assigned [OF r1 initial_assigned] .
  have "\<forall>(a, c) \<in> set amounts. c \<in> {85, 90, 95}"
    using extract_amounts_confidence [OF am] by blast
  from add_cashflows_assigned [OF w1 this]
  have w2: "\<forall>c \<in> set (all_confidences (facts (add_cashflows pf ?t ?ds amounts r1))). assigned c" .
  from add_ownership_assigned [OF w2 ow]
  have w3: "\<forall>c \<in> set (all_confidences (facts (add_ownership pf ?ds ow (add_cashflows pf ?t ?ds amounts r1)))). assigned c" .
  show ?thesis using r w3 by simp
qed

text \<open>The confidences that the code collects are the confidence fields of the facts.\<close>

lemma map_filter_confidence: "List.map_filter fact_confidence xs = concat (map confidence_field xs)"
proof (induction xs)
  case Nil
  show ?case by (simp add: List.map_filter_simps)
next
  case (Cons x xs)
  then show ?case by (cases x) (simp_all add: List.map_filter_simps)
qed

lemma all_confidences_fields: "all_confidences fs = concat (map confidence_field (concat (fact_lists fs)))"
proof (induction fs)
  case Nil
  show ?case by (simp add: all_confidences_def)
next
  case (Cons kv fs)
  obtain k v where kv: "kv = (k, v)" by (cases kv)
  from Cons.IH show ?case
    unfolding kv by (cases v) (simp_all add: all_confidences_def map_filter_confidence)
qed

lemma confidence_fields_code: "confidence_fields r = all_confidences (facts r)"
  by (simp add: confidence_fields_def all_confidences_fields)

lemma assigned_bounds:
  assumes "assigned c"
  shows "69 / 100 \<le> c \<and> c \<le> 96 / 100"
proof -
  from assms obtain x where x: "c = round64 x" "7 / 10 \<le> x" "x \<le> 95 / 100"
    by (auto simp: assigned_def)
  have "\<bar>round64 x - x\<bar> \<le> \<bar>x\<bar> / 2 ^ 53" by (rule round64_error)
  also have "\<dots> \<le> 1 / 2 ^ 53" using x(2,3) by (intro divide_right_mono) simp_all
  also have "\<dots> \<le> 1 / 100" by simp
  finally have "\<bar>round64 x - x\<bar> \<le> 1 / 100" .
  then have "69 / 100 \<le> round64 x \<and> round64 x \<le> 96 / 100" using x(2,3) by linarith
  then show ?thesis using x(1) by simp
qed

lemma sum_list_bounds:
  fixes xs :: "rat list"
  assumes "\<forall>x \<in> set xs. l \<le> x \<and> x \<le> u"
  shows "l * of_nat (length xs) \<le> sum_list xs \<and> sum_list xs \<le> u * of_nat (length xs)"
  using assms by (induction xs) (auto simp: algebra_simps)

lemma overall_bounds:
  assumes "xs \<noteq> []" and "\<forall>x \<in> set xs. assigned x" and "length xs < 2 ^ 32"
  shows "\<bar>overall xs - sum_list xs / of_nat (length xs)\<bar> \<le> (of_nat (length xs) + 2) / 2 ^ 53
         \<and> 68 / 100 \<le> overall xs \<and> overall xs \<le> 97 / 100"
proof -
  let ?n = "of_nat (length xs) :: rat"
  have n: "0 < ?n" using assms(1) by simp
  have b: "\<forall>x \<in> set xs. 69 / 100 \<le> x \<and> x \<le> 96 / 100" using assms(2) assigned_bounds by blast
  then have b01: "\<forall>x \<in> set xs. 0 \<le> x \<and> x \<le> 1" by auto
  have len: "length xs \<le> 2 ^ 53"
  proof -
    have "(2::nat) ^ 32 \<le> 2 ^ 53" by simp
    then show ?thesis using assms(3) by linarith
  qed
  from overall_error [OF b01 len assms(1)]
  have e: "\<bar>overall xs - sum_list xs / ?n\<bar> \<le> (?n + 2) / 2 ^ 53" .
  have "?n < 2 ^ 32"
  proof -
    have "(of_nat (length xs) :: rat) < of_nat (2 ^ 32)" using assms(3) by (simp only: of_nat_less_iff)
    then show ?thesis by simp
  qed
  then have "(?n + 2) / 2 ^ 53 \<le> (2 ^ 32 + 2) / 2 ^ 53" by (intro divide_right_mono) simp_all
  also have "\<dots> \<le> 1 / 100" by simp
  finally have small: "(?n + 2) / 2 ^ 53 \<le> 1 / 100" .
  from sum_list_bounds [of xs "69 / 100" "96 / 100"] b
  have "69 / 100 * ?n \<le> sum_list xs" "sum_list xs \<le> 96 / 100 * ?n" by simp_all
  then have m: "69 / 100 \<le> sum_list xs / ?n" "sum_list xs / ?n \<le> 96 / 100"
    using n by (simp_all add: pos_le_divide_eq pos_divide_le_eq)
  from e small have "\<bar>overall xs - sum_list xs / ?n\<bar> \<le> 1 / 100" by linarith
  then have "68 / 100 \<le> overall xs" "overall xs \<le> 97 / 100" using m by linarith+
  with e show ?thesis by simp
qed

text \<open>
  Claim C5: the overall confidence of the envelope that \<open>extract_from_email\<close> returns lies
  between 0 and 1; it is the arithmetic mean of the confidence fields of all facts in all
  fact lists when there is one, and it is 0.5 exactly when there is none. The confidences
  are floats and the mean is the one that \<open>sum(confidences) / len(confidences)\<close>
  computes on them: the sum from the left with every partial sum rounded, then the
  quotient rounded. It is within \<open>(n + 2) / 2\<^sup>5\<^sup>3\<close> of the exact mean of the \<open>n\<close>
  fields. The envelope has fewer than \<open>2\<^sup>3\<^sup>2\<close> facts: a float cannot count much
  further than that.
\<close>

theorem confidence_overall_is_bounded_mean:
  assumes "extract_from_email pf m = Inr r" and "length (confidence_fields r) < 2 ^ 32"
  shows "0 \<le> confidence_overall r \<and> confidence_overall r \<le> 1
         \<and> (confidence_fields r \<noteq> [] \<longrightarrow>
              confidence_overall r
                = round64 (fsum (confidence_fields r) / of_nat (length (confidence_fields r)))
              \<and> \<bar>confidence_overall r
                    - sum_list (confidence_fields r) / of_nat (length (confidence_fields r))\<bar>
                  \<le> (of_nat (length (confidence_fields r)) + 2) / 2 ^ 53)
         \<and> (confidence_overall r = 1 / 2 \<longleftrightarrow> confidence_fields r = [])"
proof -
  from extract_from_email_shape [OF assms(1)]
  have eq: "confidence_overall r = overall (confidence_fields r)"
    and w: "\<forall>c \<in> set (confidence_fields r). assigned c"
    by (simp_all add: confidence_fields_code)
  show ?thesis
  proof (cases "confidence_fields r = []")
    case True
    then show ?thesis using eq by (simp add: overall_def)
  next
    case False
    from overall_bounds [OF False w assms(2)] eq
    have e: "\<bar>confidence_overall r
                - sum_list (confidence_fields r) / of_nat (length (confidence_fields r))\<bar>
              \<le> (of_nat (length (confidence_fields r)) + 2) / 2 ^ 53"
      and b: "68 / 100 \<le> confidence_overall r" "confidence_overall r \<le> 97 / 100" by simp_all
    have mean: "confidence_overall r
                  = round64 (fsum (confidence_fields r) / of_nat (length (confidence_fields r)))"
      using eq False by (simp add: overall_def)
    from b have "0 \<le> confidence_overall r" "confidence_overall r \<le> 1" "confidence_overall r \<noteq> 1 / 2"
      by simp_all
    with mean e False show ?thesis by blast
  qed
qed

theorem confidence_overall_is_bounded_mean_witness:
  "extract_from_email stub_platform owner_message = Inr owner_envelope
   \<and> confidence_fields owner_envelope
       = [7656119366529843 / 9007199254740992, 4278419646001971 / 4503599627370496]
   \<and> confidence_overall owner_envelope = 2026619832316723 / 2251799813685248
   \<and> 0 \<le> confidence_overall owner_envelope \<and> confidence_overall owner_envelope \<le> 1
   \<and> \<bar>confidence_overall owner_envelope
         - (7656119366529843 / 9007199254740992 + 4278419646001971 / 4503599627370496) / 2\<bar>
       \<le> 4 / 2 ^ 53
   \<and> confidence_overall owner_envelope \<noteq> 1 / 2"
proof -
  have f: "confidence_fields owner_envelope
             = [7656119366529843 / 9007199254740992, 4278419646001971 / 4503599627370496]"
    by code_simp
  have o: "confidence_overall owner_envelope = 2026619832316723 / 2251799813685248"
    by code_simp
  have len: "length (confidence_fields owner_envelope) < 2 ^ 32" by (simp add: f)
  from confidence_overall_is_bounded_mean [OF eval_owner_stub len] eval_owner_stub f o
  show ?thesis by simp
qed


subsection \<open>Cleaning a cell\<close>

lemma match_here_Cls:
  "match_here (Cls neg items) False p s =
     (case s of [] \<Rightarrow> None | c # cs \<Rightarrow> if cls_ok neg items c then Some ([c], []) else None)"
  by (simp add: match_here_def finish_def advance_def split: list.splits)

lemma rebuild_scan_Cls:
  "rebuild repl (scan (Cls neg items) pos [] p s) =
     concat (map (\<lambda>c. if cls_ok neg items c then repl else [c]) s)"
proof (induction s arbitrary: pos p)
  case Nil
  show ?case by (simp add: match_here_Cls)
next
  case (Cons c cs)
  show ?case by (simp add: match_here_Cls Cons.IH)
qed

lemma concat_map_filter:
  "concat (map (\<lambda>c. if P c then [] else [c]) s) = filter (\<lambda>c. \<not> P c) s"
  by (induction s) simp_all

text \<open>Replacing a character class by nothing filters the string.\<close>

lemma sub_Cls:
  "sub False (Cls neg items) [] s = filter (\<lambda>c. \<not> cls_ok neg items c) s"
  by (simp add: sub_def compile_def rebuild_scan_Cls concat_map_filter)

lemma strip_currency_filter:
  "strip_currency s = filter (\<lambda>c. c \<noteq> CHR ''$'' \<and> c \<noteq> CHR '','' \<and> \<not> is_space c) s"
  by (auto simp add: strip_currency_def sub_Cls cls_ok_def intro!: filter_cong)

lemma context_round_exact: "\<bar>coef d\<bar> < 10000000000000000000000000000 \<Longrightarrow> context_round d = d"
  by (simp add: context_round_def)

lemma dec_val_mul:
  assumes "exact_product d n"
  shows "dec_val (dec_mul d n) = dec_val d * of_int n"
  using assms by (simp add: exact_product_def dec_mul_def context_round_exact dec_val_def)

lemma dec_le_int_val: "dec_le_int d n = (dec_val d \<le> of_int n)"
proof -
  have pos: "(0::rat) < 10 ^ places d" by simp
  have "(dec_val d \<le> of_int n) = (of_int (coef d) \<le> (of_int n :: rat) * 10 ^ places d)"
    unfolding dec_val_def using pos by (simp add: pos_divide_le_eq)
  also have "\<dots> = ((of_int (coef d) :: rat) \<le> of_int (n * 10 ^ places d))" by simp
  also have "\<dots> = (coef d \<le> n * 10 ^ places d)" by (simp only: of_int_le_iff)
  finally show ?thesis by (simp add: dec_le_int_def)
qed

lemma blank_not_decimal:
  assumes "blank v"
  shows "py_Decimal (percent_text (str_cell v)) = None"
proof -
  from assms have "v = Null \<or> v = Text []" by (simp add: blank_def isna_def)
  then show ?thesis
  proof
    assume "v = Null"
    moreover have "py_Decimal (percent_text ''nan'') = None" by code_simp
    ultimately show ?thesis by simp
  next
    assume "v = Text []"
    moreover have "py_Decimal (percent_text []) = None" by code_simp
    ultimately show ?thesis by simp
  qed
qed

text \<open>
  Claim C9: for a cell that parses as a number \<open>p\<close> once it is stripped and has lost its
  \<open>%\<close> and its commas, \<open>clean_percentage\<close> returns \<open>100 * p\<close> when \<open>p \<le> 1\<close> and \<open>p\<close>
  itself when \<open>p > 1\<close>, whether the module runs as the script or not, and logs nothing.
  So a fraction is read as a percentage: 0.15 gives 15, and 1 gives 100, while 15 stays
  15. The product is the exact one where it has no more than the 28 digits that the
  context of \<open>decimal\<close> keeps.
\<close>

theorem clean_percentage_scales_values_up_to_one:
  assumes "py_Decimal (percent_text (str_cell v)) = Some p"
    and "dec_val p \<le> 1 \<longrightarrow> exact_product p 100"
  shows "\<exists>d. clean_percentage is_main v = Inr (PyDecimal d, [])
           \<and> dec_val d = (if dec_val p \<le> 1 then 100 * dec_val p else dec_val p)"
proof -
  have nb: "\<not> blank v" using assms(1) blank_not_decimal [of v] by auto
  show ?thesis
  proof (cases "dec_val p \<le> 1")
    case True
    with assms(2) have "dec_val (dec_mul p 100) = dec_val p * 100" using dec_val_mul [of p 100] by simp
    then show ?thesis using nb assms(1) True
      by (simp add: clean_percentage_def dec_le_int_val)
  next
    case False
    then show ?thesis using nb assms(1) by (simp add: clean_percentage_def dec_le_int_val)
  qed
qed

theorem clean_percentage_scales_values_up_to_one_witness:
  "(\<exists>d. clean_percentage True (Text ''0.15'') = Inr (PyDecimal d, []) \<and> dec_val d = 15)
   \<and> (\<exists>d. clean_percentage True (Text ''1'') = Inr (PyDecimal d, []) \<and> dec_val d = 100)
   \<and> (\<exists>d. clean_percentage True (Text ''15'') = Inr (PyDecimal d, []) \<and> dec_val d = 15)
   \<and> (\<exists>d. clean_percentage False (Text ''5.2%'') = Inr (PyDecimal d, []) \<and> dec_val d = 52 / 10)"
proof -
  have a: "py_Decimal (percent_text (str_cell (Text ''0.15''))) = Some \<lparr>coef = 15, places = 2\<rparr>"
    by code_simp
  have b: "py_Decimal (percent_text (str_cell (Text ''1''))) = Some \<lparr>coef = 1, places = 0\<rparr>"
    by code_simp
  have c: "py_Decimal (percent_text (str_cell (Text ''15''))) = Some \<lparr>coef = 15, places = 0\<rparr>"
    by code_simp
  have d: "py_Decimal (percent_text (str_cell (Text ''5.2%''))) = Some \<lparr>coef = 52, places = 1\<rparr>"
    by code_simp
  from clean_percentage_scales_values_up_to_one [OF a, of True]
  have 1: "\<exists>d. clean_percentage True (Text ''0.15'') = Inr (PyDecimal d, []) \<and> dec_val d = 15"
    by (simp add: dec_val_def exact_product_def)
  from clean_percentage_scales_values_up_to_one [OF b, of True]
  have 2: "\<exists>d. clean_percentage True (Text ''1'') = Inr (PyDecimal d, []) \<and> dec_val d = 100"
    by (simp add: dec_val_def exact_product_def)
  from clean_percentage_scales_values_up_to_one [OF c, of True]
  have 3: "\<exists>d. clean_percentage True (Text ''15'') = Inr (PyDecimal d, []) \<and> dec_val d = 15"
    by (simp add: dec_val_def exact_product_def)
  from clean_percentage_scales_values_up_to_one [OF d, of False]
  have 4: "\<exists>d. clean_percentage False (Text ''5.2%'') = Inr (PyDecimal d, []) \<and> dec_val d = 52 / 10"
    by (simp add: dec_val_def exact_product_def)
  from 1 2 3 4 show ?thesis by blast
qed

text \<open>
  Claim C7 says that \<open>clean_currency\<close> returns the string \<open>unparseable\<close> for a value
  whose remainder does not parse. It returns \<open>None\<close>: for the cell \<open>TBD\<close> the script
  logs the warning and returns \<open>None\<close>, which is not that string. (In an imported module
  the same cell raises \<open>NameError\<close>, since \<open>decimal\<close> is only imported by the script.)
\<close>

theorem clean_currency_returns_None_not_a_string:
  "clean_currency True (Text ''TBD'') = Inr (PyNone, [''Could not parse currency value: TBD''])
   \<and> (\<forall>logged. clean_currency True (Text ''TBD'') \<noteq> Inr (PyStr ''unparseable'', logged))
   \<and> clean_currency False (Text ''TBD'') = Inl NameError"
proof -
  have a: "clean_currency True (Text ''TBD'') = Inr (PyNone, [''Could not parse currency value: TBD''])"
    by code_simp
  have b: "clean_currency False (Text ''TBD'') = Inl NameError"
    by code_simp
  from a b show ?thesis by simp
qed

text \<open>
  Claim C7, amended: \<open>clean_currency\<close> strips dollar signs, commas and whitespace, turns
  a value in parentheses into a negative one, and multiplies by the k, M or B suffix;
  where what is left is a number, it returns the product, and where \<open>Decimal\<close> cannot
  read what is left, the script logs a warning and returns \<open>None\<close>, without raising. The
  product is the exact one where it has no more than the 28 digits that the context of
  \<open>decimal\<close> keeps.
\<close>

theorem clean_currency_returns_None_when_unparseable:
  "strip_currency s = filter (\<lambda>c. c \<noteq> CHR ''$'' \<and> c \<noteq> CHR '','' \<and> \<not> is_space c) s
   \<and> unparenthesize (CHR ''('' # u @ '')'') = CHR ''-'' # u
   \<and> split_suffix (u @ ''k'') = (1000, u) \<and> split_suffix (u @ ''K'') = (1000, u)
   \<and> split_suffix (u @ ''m'') = (1000000, u) \<and> split_suffix (u @ ''M'') = (1000000, u)
   \<and> split_suffix (u @ ''b'') = (1000000000, u) \<and> split_suffix (u @ ''B'') = (1000000000, u)
   \<and> (\<not> blank v \<and> currency_text (str_cell v) = (multiplier, value_str) \<longrightarrow>
        (py_Decimal value_str = Some d \<and> exact_product d multiplier \<longrightarrow>
           (\<exists>d'. clean_currency is_main v = Inr (PyDecimal d', [])
                 \<and> dec_val d' = dec_val d * of_int multiplier))
      \<and> (py_Decimal value_str = None \<and> py_special value_str = None \<longrightarrow>
           clean_currency True v = Inr (PyNone, [''Could not parse currency value: '' @ str_cell v])))"
  by (simp add: strip_currency_filter unparenthesize_def split_suffix_def clean_currency_def
        parse_failure_def dec_val_mul)

theorem clean_currency_returns_None_when_unparseable_witness:
  "(\<exists>d'. clean_currency True (Text ''(1,234.5k)'') = Inr (PyDecimal d', []) \<and> dec_val d' = - 1234500)
   \<and> clean_currency True (Text ''$ 12 TBD'')
       = Inr (PyNone, [''Could not parse currency value: $ 12 TBD''])"
proof -
  have t1: "currency_text (str_cell (Text ''(1,234.5k)'')) = (1000, ''-1234.5'')" by code_simp
  have d1: "py_Decimal ''-1234.5'' = Some \<lparr>coef = - 12345, places = 1\<rparr>" by code_simp
  have t2: "currency_text (str_cell (Text ''$ 12 TBD'')) = (1, ''12TBD'')" by code_simp
  have d2: "py_Decimal ''12TBD'' = None" by code_simp
  have s2: "py_special ''12TBD'' = None" by code_simp
  from clean_currency_returns_None_when_unparseable
         [of "[]" "[]" "Text ''(1,234.5k)''" 1000 "''-1234.5''" "\<lparr>coef = - 12345, places = 1\<rparr>" True]
       t1 d1
  have 1: "\<exists>d'. clean_currency True (Text ''(1,234.5k)'') = Inr (PyDecimal d', []) \<and> dec_val d' = - 1234500"
    by (simp add: blank_def isna_def exact_product_def dec_val_def)
  from clean_currency_returns_None_when_unparseable
         [of "[]" "[]" "Text ''$ 12 TBD''" 1 "''12TBD''" _ True]
       t2 d2 s2
  have 2: "clean_currency True (Text ''$ 12 TBD'')
             = Inr (PyNone, [''Could not parse currency value: $ 12 TBD''])"
    by (simp add: blank_def isna_def)
  from 1 2 show ?thesis by blast
qed

subsection \<open>The rows of a sheet\<close>

lemma row_errors_append: "row_errors (xs @ ys) = row_errors xs + row_errors ys"
  by (induction xs rule: row_errors.induct) simp_all

text \<open>Every row that the loop sees is skipped for one of two reasons, appended, or given
  up with one error entry in the log.\<close>

lemma process_row_outcome:
  fixes cal :: "'d calendar"
  assumes "process_row is_main cal company_lookup (find_header_row df) (df ! find_header_row df)
             (map_columns (df ! find_header_row df)) (idx, row) = (entries, out)"
  shows "(case out of Appended r \<Rightarrow> 1 | _ \<Rightarrow> 0)
           + (if first_missing df row then 1 else 0)
           + (if first_present df row \<and> unnamed df row then 1 else 0)
           + row_errors entries = (1::nat)"
  using assms
  by (auto simp: process_row_def first_missing_def first_present_def unnamed_def Let_def
        row_errors_append split: sum.splits option.splits if_splits)

lemma length_appended_Cons:
  "length (appended (out # outs)) = (case out of Appended r \<Rightarrow> 1 | _ \<Rightarrow> 0) + length (appended outs)"
  by (cases out) simp_all

lemma length_filter_Cons: "length (filter P (x # xs)) = (if P x then 1 else 0) + length (filter P xs)"
  by simp

lemma rows_accounted:
  fixes cal :: "'d calendar" and is_main :: bool and company_lookup :: "(string \<times> string) list"
    and df :: frame
  defines "f \<equiv> process_row is_main cal company_lookup (find_header_row df) (df ! find_header_row df)
                    (map_columns (df ! find_header_row df))"
  shows "length (appended (map snd (map f rows)))
           + length (filter (\<lambda>(idx, row). first_missing df row) rows)
           + length (filter (\<lambda>(idx, row). first_present df row \<and> unnamed df row) rows)
           + row_errors (concat (map fst (map f rows)))
         = length rows"
proof (induction rows)
  case Nil
  show ?case by simp
next
  case (Cons x rows)
  obtain idx row where x: "x = (idx, row)" by (cases x)
  obtain entries out where p: "f (idx, row) = (entries, out)" by (cases "f (idx, row)")
  from process_row_outcome [OF p [unfolded f_def]]
  have one: "(case out of Appended r \<Rightarrow> 1 | _ \<Rightarrow> 0)
          + (if first_missing df row then 1 else 0)
          + (if first_present df row \<and> unnamed df row then 1 else 0)
          + row_errors entries = (1::nat)" .
  have a: "length (appended (map snd (map f (x # rows))))
             = (case out of Appended r \<Rightarrow> 1 | _ \<Rightarrow> 0) + length (appended (map snd (map f rows)))"
    using length_appended_Cons [of out "map snd (map f rows)"] by (simp add: x p)
  have b: "length (filter (\<lambda>(idx, row). first_missing df row) (x # rows))
             = (if first_missing df row then 1 else 0)
               + length (filter (\<lambda>(idx, row). first_missing df row) rows)"
    by (simp add: x)
  have c: "length (filter (\<lambda>(idx, row). first_present df row \<and> unnamed df row) (x # rows))
             = (if first_present df row \<and> unnamed df row then 1 else 0)
               + length (filter (\<lambda>(idx, row). first_present df row \<and> unnamed df row) rows)"
    by (simp add: x)
  have d: "row_errors (concat (map fst (map f (x # rows))))
             = row_errors entries + row_errors (concat (map fst (map f rows)))"
    by (simp add: x p row_errors_append)
  from one Cons.IH show ?case unfolding a b c d by simp
qed

text \<open>
  Claim C8 says that the records of the output and the rows dropped as aggregate or blank
  rows make up the data rows below the header. The only row of \<open>unnamed_sheet\<close> is neither
  an aggregate row nor a blank one, and there is no record for it: it has an amount and a
  status and no company name, and the loop skips it.
\<close>

theorem row_without_company_name_is_not_counted:
  "parse_file True stub_calendar [] [] unnamed_sheet = Inr ([], [])
   \<and> data_rows unnamed_sheet = [(0, [Text ''$1,000,000'', Null, Text ''Active''])]
   \<and> aggregate_rows unnamed_sheet = []
   \<and> blank_rows unnamed_sheet = []
   \<and> filter (\<lambda>(idx, row). blank_row row) (data_rows unnamed_sheet) = []
   \<and> length ([] :: string csv_record list) + length (aggregate_rows unnamed_sheet)
        + length (blank_rows unnamed_sheet) \<noteq> length (data_rows unnamed_sheet)"
proof -
  have a: "parse_file True stub_calendar [] [] unnamed_sheet = Inr ([], [])" by code_simp
  have b: "data_rows unnamed_sheet = [(0, [Text ''$1,000,000'', Null, Text ''Active''])]" by code_simp
  have c: "aggregate_rows unnamed_sheet = []" by code_simp
  have d: "blank_rows unnamed_sheet = []" by code_simp
  have e: "filter (\<lambda>(idx, row). blank_row row) (data_rows unnamed_sheet) = []"
    unfolding b by (simp add: blank_row_def blank_def isna_def)
  from a b c d e show ?thesis by simp
qed

text \<open>
  Claim C8, amended: for every file that \<open>parse_file\<close> accepts, the records of the output,
  the aggregate rows (first cell containing Total, Summary or Grand, in any case), the rows
  whose cell in the first mapped column is missing (every row, when no column is mapped),
  the rows without a company name, and the rows whose processing raised, each of which
  leaves one error entry in the reconciliation log, make up the data rows below the
  detected header row.
\<close>

theorem parse_file_accounts_for_every_row:
  fixes cal :: "'d calendar"
  assumes "parse_file is_main cal company_lookup reconciliation_log df = Inr (records, entries)"
  shows "length records + length (aggregate_rows df) + length (blank_rows df)
           + length (unnamed_rows df) + (row_errors entries - row_errors reconciliation_log)
         = length (data_rows df)
         \<and> length (data_rows df) = length df - Suc (find_header_row df)"
proof -
  let ?f = "process_row is_main cal company_lookup (find_header_row df) (df ! find_header_row df)
              (map_columns (df ! find_header_row df))"
  from assms have r: "records = appended (map snd (map ?f (kept_rows df)))"
    and e: "entries = reconciliation_log @ concat (map fst (map ?f (kept_rows df)))"
    by (simp_all add: parse_file_def Let_def split: if_splits)
  have k: "length (kept_rows df) + length (aggregate_rows df) = length (data_rows df)"
    using sum_length_filter_compl [of "\<lambda>(idx, row). is_aggregate row" "data_rows df"]
    by (simp add: kept_rows_def aggregate_rows_def case_prod_unfold add.commute)
  from rows_accounted [of is_main cal company_lookup df "kept_rows df"]
  have "length records + length (blank_rows df) + length (unnamed_rows df)
          + (row_errors entries - row_errors reconciliation_log) = length (kept_rows df)"
    by (simp add: r e blank_rows_def unnamed_rows_def row_errors_append)
  with k have "length records + length (aggregate_rows df) + length (blank_rows df)
           + length (unnamed_rows df) + (row_errors entries - row_errors reconciliation_log)
         = length (data_rows df)" by simp
  moreover have "length (data_rows df) = length df - Suc (find_header_row df)"
    by (simp add: data_rows_def)
  ultimately show ?thesis by simp
qed

theorem parse_file_accounts_for_every_row_witness:
  "parse_file False stub_calendar [] [] portfolio_sheet = Inr (portfolio_records, portfolio_log)
   \<and> length portfolio_records = 1
   \<and> length (aggregate_rows portfolio_sheet) = 1
   \<and> length (blank_rows portfolio_sheet) = 1
   \<and> length (unnamed_rows portfolio_sheet) = 1
   \<and> row_errors portfolio_log = 1
   \<and> length (data_rows portfolio_sheet) = 5"
proof -
  have p: "parse_file False stub_calendar [] [] portfolio_sheet = Inr (portfolio_records, portfolio_log)"
    by code_simp
  have a: "length (aggregate_rows portfolio_sheet) = 1" by code_simp
  have b: "length (blank_rows portfolio_sheet) = 1" by code_simp
  have h: "find_header_row portfolio_sheet = 0" by code_simp
  have r: "length portfolio_records = 1" by (simp add: portfolio_records_def)
  have e: "row_errors portfolio_log = 1" by (simp add: portfolio_log_def)
  from parse_file_accounts_for_every_row [OF p] a b h r e
  show ?thesis using p by (simp add: portfolio_sheet_def)
qed

subsection \<open>Normalizing a company name\<close>

lemma char_cases:
  assumes "list_all P (Enum.enum :: char list)"
  shows "P c"
proof -
  have "c \<in> set (Enum.enum :: char list)" by (simp add: enum_UNIV)
  with assms show ?thesis by (simp add: list_all_iff)
qed

lemma word_not_space: "is_word c \<Longrightarrow> \<not> is_space c"
proof -
  have "list_all (\<lambda>c. is_word c \<longrightarrow> \<not> is_space c) (Enum.enum :: char list)" by code_simp
  from char_cases [OF this] show "is_word c \<Longrightarrow> \<not> is_space c" by simp
qed

lemma lower_chr_word: "is_word (lower_chr c) = is_word c"
proof -
  have "list_all (\<lambda>c. is_word (lower_chr c) = is_word c) (Enum.enum :: char list)" by code_simp
  from char_cases [OF this] show ?thesis .
qed

lemma lower_chr_space: "is_space (lower_chr c) = is_space c"
proof -
  have "list_all (\<lambda>c. is_space (lower_chr c) = is_space c) (Enum.enum :: char list)" by code_simp
  from char_cases [OF this] show ?thesis .
qed

lemma lower_chr_idem: "lower_chr (lower_chr c) = lower_chr c"
proof -
  have "list_all (\<lambda>c. lower_chr (lower_chr c) = lower_chr c) (Enum.enum :: char list)" by code_simp
  from char_cases [OF this] show ?thesis .
qed

lemma letter_facts:
  assumes "is_letter c"
  shows "swap_case c \<noteq> c" "is_word c" "is_word (swap_case c)"
    "lower_chr (swap_case c) = lower_chr c" "is_lower (lower_chr c)"
proof -
  have "list_all (\<lambda>c. is_letter c \<longrightarrow> swap_case c \<noteq> c \<and> is_word c \<and> is_word (swap_case c)
          \<and> lower_chr (swap_case c) = lower_chr c \<and> is_lower (lower_chr c)) (Enum.enum :: char list)"
    by code_simp
  from char_cases [OF this] assms
  show "swap_case c \<noteq> c" "is_word c" "is_word (swap_case c)"
    "lower_chr (swap_case c) = lower_chr c" "is_lower (lower_chr c)" by simp_all
qed

lemma lower_letter_cases: "is_lower (lower_chr x) \<Longrightarrow> x = lower_chr x \<or> x = swap_case (lower_chr x)"
proof -
  have "list_all (\<lambda>x. is_lower (lower_chr x) \<longrightarrow> x = lower_chr x \<or> x = swap_case (lower_chr x))
          (Enum.enum :: char list)" by code_simp
  from char_cases [OF this] show "is_lower (lower_chr x) \<Longrightarrow> x = lower_chr x \<or> x = swap_case (lower_chr x)"
    by simp
qed

lemma swap_case_twice: "is_lower y \<Longrightarrow> swap_case (swap_case y) = y"
proof -
  have "list_all (\<lambda>y. is_lower y \<longrightarrow> swap_case (swap_case y) = y) (Enum.enum :: char list)" by code_simp
  from char_cases [OF this] show "is_lower y \<Longrightarrow> swap_case (swap_case y) = y" by simp
qed

text \<open>For a letter of a pattern, the two cases are the characters with its lower case.\<close>

lemma ci_char:
  assumes "is_letter c"
  shows "(x = c \<or> x = swap_case c) = (lower_chr x = lower_chr c)"
proof
  assume "x = c \<or> x = swap_case c"
  then show "lower_chr x = lower_chr c" using letter_facts(4) [OF assms] by auto
next
  assume e: "lower_chr x = lower_chr c"
  let ?y = "lower_chr c"
  have y: "is_lower ?y" by (rule letter_facts(5) [OF assms])
  from lower_letter_cases [of x] y e have x: "x = ?y \<or> x = swap_case ?y" by simp
  from lower_letter_cases [of c] y have c: "c = ?y \<or> c = swap_case ?y" by simp
  from c show "x = c \<or> x = swap_case c"
  proof
    assume "c = ?y"
    with x show ?thesis by auto
  next
    assume c': "c = swap_case ?y"
    then have "swap_case c = ?y" using swap_case_twice [OF y] by simp
    with x c' show ?thesis by auto
  qed
qed

subsection \<open>A word of a pattern, in any case\<close>

lemma rmatch_Eps: "rmatch Eps k = k"
  by (rule ext) simp

lemma rmatch_seqs_Cons: "rmatch (seqs (r # rs)) k st = rmatch r (rmatch (seqs rs) k) st"
  by (cases rs) (simp_all add: rmatch_Eps)

lemma ignore_case_seqs: "ignore_case (seqs rs) = seqs (map ignore_case rs)"
  by (induction rs rule: seqs.induct) simp_all

lemma rmatch_letter:
  assumes "is_letter c"
  shows "rmatch (ignore_case (Lit c)) k st =
           (case rest st of [] \<Rightarrow> None
            | x # xs \<Rightarrow> if x = c \<or> x = swap_case c then k (advance st x xs) else None)"
  using letter_facts(1) [OF assms] by (simp add: cls_ok_def split: list.splits)

lemma rmatch_word:
  assumes "list_all is_letter w"
  shows "rmatch (seqs (map ignore_case (map Lit w))) k st =
           (if ci_prefix w (rest st) then k (advance_by (length w) st) else None)"
  using assms
proof (induction w arbitrary: st)
  case Nil
  show ?case by simp
next
  case (Cons c w)
  then have c: "is_letter c" and w: "list_all is_letter w" by simp_all
  show ?case
  proof (cases "rest st")
    case Nil
    then show ?thesis using c by (simp add: rmatch_seqs_Cons rmatch_letter del: ignore_case.simps)
  next
    case (Cons x xs)
    have r: "rest (advance st x xs) = xs" by (simp add: advance_def)
    show ?thesis using c Cons Cons.IH [OF w, of "advance st x xs"] r
      by (simp add: rmatch_seqs_Cons rmatch_letter del: ignore_case.simps)
  qed
qed

lemma rmatch_ci_word:
  assumes "list_all is_letter w"
  shows "rmatch (ignore_case (lits w)) k st =
           (if ci_prefix w (rest st) then k (advance_by (length w) st) else None)"
proof -
  have "ignore_case (lits w) = seqs (map ignore_case (map Lit w))"
    by (simp only: lits_def ignore_case_seqs)
  then show ?thesis by (simp only: rmatch_word [OF assms])
qed

lemma advance_by_parts:
  assumes "ci_prefix w (rest st)"
  shows "rest (advance_by (length w) st) = drop (length w) (rest st)"
    and "buf (advance_by (length w) st) = rev (take (length w) (rest st)) @ buf st"
    and "caps (advance_by (length w) st) = caps st"
    and "w \<noteq> [] \<Longrightarrow> prev (advance_by (length w) st) = Some (last (take (length w) (rest st)))"
  using assms
proof (induction w arbitrary: st)
  case Nil
  { case 1 show ?case by simp }
  { case 2 show ?case by simp }
  { case 3 show ?case by simp }
  { case 4 then show ?case by simp }
next
  case (Cons c w)
  { case 1
    then obtain x xs where s: "rest st = x # xs" and p: "ci_prefix w xs" by (cases "rest st") auto
    have r: "rest (advance st x xs) = xs" by (simp add: advance_def)
    from Cons.IH(1) [of "advance st x xs"] p r show ?case by (simp add: s) }
  { case 2
    then obtain x xs where s: "rest st = x # xs" and p: "ci_prefix w xs" by (cases "rest st") auto
    have r: "rest (advance st x xs) = xs" "buf (advance st x xs) = x # buf st" by (simp_all add: advance_def)
    from Cons.IH(2) [of "advance st x xs"] p r show ?case by (simp add: s) }
  { case 3
    then obtain x xs where s: "rest st = x # xs" and p: "ci_prefix w xs" by (cases "rest st") auto
    have r: "rest (advance st x xs) = xs" "caps (advance st x xs) = caps st" by (simp_all add: advance_def)
    from Cons.IH(3) [of "advance st x xs"] p r show ?case by (simp add: s) }
  { case 4
    then obtain x xs where s: "rest st = x # xs" and p: "ci_prefix w xs" by (cases "rest st") auto
    have r: "rest (advance st x xs) = xs" "prev (advance st x xs) = Some x" by (simp_all add: advance_def)
    show ?case
    proof (cases "w = []")
      case True
      then show ?thesis using r by (simp add: s)
    next
      case False
      have "length w \<le> length xs" using p by (induction w xs rule: ci_prefix.induct) simp_all
      then have "take (length w) xs \<noteq> []" using False by (cases xs) auto
      then show ?thesis using Cons.IH(4) [of "advance st x xs", OF False] p r by (simp add: s)
    qed }
qed


lemma ci_prefix_length: "ci_prefix w s \<Longrightarrow> length w \<le> length s"
  by (induction w s rule: ci_prefix.induct) simp_all

lemma ci_prefix_lower:
  assumes "list_all is_letter w"
  shows "ci_prefix w s = (length w \<le> length s \<and> lower (take (length w) s) = lower w)"
  using assms
proof (induction w s rule: ci_prefix.induct)
  case (1 s)
  show ?case by (simp add: lower_def)
next
  case (2 c w)
  show ?case by simp
next
  case (3 c w x s)
  then have c: "is_letter c" and w: "list_all is_letter w" by simp_all
  from 3(1) [OF w] ci_char [OF c, of x] show ?case by (auto simp: lower_def)
qed

lemma takeWhile_split:
  assumes "list_all P a" and "b = [] \<or> \<not> P (hd b)"
  shows "takeWhile P (a @ b) = a"
  using assms by (cases b) (auto simp: list_all_iff takeWhile_append)

lemma lower_word: "list_all is_word (lower t) = list_all is_word t"
  by (induction t) (simp_all add: lower_def lower_chr_word)

text \<open>A word of a pattern matches, with a word boundary after it, where it is the whole run
  of word characters at the position, in any case.\<close>

lemma ci_prefix_token:
  assumes "list_all is_letter w"
  shows "(ci_prefix w s \<and> \<not> word_opt (case drop (length w) s of [] \<Rightarrow> None | x # _ \<Rightarrow> Some x))
           = (lower (takeWhile is_word s) = lower w)"
proof
  assume a: "ci_prefix w s \<and> \<not> word_opt (case drop (length w) s of [] \<Rightarrow> None | x # _ \<Rightarrow> Some x)"
  then have l: "lower (take (length w) s) = lower w" using ci_prefix_lower [OF assms] by simp
  have ww: "list_all is_word w" using assms letter_facts(2) by (simp add: list_all_iff)
  then have "list_all is_word (lower w)" by (simp add: lower_word)
  then have tw: "list_all is_word (take (length w) s)" using l lower_word [of "take (length w) s"] by simp
  have nb: "drop (length w) s = [] \<or> \<not> is_word (hd (drop (length w) s))"
    using a by (cases "drop (length w) s") (simp_all add: word_opt_def)
  from takeWhile_split [OF tw nb] have "takeWhile is_word s = take (length w) s" by simp
  with l show "lower (takeWhile is_word s) = lower w" by simp
next
  assume e: "lower (takeWhile is_word s) = lower w"
  let ?t = "takeWhile is_word s"
  have len: "length ?t = length w" using e by (metis length_map lower_def)
  have s: "s = ?t @ dropWhile is_word s" by simp
  have tk: "take (length w) s = ?t" by (subst s) (simp add: len [symmetric] del: takeWhile_dropWhile_id)
  have dr: "drop (length w) s = dropWhile is_word s"
    by (subst s) (simp add: len [symmetric] del: takeWhile_dropWhile_id)
  have "length w \<le> length s" using len length_takeWhile_le [of is_word s] by simp
  then have "ci_prefix w s" using ci_prefix_lower [OF assms, of s] tk e by simp
  moreover have "\<not> word_opt (case drop (length w) s of [] \<Rightarrow> None | x # _ \<Rightarrow> Some x)"
  proof (cases "dropWhile is_word s")
    case Nil
    show ?thesis unfolding dr Nil by (simp add: word_opt_def)
  next
    case (Cons x xs)
    then have ne: "dropWhile is_word s \<noteq> []" by simp
    from hd_dropWhile [OF ne] Cons have "\<not> is_word x" by simp
    then show ?thesis unfolding dr Cons by (simp add: word_opt_def)
  qed
  ultimately show "ci_prefix w s \<and> \<not> word_opt (case drop (length w) s of [] \<Rightarrow> None | x # _ \<Rightarrow> Some x)"
    by simp
qed

lemma ci_prefix_take:
  assumes "list_all is_letter w" and "lower (takeWhile is_word s) = lower w"
  shows "take (length w) s = takeWhile is_word s"
proof -
  have len: "length (takeWhile is_word s) = length w" using assms(2) by (metis length_map lower_def)
  have s: "s = takeWhile is_word s @ dropWhile is_word s" by simp
  show ?thesis by (subst s) (simp add: len [symmetric] del: takeWhile_dropWhile_id)
qed

text \<open>One alternative of the suffix pattern, with the group and the second \<open>\b\<close> after
  it.\<close>

lemma rmatch_suffix_word:
  assumes "list_all is_letter w" and "w \<noteq> []"
  shows "rmatch (ignore_case (lits w)) (close_group n \<lparr>prev = p, rest = s, buf = [], caps = []\<rparr>
                                          (rmatch WordB (finish False)))
                (mark \<lparr>prev = p, rest = s, buf = [], caps = []\<rparr>)
         = (if lower (takeWhile is_word s) = lower w
            then Some (takeWhile is_word s, [(n, takeWhile is_word s)]) else None)"
proof -
  let ?st = "\<lparr>prev = p, rest = s, buf = [], caps = []\<rparr>"
  have m: "mark ?st = ?st" by (simp add: mark_def)
  show ?thesis
  proof (cases "ci_prefix w s")
    case False
    then have "lower (takeWhile is_word s) \<noteq> lower w" using ci_prefix_token [OF assms(1), of s] by auto
    then show ?thesis using False by (simp add: m rmatch_ci_word [OF assms(1)])
  next
    case True
    let ?a = "advance_by (length w) ?st"
    from True have c: "ci_prefix w (rest ?st)" by simp
    note parts = advance_by_parts [OF c]
    have r: "rest ?a = drop (length w) s" using parts(1) by simp
    have b: "buf ?a = rev (take (length w) s)" using parts(2) by simp
    have cp: "caps ?a = []" using parts(3) by simp
    have pv: "prev ?a = Some (last (take (length w) s))" using parts(4) [OF assms(2)] by simp
    have ne: "take (length w) s \<noteq> []" using assms(2) ci_prefix_length [OF True] by (cases s) auto
    have l: "lower (take (length w) s) = lower w" using True ci_prefix_lower [OF assms(1)] by simp
    have ww: "list_all is_word w" using assms(1) letter_facts(2) by (simp add: list_all_iff)
    then have "list_all is_word (lower w)" by (simp add: lower_word)
    then have tw: "list_all is_word (take (length w) s)" using l lower_word [of "take (length w) s"] by simp
    then have lw: "is_word (last (take (length w) s))" using ne by (simp add: list_all_iff)
    have k: "close_group n ?st (rmatch WordB (finish False)) ?a
               = (if \<not> word_opt (case drop (length w) s of [] \<Rightarrow> None | x # _ \<Rightarrow> Some x)
                  then Some (take (length w) s, [(n, take (length w) s)]) else None)"
      using r b cp pv lw
      by (simp add: close_group_def set_group_def unmark_def at_boundary_def finish_def word_opt_def)
    have "rmatch (ignore_case (lits w)) (close_group n ?st (rmatch WordB (finish False))) (mark ?st)
            = close_group n ?st (rmatch WordB (finish False)) ?a"
      using True by (simp add: m rmatch_ci_word [OF assms(1)])
    also have "\<dots> = (if lower (takeWhile is_word s) = lower w
                       then Some (take (length w) s, [(n, take (length w) s)]) else None)"
      using k ci_prefix_token [OF assms(1), of s] True by simp
    also have "\<dots> = (if lower (takeWhile is_word s) = lower w
                       then Some (takeWhile is_word s, [(n, takeWhile is_word s)]) else None)"
      using ci_prefix_take [OF assms(1)] by simp
    finally show ?thesis .
  qed
qed

lemma legal_suffixes_letters: "list_all (\<lambda>w. list_all is_letter w \<and> w \<noteq> []) LEGAL_SUFFIXES"
  by code_simp

lemma legal_suffix_nonempty: "legal_suffix t \<Longrightarrow> t \<noteq> []"
  using legal_suffixes_letters by (auto simp: legal_suffix_def list_all_iff lower_def)

text \<open>The suffix pattern matches at a position where a word starts that is a legal suffix,
  and covers that word.\<close>

lemma match_here_suffix:
  "match_here (compile True suffix_pattern) False p s =
     (if \<not> word_opt p \<and> legal_suffix (takeWhile is_word s)
      then Some (takeWhile is_word s, [(1, takeWhile is_word s)]) else None)"
proof -
  let ?t = "takeWhile is_word s"
  have l0: "list_all is_letter ''LLC''" by code_simp
  note r0 = rmatch_suffix_word [OF l0, simplified]
  have l1: "list_all is_letter ''Inc''" by code_simp
  note r1 = rmatch_suffix_word [OF l1, simplified]
  have l2: "list_all is_letter ''Corp''" by code_simp
  note r2 = rmatch_suffix_word [OF l2, simplified]
  have l3: "list_all is_letter ''Corporation''" by code_simp
  note r3 = rmatch_suffix_word [OF l3, simplified]
  have l4: "list_all is_letter ''Ltd''" by code_simp
  note r4 = rmatch_suffix_word [OF l4, simplified]
  have l5: "list_all is_letter ''Limited''" by code_simp
  note r5 = rmatch_suffix_word [OF l5, simplified]
  have l6: "list_all is_letter ''Co''" by code_simp
  note r6 = rmatch_suffix_word [OF l6, simplified]
  have l7: "list_all is_letter ''Company''" by code_simp
  note r7 = rmatch_suffix_word [OF l7, simplified]
  have b: "legal_suffix ?t \<Longrightarrow> at_boundary \<lparr>prev = p, rest = s, buf = [], caps = []\<rparr> = (\<not> word_opt p)"
  proof -
    assume "legal_suffix ?t"
    then have "?t \<noteq> []" by (rule legal_suffix_nonempty)
    then obtain x xs where s: "s = x # xs" "is_word x" by (cases s) (auto split: if_splits)
    then show ?thesis by (simp add: at_boundary_def word_opt_def)
  qed
  show ?thesis
  proof (cases "legal_suffix ?t")
    case True
    then show ?thesis using b [OF True]
      by (auto simp: match_here_def compile_def suffix_pattern_def LEGAL_SUFFIXES_def legal_suffix_def
            r0 r1 r2 r3 r4 r5 r6 r7)
  next
    case False
    then show ?thesis
      by (auto simp: match_here_def compile_def suffix_pattern_def LEGAL_SUFFIXES_def legal_suffix_def
            r0 r1 r2 r3 r4 r5 r6 r7)
  qed
qed

subsection \<open>Removing the legal suffixes from a name without punctuation\<close>

lemma scan_skip:
  assumes "length sk = length a"
  shows "\<exists>pos' p'. scan r pos sk p (a @ s) = scan r pos' [] p' s"
  using assms
proof (induction a arbitrary: sk pos p)
  case Nil
  then show ?case by auto
next
  case (Cons x a)
  then obtain k sk' where sk: "sk = k # sk'" "length sk' = length a" by (cases sk) auto
  from Cons.IH [OF sk(2)] show ?case by (simp add: sk(1))
qed

lemma space_not_word: "is_space c \<Longrightarrow> \<not> is_word c"
  using word_not_space by blast

lemma rebuild_in_word:
  assumes "word_opt p" and "list_all is_word a"
  shows "\<exists>pos' p'. rebuild [] (scan (compile True suffix_pattern) pos [] p (a @ s))
           = a @ rebuild [] (scan (compile True suffix_pattern) pos' [] p' s)"
  using assms
proof (induction a arbitrary: pos p)
  case Nil
  then show ?case by auto
next
  case (Cons c a)
  then have c: "is_word c" and a: "list_all is_word a" by simp_all
  have w: "word_opt (Some c)" using c by (simp add: word_opt_def)
  from Cons.IH [OF w a] obtain pos' p'
    where "rebuild [] (scan (compile True suffix_pattern) (Suc pos) [] (Some c) (a @ s))
             = a @ rebuild [] (scan (compile True suffix_pattern) pos' [] p' s)" by blast
  then show ?case using Cons.prems(1) by (auto simp: match_here_suffix)
qed

lemma rebuild_at_gap:
  assumes "s = [] \<or> is_space (hd s)"
  shows "rebuild [] (scan (compile True suffix_pattern) pos [] p s)
           = (case s of [] \<Rightarrow> []
              | c # cs \<Rightarrow> c # rebuild [] (scan (compile True suffix_pattern) (Suc pos) [] (Some c) cs))"
proof (cases s)
  case Nil
  have "\<not> legal_suffix []" using legal_suffix_nonempty by blast
  then show ?thesis using Nil by (simp add: match_here_suffix)
next
  case (Cons c cs)
  with assms have "\<not> is_word c" using space_not_word by simp
  then have "takeWhile is_word s = []" using Cons by simp
  moreover have "\<not> legal_suffix []" using legal_suffix_nonempty by blast
  ultimately show ?thesis using Cons by (simp add: match_here_suffix)
qed

lemma split_ws_acc:
  assumes "\<forall>c \<in> set t. \<not> is_space c"
  shows "split_ws cur (t @ r) = split_ws (rev t @ cur) r"
  using assms by (induction t arbitrary: cur) simp_all

lemma split_ws_token:
  assumes "t \<noteq> []" and "\<forall>c \<in> set t. \<not> is_space c" and "r = [] \<or> is_space (hd r)"
  shows "split_ws [] (t @ r) = t # split_ws [] r"
proof (cases r)
  case Nil
  then show ?thesis using assms(1) split_ws_acc [OF assms(2), of "[]" "[]"] by simp
next
  case (Cons x xs)
  with assms(3) have "is_space x" by simp
  then show ?thesis using assms(1) Cons split_ws_acc [OF assms(2), of "[]" "x # xs"] by simp
qed

text \<open>In a name of word characters and whitespace, the substitution removes the words
  that are legal suffixes, and nothing else.\<close>

lemma tokens_without_suffixes:
  assumes "list_all plain s" and "\<not> word_opt p \<or> s = [] \<or> is_space (hd s)"
  shows "split_ws [] (rebuild [] (scan (compile True suffix_pattern) pos [] p s))
           = filter (\<lambda>t. \<not> legal_suffix t) (split_ws [] s)"
  using assms
proof (induction s arbitrary: pos p rule: length_induct)
  case (1 s)
  let ?R = "compile True suffix_pattern"
  show ?case
  proof (cases s)
    case Nil
    then show ?thesis using rebuild_at_gap [of s pos p] by simp
  next
    case (Cons c cs)
    have pc: "list_all plain cs" using 1(2) Cons by simp
    show ?thesis
    proof (cases "is_space c")
      case True
      have g: "rebuild [] (scan ?R pos [] p s) = c # rebuild [] (scan ?R (Suc pos) [] (Some c) cs)"
        using rebuild_at_gap [of s pos p] Cons True by simp
      have np: "\<not> word_opt (Some c)" using True space_not_word by (simp add: word_opt_def)
      have "split_ws [] (rebuild [] (scan ?R (Suc pos) [] (Some c) cs))
              = filter (\<lambda>t. \<not> legal_suffix t) (split_ws [] cs)"
        using 1(1) Cons pc np by simp
      then show ?thesis using g True Cons by simp
    next
      case False
      then have wc: "is_word c" using 1(2) Cons by (simp add: plain_def)
      then have np: "\<not> word_opt p" using 1(3) Cons False by auto
      let ?t = "takeWhile is_word s"
      let ?r = "dropWhile is_word s"
      let ?t' = "takeWhile is_word cs"
      have t: "?t = c # ?t'" using Cons wc by simp
      have r: "?r = dropWhile is_word cs" using Cons wc by simp
      have s: "s = ?t @ ?r" by simp
      have cs: "cs = ?t' @ ?r" unfolding r by simp
      have tw: "list_all is_word ?t" by (simp add: list_all_iff) (meson set_takeWhileD)
      have tw': "list_all is_word ?t'" by (simp add: list_all_iff) (meson set_takeWhileD)
      have tns: "\<forall>x \<in> set ?t. \<not> is_space x" using tw word_not_space by (auto simp: list_all_iff)
      have tne: "?t \<noteq> []" using t by simp
      have pr: "list_all plain ?r" using 1(2) by (simp add: list_all_iff) (meson set_dropWhileD)
      have gap: "?r = [] \<or> is_space (hd ?r)"
      proof (cases ?r)
        case Nil
        then show ?thesis by simp
      next
        case (Cons x xs)
        then have ne: "?r \<noteq> []" by simp
        from hd_dropWhile [OF ne] Cons have "\<not> is_word x" by simp
        moreover have "plain x" using pr Cons by simp
        ultimately show ?thesis using Cons by (simp add: plain_def)
      qed
      have len: "length ?r < length s" using tne s by (metis length_append length_greater_0_conv less_add_same_cancel2)
      have ih: "\<And>pos' p'. split_ws [] (rebuild [] (scan ?R pos' [] p' ?r))
                  = filter (\<lambda>t. \<not> legal_suffix t) (split_ws [] ?r)"
        using 1(1) len pr gap by blast
      have rhs: "split_ws [] s = ?t # split_ws [] ?r"
        using split_ws_token [OF tne tns gap] by simp
      show ?thesis
      proof (cases "legal_suffix ?t")
        case True
        have m: "match_here ?R False p (c # cs) = Some (c # ?t', [(1, c # ?t')])"
          using True np t Cons by (simp add: match_here_suffix)
        obtain pos' p' where sk: "scan ?R (Suc pos) ?t' (Some c) (?t' @ ?r) = scan ?R pos' [] p' ?r"
          using scan_skip [of ?t' ?t' ?R "Suc pos" "Some c" ?r] by auto
        have "scan ?R pos [] p s = Found (mk_match pos (c # ?t', [(1, c # ?t')])) # scan ?R (Suc pos) ?t' (Some c) cs"
          using m Cons by simp
        also have "scan ?R (Suc pos) ?t' (Some c) cs = scan ?R pos' [] p' ?r"
          using sk cs by simp
        finally have "rebuild [] (scan ?R pos [] p s) = rebuild [] (scan ?R pos' [] p' ?r)" by simp
        then show ?thesis using ih [of pos' p'] rhs True by simp
      next
        case False
        have m: "match_here ?R False p (c # cs) = None"
          using False t Cons by (simp add: match_here_suffix)
        have sc: "scan ?R pos [] p s = Outside c # scan ?R (Suc pos) [] (Some c) cs"
          using m Cons by simp
        have w: "word_opt (Some c)" using wc by (simp add: word_opt_def)
        from rebuild_in_word [OF w tw', of "Suc pos" ?r] obtain pos' p'
          where mid: "rebuild [] (scan ?R (Suc pos) [] (Some c) (?t' @ ?r))
                        = ?t' @ rebuild [] (scan ?R pos' [] p' ?r)" by blast
        let ?Y = "rebuild [] (scan ?R pos' [] p' ?r)"
        have y: "rebuild [] (scan ?R pos [] p s) = ?t @ ?Y"
          using sc mid cs t by simp
        have ygap: "?Y = [] \<or> is_space (hd ?Y)"
        proof (cases ?r)
          case Nil
          have "rebuild [] (scan ?R pos' [] p' []) = []" using rebuild_at_gap [of "[]" pos' p'] by simp
          then show ?thesis unfolding Nil by simp
        next
          case (Cons x xs)
          with gap have x: "is_space x" by simp
          have "rebuild [] (scan ?R pos' [] p' (x # xs))
                  = x # rebuild [] (scan ?R (Suc pos') [] (Some x) xs)"
            using rebuild_at_gap [of "x # xs" pos' p'] x by simp
          then show ?thesis unfolding Cons using x by simp
        qed
        have "split_ws [] (?t @ ?Y) = ?t # split_ws [] ?Y"
          by (rule split_ws_token [OF tne tns ygap])
        then show ?thesis using y ih [of pos' p'] rhs False by simp
      qed
    qed
  qed
qed

lemma set_rebuild_scan: "set (rebuild [] (scan r pos sk p s)) \<subseteq> set s"
proof (induction s arbitrary: pos sk p)
  case Nil
  show ?case by (cases sk) (auto split: option.splits)
next
  case (Cons c cs)
  have ih: "\<And>pos sk p x. x \<in> set (rebuild [] (scan r pos sk p cs)) \<Longrightarrow> x \<in> set cs"
    using Cons.IH by blast
  show ?case
  proof (cases sk)
    case Nil
    show ?thesis unfolding Nil
      by (auto split: option.splits list.splits prod.splits dest: ih)
  next
    case (Cons k sk')
    show ?thesis unfolding Cons by (auto dest: ih)
  qed
qed

lemma sub_suffix_plain:
  assumes "list_all plain s"
  shows "list_all plain (sub True suffix_pattern [] s)"
  using assms set_rebuild_scan [of "compile True suffix_pattern" 0 "[]" None s]
  by (auto simp: sub_def list_all_iff)

lemma sub_suffix_tokens:
  assumes "list_all plain s"
  shows "split_ws [] (sub True suffix_pattern [] s) = filter (\<lambda>t. \<not> legal_suffix t) (split_ws [] s)"
  using tokens_without_suffixes [OF assms, of None 0] by (simp add: sub_def word_opt_def)

subsection \<open>Words and the spaces between them\<close>

lemma sub_punctuation: "sub False punctuation_pattern [] s = filter plain s"
  by (auto simp add: punctuation_pattern_def sub_Cls cls_ok_def plain_def intro!: filter_cong)

lemma split_ws_words_acc:
  assumes "\<forall>c \<in> set cur. \<not> is_space c"
  shows "spaceless (split_ws cur s)"
  using assms
proof (induction s arbitrary: cur)
  case Nil
  then show ?case by (simp add: spaceless_def)
next
  case (Cons a s)
  have e: "spaceless (split_ws [] s)" by (rule Cons.IH) simp
  show ?case
  proof (cases "is_space a")
    case True
    then show ?thesis using e Cons.prems by (simp add: spaceless_def)
  next
    case False
    then have "spaceless (split_ws (a # cur) s)" using Cons.prems by (intro Cons.IH) simp
    then show ?thesis using False by simp
  qed
qed

lemma split_ws_words: "spaceless (split_ws [] s)"
  by (rule split_ws_words_acc) simp

lemma split_ws_chars_acc: "set (concat (split_ws cur s)) \<subseteq> set cur \<union> set s"
proof (induction s arbitrary: cur)
  case Nil
  show ?case by simp
next
  case (Cons a s)
  have e: "set (concat (split_ws [] s)) \<subseteq> set s" using Cons.IH [of "[]"] by simp
  have f: "set (concat (split_ws (a # cur) s)) \<subseteq> insert a (set cur \<union> set s)"
    using Cons.IH [of "a # cur"] by simp
  show ?case
  proof (cases "is_space a")
    case True
    then show ?thesis using e by (cases "cur = []") auto
  next
    case False
    then show ?thesis using f by auto
  qed
qed

lemma split_ws_chars: "t \<in> set (split_ws [] s) \<Longrightarrow> set t \<subseteq> set s"
  using split_ws_chars_acc [of "[]" s] by auto

lemma space_is_space: "is_space CHR '' ''"
  by code_simp

lemma lower_space: "lower '' '' = '' ''"
  by code_simp

lemma split_ws_join:
  assumes "spaceless ts"
  shows "split_ws [] (join '' '' ts) = ts"
  using assms
proof (induction "'' ''" ts rule: join.induct)
  case 1
  show ?case by simp
next
  case (2 w)
  then have "w \<noteq> []" "\<forall>c \<in> set w. \<not> is_space c" by (simp_all add: spaceless_def)
  from split_ws_token [OF this, of "[]"] show ?case by simp
next
  case (3 w v ws)
  then have w: "w \<noteq> []" "\<forall>c \<in> set w. \<not> is_space c" and r: "spaceless (v # ws)" by (simp_all add: spaceless_def)
  have "split_ws [] (w @ '' '' @ join '' '' (v # ws)) = w # split_ws [] ('' '' @ join '' '' (v # ws))"
    using split_ws_token [OF w, of "'' '' @ join '' '' (v # ws)"] space_is_space by simp
  also have "split_ws [] ('' '' @ join '' '' (v # ws)) = split_ws [] (join '' '' (v # ws))"
    using space_is_space by simp
  finally show ?case using 3(1) [OF r] by simp
qed

lemma join_edges:
  assumes "spaceless ts" and "ts \<noteq> []"
  shows "join '' '' ts \<noteq> [] \<and> \<not> is_space (hd (join '' '' ts)) \<and> \<not> is_space (last (join '' '' ts))"
  using assms
proof (induction "'' ''" ts rule: join.induct)
  case 1
  then show ?case by simp
next
  case (2 w)
  then have "w \<noteq> []" "\<forall>c \<in> set w. \<not> is_space c" by (simp_all add: spaceless_def)
  then show ?case by simp
next
  case (3 w v ws)
  then have w: "w \<noteq> []" "\<forall>c \<in> set w. \<not> is_space c" and r: "spaceless (v # ws)" by (simp_all add: spaceless_def)
  from 3(1) [OF r] have j: "join '' '' (v # ws) \<noteq> []" "\<not> is_space (last (join '' '' (v # ws)))" by simp_all
  show ?case using w j by simp
qed

lemma strip_fixed:
  assumes "s = [] \<or> (\<not> is_space (hd s) \<and> \<not> is_space (last s))"
  shows "strip s = s"
proof (cases s)
  case Nil
  then show ?thesis by (simp add: strip_def)
next
  case (Cons c cs)
  with assms have h: "\<not> is_space (hd s)" and l: "\<not> is_space (last s)" by simp_all
  have a: "dropWhile is_space s = s" using h by (simp add: dropWhile_eq_self_iff)
  have "hd (rev s) = last s" by (rule hd_rev)
  then have b: "dropWhile is_space (rev s) = rev s" using l by (simp only: dropWhile_eq_self_iff) simp
  show ?thesis by (simp add: strip_def a b)
qed

lemma strip_join:
  assumes "spaceless ts"
  shows "strip (join '' '' ts) = join '' '' ts"
proof (cases "ts = []")
  case True
  then show ?thesis by (simp add: strip_def)
next
  case False
  from join_edges [OF assms False] show ?thesis by (intro strip_fixed) simp
qed

lemma lower_join: "lower (join sep ts) = join (lower sep) (map lower ts)"
  by (induction sep ts rule: join.induct) (simp_all add: lower_def)

lemma lower_lower: "lower (lower s) = lower s"
  by (simp add: lower_def lower_chr_idem)

lemma words_lower: "spaceless ts \<Longrightarrow> spaceless (map lower ts)"
  by (auto simp: spaceless_def lower_def lower_chr_space)

lemma legal_suffix_lower: "legal_suffix (lower t) = legal_suffix t"
  by (simp add: legal_suffix_def lower_lower)

lemma plain_join:
  assumes "\<forall>t \<in> set ts. list_all plain t"
  shows "list_all plain (join '' '' ts)"
  using assms
proof (induction "'' ''" ts rule: join.induct)
  case 1
  show ?case by simp
next
  case (2 w)
  then show ?case by simp
next
  case (3 w v ws)
  have "plain CHR '' ''" using space_is_space by (simp add: plain_def)
  then show ?case using 3 by simp
qed

lemma plain_lower: "list_all plain (lower s) = list_all plain s"
  by (induction s) (simp_all add: lower_def plain_def lower_chr_word lower_chr_space)

lemma plain_strip: "list_all plain s \<Longrightarrow> list_all plain (strip s)"
  by (auto simp: strip_def list_all_iff dest!: set_dropWhileD)

lemma plain_tokens: "list_all plain s \<Longrightarrow> \<forall>t \<in> set (split_ws [] s). list_all plain t"
  using split_ws_chars by (fastforce simp: list_all_iff)

subsection \<open>The normalized name\<close>

text \<open>The normalized form of a name without punctuation: its words that are not legal
  suffixes, in lower case, one space apart.\<close>

lemma normalize_plain:
  assumes "list_all plain x"
  shows "normalize_company_name x
           = join '' '' (map lower (filter (\<lambda>t. \<not> legal_suffix t) (split_ws [] x)))"
proof (cases "x = []")
  case True
  then show ?thesis by (simp add: normalize_company_name_def)
next
  case False
  let ?ts = "filter (\<lambda>t. \<not> legal_suffix t) (split_ws [] x)"
  have p1: "list_all plain (sub True suffix_pattern [] x)" by (rule sub_suffix_plain [OF assms])
  then have n2: "sub False punctuation_pattern [] (sub True suffix_pattern [] x) = sub True suffix_pattern [] x"
    by (simp add: sub_punctuation list_all_iff)
  have w: "spaceless ?ts" using split_ws_words [of x] by (auto simp: spaceless_def)
  have "normalize_company_name x = strip (lower (join '' '' ?ts))"
    using False by (simp add: normalize_company_name_def Let_def n2 sub_suffix_tokens [OF assms])
  also have "\<dots> = strip (join '' '' (map lower ?ts))" by (simp add: lower_join lower_space)
  also have "\<dots> = join '' '' (map lower ?ts)" by (rule strip_join [OF words_lower [OF w]])
  finally show ?thesis .
qed

lemma normalize_is_plain: "list_all plain (normalize_company_name x)"
proof (cases "x = []")
  case True
  then show ?thesis by (simp add: normalize_company_name_def)
next
  case False
  let ?n2 = "sub False punctuation_pattern [] (sub True suffix_pattern [] x)"
  have "list_all plain ?n2" by (simp add: sub_punctuation list_all_iff)
  then have "list_all plain (join '' '' (split_ws [] ?n2))" by (intro plain_join plain_tokens)
  then have "list_all plain (strip (lower (join '' '' (split_ws [] ?n2))))"
    by (intro plain_strip) (simp add: plain_lower)
  then show ?thesis using False by (simp add: normalize_company_name_def Let_def)
qed

lemma normalize_idempotent_plain:
  assumes "list_all plain x"
  shows "normalize_company_name (normalize_company_name x) = normalize_company_name x"
proof -
  let ?ts = "map lower (filter (\<lambda>t. \<not> legal_suffix t) (split_ws [] x))"
  have n: "normalize_company_name x = join '' '' ?ts" by (rule normalize_plain [OF assms])
  have w: "spaceless ?ts" using split_ws_words [of x] by (intro words_lower) (auto simp: spaceless_def)
  have sp: "split_ws [] (join '' '' ?ts) = ?ts" by (rule split_ws_join [OF w])
  have f: "filter (\<lambda>t. \<not> legal_suffix t) ?ts = ?ts"
    by (simp add: filter_map comp_def legal_suffix_lower)
  have l: "map lower ?ts = ?ts" by (simp add: lower_lower)
  have "normalize_company_name (join '' '' ?ts)
          = join '' '' (map lower (filter (\<lambda>t. \<not> legal_suffix t) (split_ws [] (join '' '' ?ts))))"
    using normalize_is_plain [of x] unfolding n by (rule normalize_plain)
  also have "\<dots> = join '' '' ?ts" unfolding sp f l ..
  finally show ?thesis unfolding n .
qed

text \<open>
  Claim C6 says that normalizing a normalized name changes nothing, for every name. The
  legal suffixes are removed before the punctuation is: in \<open>L.L.C. Holdings\<close> the dots
  keep \<open>LLC\<close> from being seen as a suffix, the normalized name is \<open>llc holdings\<close>, and
  normalizing that gives \<open>holdings\<close>.
\<close>

theorem normalizing_twice_removes_a_suffix_behind_dots:
  "normalize_company_name ''L.L.C. Holdings'' = ''llc holdings''
   \<and> normalize_company_name (normalize_company_name ''L.L.C. Holdings'') = ''holdings''
   \<and> normalize_company_name (normalize_company_name ''L.L.C. Holdings'')
       \<noteq> normalize_company_name ''L.L.C. Holdings''"
proof -
  have a: "normalize_company_name ''L.L.C. Holdings'' = ''llc holdings''" by code_simp
  have b: "normalize_company_name ''llc holdings'' = ''holdings''" by code_simp
  from a b show ?thesis by simp
qed

text \<open>
  Claim C6, amended: normalization is idempotent on the names without punctuation. For
  every string \<open>x\<close> of word characters and whitespace, of code points below 256,
  normalizing the normalized name gives the normalized name; and for every string of
  such code points, normalized or not, the third normalization changes nothing, since a
  normalized name has no punctuation.
\<close>

theorem normalize_idempotent_without_punctuation:
  "(list_all plain x \<longrightarrow>
      normalize_company_name (normalize_company_name x) = normalize_company_name x)
   \<and> normalize_company_name (normalize_company_name (normalize_company_name y))
       = normalize_company_name (normalize_company_name y)"
  using normalize_idempotent_plain [of x]
    normalize_idempotent_plain [OF normalize_is_plain [of y]]
  by simp

theorem normalize_idempotent_without_punctuation_witness:
  "list_all plain ''Chapul  Holdings LLC''
   \<and> normalize_company_name ''Chapul  Holdings LLC'' = ''chapul holdings''
   \<and> normalize_company_name (normalize_company_name ''Chapul  Holdings LLC'')
       = normalize_company_name ''Chapul  Holdings LLC''
   \<and> normalize_company_name (normalize_company_name (normalize_company_name ''L.L.C. Holdings''))
       = normalize_company_name (normalize_company_name ''L.L.C. Holdings'')"
proof -
  have p: "list_all plain ''Chapul  Holdings LLC''" by code_simp
  have n: "normalize_company_name ''Chapul  Holdings LLC'' = ''chapul holdings''" by code_simp
  from normalize_idempotent_without_punctuation [of "''Chapul  Holdings LLC''" "''L.L.C. Holdings''"] p n
  show ?thesis by simp
qed

end
